theory Spec2Isabelle
  imports Main "HOL-Library.Word" "HOL-Library.Signed_Division" "HOL-Library.Monad_Syntax"
begin

unbundle bit_operations_syntax

section \<open>The graphics viewer of ui/viewgfx.cpp\<close>

text \<open>
  Conventions of the embedding.
  \<^item> A C \<open>int\<close> is an \<open>int\<close>; the quotient of two C integers truncates towards zero
    and is written \<open>sdiv\<close>. Where a value can leave the range of the 32-bit \<open>int\<close> that
    holds it (the pan offsets of the tilemap view, an unsigned count stored into an
    \<open>int\<close>), the wrap-around is written out with \<open>to_int32\<close>. Fields declared
    \<open>uint8_t\<close> or \<open>uint32_t\<close> whose arithmetic the viewer relies on are words.
  \<^item> The sizes and counts that the host reports as unsigned values are \<open>nat\<close>; an
    \<open>int\<close> compared with one of them is converted to unsigned first, \<open>to_uint32\<close>.
  \<^item> A pointer is an \<open>option\<close>, \<open>None\<close> being \<open>nullptr\<close>.
  \<^item> A function that can dereference a null pointer, raise, or loop for ever returns an
    \<open>option\<close>: \<open>None\<close> says that it does not return normally.
  \<^item> The arrays indexed by set and by device (\<open>MAX_GFX_ELEMENTS\<close> and
    \<open>MAX_GFX_DECODERS\<close> entries) are total maps from the index; the viewer indexes
    them below \<open>setcount\<close> and \<open>devcount\<close> only.
\<close>

subsection \<open>Integers of 32 bits\<close>

text \<open>
  The \<open>int\<close> that holds the low 32 bits of a value, in two's complement: what a
  \<open>uint32_t\<close> becomes when it is stored into an \<open>int\<close>, and what \<open>int\<close> arithmetic
  leaves when it overflows. And the \<open>uint32_t\<close> that an \<open>int\<close> becomes when it is
  compared or combined with an unsigned value.
\<close>

definition to_int32 :: "int \<Rightarrow> int" where
  "to_int32 x = (x + 2 ^ 31) mod 2 ^ 32 - 2 ^ 31"

definition to_uint32 :: "int \<Rightarrow> int" where
  "to_uint32 x = x mod 2 ^ 32"

subsection \<open>Constants\<close>

text \<open>
  Modelled from the spec: the orientation flags are declared in the emulator core, outside
  the viewer's file. The glossary's "3-bit composition of swap-axes, flip-horizontal,
  flip-vertical" is rendered with one bit per flag.
\<close>

definition ORIENTATION_FLIP_X :: "8 word" where
  "ORIENTATION_FLIP_X = 1"

definition ORIENTATION_FLIP_Y :: "8 word" where
  "ORIENTATION_FLIP_Y = 2"

definition ORIENTATION_SWAP_XY :: "8 word" where
  "ORIENTATION_SWAP_XY = 4"

text \<open>
  Modelled from the spec: \<open>orientation_add(ROT90, r)\<close> is a helper of the renderer.
  "Rotation key advances the orientation code by one 90 degree step (composed with any
  existing flips)"; \<open>ROT90\<close> is swap-axes with flip-horizontal, and the flips of the
  added rotation are exchanged when \<open>r\<close> already swaps the axes.
\<close>

definition orientation_add_ROT90 :: "8 word \<Rightarrow> 8 word" where
  "orientation_add_ROT90 r =
     (if r AND ORIENTATION_SWAP_XY = 0
      then (ORIENTATION_SWAP_XY OR ORIENTATION_FLIP_X) XOR r
      else (ORIENTATION_SWAP_XY OR ORIENTATION_FLIP_Y) XOR r)"

text \<open>\<open>const uint8_t MAX_GFX_DECODERS = 8\<close>\<close>

definition MAX_GFX_DECODERS :: nat where
  "MAX_GFX_DECODERS = 8"

text \<open>
  Modelled from the spec: \<open>MAX_GFX_ELEMENTS\<close>, the bound of the per-set arrays, is
  declared with the graphics decoder ("up to a fixed small cap"); no property below
  depends on its value.
\<close>

definition MAX_GFX_ELEMENTS :: nat where
  "MAX_GFX_ELEMENTS = 32"

text \<open>
  Modelled from the spec: the tilemap draw flags are declared with the tilemap system.
  The category filter is "a bounded counter with a distinguished all-categories sentinel";
  no property below depends on the two values.
\<close>

definition TILEMAP_DRAW_CATEGORY_MASK :: "32 word" where
  "TILEMAP_DRAW_CATEGORY_MASK = 0x0f"

definition TILEMAP_DRAW_ALL_CATEGORIES :: "32 word" where
  "TILEMAP_DRAW_ALL_CATEGORIES = 0x200"

subsection \<open>What the viewer reads from the host\<close>

text \<open>A palette device: \<open>entries()\<close>, \<open>indirect_entries()\<close>,
  \<open>palette()->entry_list_raw()[i]\<close> and \<open>indirect_color(i)\<close>.\<close>

record palette_device =
  pal_entries :: nat
  pal_indirect_entries :: nat
  pal_entry_list_raw :: "int \<Rightarrow> 32 word"
  pal_indirect_color :: "int \<Rightarrow> 32 word"

text \<open>A graphics set. \<open>gfx_palette\<close> is the set's own palette, \<open>None\<close> when
  \<open>has_palette()\<close> is false; \<open>gfx_get_data index\<close> is the byte array of an element.\<close>

record gfx_element =
  gfx_width :: nat
  gfx_height :: nat
  gfx_elements :: nat
  gfx_rowbytes :: nat
  gfx_colors :: nat
  gfx_granularity :: nat
  gfx_colorbase :: nat
  gfx_palette :: "palette_device option"
  gfx_get_data :: "int \<Rightarrow> int \<Rightarrow> 8 word"

text \<open>A graphics decoder device: \<open>interface.gfx(slot)\<close>.\<close>

type_synonym device_gfx_interface = "nat \<Rightarrow> gfx_element option"

record tilemap_t =
  tmap_width :: nat
  tmap_height :: nat
  tmap_palette :: palette_device

datatype ui_key =
    IPT_UI_ZOOM_OUT | IPT_UI_ZOOM_IN | IPT_UI_PREV_GROUP | IPT_UI_NEXT_GROUP
  | IPT_UI_UP | IPT_UI_DOWN | IPT_UI_LEFT | IPT_UI_RIGHT
  | IPT_UI_PAGE_UP | IPT_UI_PAGE_DOWN | IPT_UI_HOME | IPT_UI_END
  | IPT_UI_ROTATE | IPT_UI_SNAPSHOT

datatype keycode = KEYCODE_LSHIFT | KEYCODE_LCONTROL

text \<open>
  The machine as the viewer sees it during one frame: the enumerated devices, the keys
  that \<open>ui_input().pressed\<close>, \<open>pressed_repeat\<close> and \<open>input().code_pressed\<close> report,
  the snapshot options and the image devices (brief instance name, and the base name of
  the mounted image if there is one).
\<close>

record running_machine =
  palette_devices :: "palette_device list"
  gfx_devices :: "device_gfx_interface list"
  tilemaps :: "tilemap_t list"
  ui_pressed :: "ui_key \<Rightarrow> bool"
  code_pressed :: "keycode \<Rightarrow> bool"
  snap_name :: "string option"
  machine_basename :: string
  image_devices :: "(string \<times> string option) list"
  PATH_SEPARATOR :: string

text \<open>\<open>enumerator.byindex(i)\<close> and \<open>tilemap().find(i)\<close>: the device, or \<open>nullptr\<close>.\<close>

definition byindex :: "'a list \<Rightarrow> int \<Rightarrow> 'a option" where
  "byindex xs i = (if 0 \<le> i \<and> i < int (length xs) then Some (xs ! nat i) else None)"

subsection \<open>The viewer's state\<close>

text \<open>
  \<open>bitmap_rgb32\<close> as the viewer uses it: \<open>valid()\<close>, \<open>width()\<close>, \<open>height()\<close> and
  the pixels \<open>pix(y, x)\<close>. \<open>reset()\<close> leaves an invalid bitmap of no size.
\<close>

record bitmap_rgb32 =
  bm_valid :: bool
  bm_width :: int
  bm_height :: int
  bm_pix :: "int \<Rightarrow> int \<Rightarrow> 32 word"

definition bitmap_reset :: "bitmap_rgb32 \<Rightarrow> bitmap_rgb32" where
  "bitmap_reset bm = bm\<lparr>bm_valid := False, bm_width := 0, bm_height := 0\<rparr>"

text \<open>\<open>struct ui_gfx_info\<close>\<close>

record ui_gfx_info =
  info_interface :: "device_gfx_interface option"
  info_setcount :: nat
  info_rotate :: "nat \<Rightarrow> 8 word"
  info_columns :: "nat \<Rightarrow> 8 word"
  info_offset :: "nat \<Rightarrow> int"
  info_color :: "nat \<Rightarrow> int"
  info_palette :: "nat \<Rightarrow> palette_device option"
  info_color_count :: "nat \<Rightarrow> int"

text \<open>\<open>struct ui_gfx_state\<close>; a texture is the number the render manager gave it.\<close>

record ui_gfx_state =
  started :: bool
  mode :: nat
  save :: bool
  bitmap_dirty :: bool
  bitmap :: bitmap_rgb32
  texture :: "nat option"
  palette_interface :: "palette_device option"
  palette_devcount :: int
  palette_devindex :: int
  palette_which :: "8 word"
  palette_columns :: "8 word"
  palette_offset :: int
  gfxset_devcount :: nat
  gfxset_devindex :: nat
  gfxset_set :: nat
  gfxdev :: "nat \<Rightarrow> ui_gfx_info"
  tilemap_which :: int
  tilemap_xoffs :: int
  tilemap_yoffs :: int
  tilemap_zoom :: int
  tilemap_rotate :: "8 word"
  tilemap_flags :: "32 word"

text \<open>
  \<open>ui_gfx_init\<close>, with \<open>rot\<close> the orientation of the system. The state is a static
  object: \<open>save\<close> and \<open>palette.offset\<close>, which the function does not assign, start
  as zero.
\<close>

definition ui_gfx_init :: "8 word \<Rightarrow> ui_gfx_state" where
  "ui_gfx_init rot =
     \<lparr> started = False, mode = 0, save = False, bitmap_dirty = False,
       bitmap = \<lparr> bm_valid = False, bm_width = 0, bm_height = 0, bm_pix = (\<lambda>y x. 0) \<rparr>,
       texture = None,
       palette_interface = None, palette_devcount = 0, palette_devindex = 0,
       palette_which = 0, palette_columns = 16, palette_offset = 0,
       gfxset_devcount = 0, gfxset_devindex = 0, gfxset_set = 0,
       gfxdev = (\<lambda>i.
         \<lparr> info_interface = None, info_setcount = 0,
           info_rotate = (\<lambda>j. rot), info_columns = (\<lambda>j. 16),
           info_offset = (\<lambda>j. 0), info_color = (\<lambda>j. 0),
           info_palette = (\<lambda>j. None), info_color_count = (\<lambda>j. 0) \<rparr>),
       tilemap_which = 0, tilemap_xoffs = 0, tilemap_yoffs = 0, tilemap_zoom = 0,
       tilemap_rotate = rot, tilemap_flags = TILEMAP_DRAW_ALL_CATEGORIES \<rparr>"

subsection \<open>Counting the devices\<close>

text \<open>\<open>palette_set_device\<close>\<close>

definition palette_set_device :: "running_machine \<Rightarrow> ui_gfx_state \<Rightarrow> ui_gfx_state" where
  "palette_set_device machine state =
     state\<lparr>palette_interface := byindex (palette_devices machine) (palette_devindex state)\<rparr>"

text \<open>
  \<open>ui_gfx_count_devices\<close>, "count the gfx sets in each device":
  \<^verbatim>\<open>while (count < MAX_GFX_ELEMENTS && interface.gfx(count) != nullptr) count++;\<close>
\<close>

function count_gfx_sets :: "device_gfx_interface \<Rightarrow> nat \<Rightarrow> nat" where
  "count_gfx_sets interface count =
     (if count < MAX_GFX_ELEMENTS \<and> interface count \<noteq> None
      then count_gfx_sets interface (count + 1) else count)"
  by pat_completeness auto
termination
  by (relation "measure (\<lambda>(i, c). MAX_GFX_ELEMENTS - c)") auto

declare count_gfx_sets.simps [simp del]

text \<open>
  The body of the loop over the slots of one device: the palette and the range of color
  values of the set. A set with no palette of its own takes the current palette device,
  dereferenced without a test, and the quotient by the granularity is unsigned.
  \<open>color_count\<close> is an \<open>int\<close>: the unsigned \<open>colors()\<close> and the unsigned quotient are
  converted when they are stored.
\<close>

definition count_devices_slot ::
  "device_gfx_interface \<Rightarrow> ui_gfx_state \<Rightarrow> nat \<Rightarrow> ui_gfx_info \<Rightarrow> ui_gfx_info option" where
  "count_devices_slot interface state slot info =
     (case interface slot of
        None \<Rightarrow> None
      | Some gfx \<Rightarrow>
          (case gfx_palette gfx of
             Some p \<Rightarrow>
               Some (info\<lparr>info_palette := (info_palette info)(slot := Some p),
                          info_color_count :=
                            (info_color_count info)(slot := to_int32 (int (gfx_colors gfx)))\<rparr>)
           | None \<Rightarrow>
               (case palette_interface state of
                  None \<Rightarrow> None
                | Some p \<Rightarrow>
                    if gfx_granularity gfx = 0 then None
                    else
                      let cc = to_int32 (int (pal_entries p div gfx_granularity gfx));
                          cc' = (if cc = 0 then 1 else cc)
                      in Some (info\<lparr>info_palette := (info_palette info)(slot := palette_interface state),
                                    info_color_count := (info_color_count info)(slot := cc')\<rparr>))))"

text \<open>\<open>for (uint8_t slot = 0; slot != count; slot++)\<close>\<close>

fun count_devices_slots ::
  "device_gfx_interface \<Rightarrow> ui_gfx_state \<Rightarrow> nat list \<Rightarrow> ui_gfx_info \<Rightarrow> ui_gfx_info option" where
  "count_devices_slots interface state [] info = Some info"
| "count_devices_slots interface state (slot # slots) info =
     (case count_devices_slot interface state slot info of
        None \<Rightarrow> None
      | Some info' \<Rightarrow> count_devices_slots interface state slots info')"

text \<open>
  The loop over the graphics devices, "skipping devices with none"; it is left when
  \<open>MAX_GFX_DECODERS\<close> devices are recorded.
\<close>

fun count_devices_loop ::
  "device_gfx_interface list \<Rightarrow> ui_gfx_state \<Rightarrow> ui_gfx_state option" where
  "count_devices_loop [] state = Some state"
| "count_devices_loop (interface # rest) state =
     (let count = count_gfx_sets interface 0 in
      if count > 0 then
        (let d = gfxset_devcount state;
             info = (gfxdev state d)\<lparr>info_interface := Some interface, info_setcount := count\<rparr>
         in case count_devices_slots interface state [0..<count] info of
              None \<Rightarrow> None
            | Some info' \<Rightarrow>
                (let state' = state\<lparr>gfxdev := (gfxdev state)(d := info'), gfxset_devcount := d + 1\<rparr>
                 in if d + 1 = MAX_GFX_DECODERS then Some state'
                    else count_devices_loop rest state'))
      else count_devices_loop rest state)"

text \<open>\<open>ui_gfx_count_devices\<close>\<close>

definition ui_gfx_count_devices :: "running_machine \<Rightarrow> ui_gfx_state \<Rightarrow> ui_gfx_state option" where
  "ui_gfx_count_devices machine state =
     (let s1 = state\<lparr>palette_devcount := int (length (palette_devices machine))\<rparr>;
          s2 = (if palette_devcount s1 > 0 then palette_set_device machine s1 else s1);
          s3 = s2\<lparr>gfxset_devcount := 0\<rparr>
      in case count_devices_loop (gfx_devices machine) s3 of
           None \<Rightarrow> None
         | Some s4 \<Rightarrow> Some (s4\<lparr>started := True\<rparr>))"

subsection \<open>Palette viewer: the keys\<close>










subsection \<open>Graphics viewer: fitting the columns to the cell box\<close>

text \<open>
  \<open>gfxset_handler\<close>, the loop "compute the largest pixel scale factor that still fits":
  \<^verbatim>\<open>while (xcells > 1) { pixelscale = (cellboxwidth / xcells) / cellxpix;
                        if (pixelscale != 0) break; xcells--; }\<close>
  The result is the pair of \<open>xcells\<close> and \<open>pixelscale\<close> when the loop is left.
\<close>

function gfxset_shrink_columns :: "int \<Rightarrow> int \<Rightarrow> int \<Rightarrow> int \<Rightarrow> int \<times> int" where
  "gfxset_shrink_columns cellboxwidth cellxpix xcells pixelscale =
     (if xcells > 1 then
        (let pixelscale' = (cellboxwidth sdiv xcells) sdiv cellxpix in
         if pixelscale' \<noteq> 0 then (xcells, pixelscale')
         else gfxset_shrink_columns cellboxwidth cellxpix (xcells - 1) pixelscale')
      else (xcells, pixelscale))"
  by pat_completeness auto
termination
  by (relation "measure (\<lambda>(w, c, x, p). nat x)") auto

declare gfxset_shrink_columns.simps [simp del]

text \<open>
  The loop with its initialisation (\<open>pixelscale = 0\<close>, \<open>xcells = info.columns[set]\<close>) and the
  statement after it, \<open>pixelscale = std::max(1, pixelscale)\<close>.
\<close>

definition gfxset_fit :: "int \<Rightarrow> int \<Rightarrow> int \<Rightarrow> int \<times> int" where
  "gfxset_fit cellboxwidth cellxpix columns =
     (case gfxset_shrink_columns cellboxwidth cellxpix columns 0 of
        (xcells, pixelscale) \<Rightarrow> (xcells, max 1 pixelscale))"

text \<open>
  \<open>gfxset_handler\<close> from "compute the number of source pixels in a cell" to "now determine
  the actual cellbox size", for the cell box in pixels that the float computation above it
  gives. The result is \<open>info\<close> with the column count stored back, and \<open>xcells\<close>,
  \<open>pixelscale\<close>, \<open>ycells\<close>, \<open>cellboxwidth\<close> and \<open>cellboxheight\<close>.
\<close>

definition gfxset_handler_layout ::
  "int \<Rightarrow> int \<Rightarrow> nat \<Rightarrow> gfx_element \<Rightarrow> ui_gfx_info \<Rightarrow> ui_gfx_info \<times> int \<times> int \<times> int \<times> int \<times> int" where
  "gfxset_handler_layout cellboxwidth cellboxheight gset gfx info =
     (let swap = (info_rotate info gset AND ORIENTATION_SWAP_XY \<noteq> 0);
          cellxpix = 1 + int (if swap then gfx_height gfx else gfx_width gfx);
          cellypix = 1 + int (if swap then gfx_width gfx else gfx_height gfx)
      in case gfxset_fit cellboxwidth cellxpix (uint (info_columns info gset)) of
           (xcells, pixelscale) \<Rightarrow>
             (let ycells = cellboxheight sdiv (pixelscale * cellypix)
              in (info\<lparr>info_columns := (info_columns info)(gset := word_of_int xcells)\<rparr>,
                  xcells, pixelscale, ycells,
                  min cellboxwidth (xcells * pixelscale * cellxpix),
                  min cellboxheight (ycells * pixelscale * cellypix))))"

subsection \<open>Graphics viewer: the color keys\<close>

text \<open>
  \<open>gfxset_handle_keys\<close>, "handle color selection (left,right)" and its "clamp within
  range", on the set and device that are current at that point of the function.
\<close>

definition gfxset_set_color :: "ui_gfx_state \<Rightarrow> int \<Rightarrow> ui_gfx_state" where
  "gfxset_set_color state c =
     (let dev = gfxset_devindex state; gset = gfxset_set state; info = gfxdev state dev
      in state\<lparr>gfxdev := (gfxdev state)(dev := info\<lparr>info_color := (info_color info)(gset := c)\<rparr>),
               bitmap_dirty := True\<rparr>)"

definition gfxset_current_color :: "ui_gfx_state \<Rightarrow> int" where
  "gfxset_current_color state =
     info_color (gfxdev state (gfxset_devindex state)) (gfxset_set state)"

definition gfxset_current_color_count :: "ui_gfx_state \<Rightarrow> int" where
  "gfxset_current_color_count state =
     info_color_count (gfxdev state (gfxset_devindex state)) (gfxset_set state)"

definition gfxset_keys_color :: "running_machine \<Rightarrow> ui_gfx_state \<Rightarrow> ui_gfx_state" where
  "gfxset_keys_color machine state =
     (let s1 = (if ui_pressed machine IPT_UI_LEFT
                then gfxset_set_color state (gfxset_current_color state - 1) else state);
          s2 = (if ui_pressed machine IPT_UI_RIGHT
                then gfxset_set_color s1 (gfxset_current_color s1 + 1) else s1);
          s3 = (if gfxset_current_color s2 \<ge> gfxset_current_color_count s2
                then gfxset_set_color s2 (gfxset_current_color_count s2 - 1) else s2)
      in if gfxset_current_color s3 < 0 then gfxset_set_color s3 0 else s3)"

subsection \<open>Graphics viewer: drawing one item\<close>

text \<open>
  \<open>gfxset_draw_item\<close> and \<open>gfxset_draw_save_item\<close>, "compute effective x,y values after
  rotation": the source pixel \<open>(effx, effy)\<close> of the cell pixel \<open>(x, y)\<close>. The two
  functions hold the same statements.
\<close>

definition gfxset_effective_xy :: "gfx_element \<Rightarrow> 8 word \<Rightarrow> int \<times> int \<Rightarrow> int \<times> int" where
  "gfxset_effective_xy gfx rot xy =
     (case xy of (x, y) \<Rightarrow>
        if rot AND ORIENTATION_SWAP_XY = 0 then
          (let effx = (if rot AND ORIENTATION_FLIP_X \<noteq> 0 then int (gfx_width gfx) - 1 - x else x);
               effy = (if rot AND ORIENTATION_FLIP_Y \<noteq> 0 then int (gfx_height gfx) - 1 - y else y)
           in (effx, effy))
        else
          (let effx = (if rot AND ORIENTATION_FLIP_X \<noteq> 0 then int (gfx_height gfx) - 1 - x else x);
               effy = (if rot AND ORIENTATION_FLIP_Y \<noteq> 0 then int (gfx_width gfx) - 1 - y else y)
           in (effy, effx)))"

text \<open>The size of a cell: \<open>width\<close> and \<open>height\<close> of the two functions.\<close>

definition gfxset_cell_width :: "gfx_element \<Rightarrow> 8 word \<Rightarrow> int" where
  "gfxset_cell_width gfx rot =
     int (if rot AND ORIENTATION_SWAP_XY \<noteq> 0 then gfx_height gfx else gfx_width gfx)"

definition gfxset_cell_height :: "gfx_element \<Rightarrow> 8 word \<Rightarrow> int" where
  "gfxset_cell_height gfx rot =
     int (if rot AND ORIENTATION_SWAP_XY \<noteq> 0 then gfx_width gfx else gfx_height gfx)"

text \<open>
  The body of the inner loop: the pixel \<open>0xff000000 | palette[s[effx]]\<close> stored at
  \<open>bitmap.pix(dsty + y, dstx + x)\<close>, with \<open>s = src + effy * gfx.rowbytes()\<close> and
  \<open>palette\<close> the raw entries from \<open>gfx.colorbase() + color * gfx.granularity()\<close>.
\<close>

definition gfxset_draw_pixel ::
  "gfx_element \<Rightarrow> int \<Rightarrow> palette_device \<Rightarrow> int \<Rightarrow> 8 word \<Rightarrow> int \<Rightarrow> int \<Rightarrow> int \<Rightarrow> int \<Rightarrow>
     bitmap_rgb32 \<Rightarrow> bitmap_rgb32" where
  "gfxset_draw_pixel gfx index pal color rot dstx dsty y x bm =
     (case gfxset_effective_xy gfx rot (x, y) of
        (effx, effy) \<Rightarrow>
          (let pen = uint (gfx_get_data gfx index (effy * int (gfx_rowbytes gfx) + effx));
               pixel = 0xff000000 OR
                 pal_entry_list_raw pal
                   (int (gfx_colorbase gfx) + color * int (gfx_granularity gfx) + pen)
           in bm\<lparr>bm_pix := (bm_pix bm)(dsty + y := (bm_pix bm (dsty + y))(dstx + x := pixel))\<rparr>))"

text \<open>\<open>gfxset_draw_item\<close>: the loops over the rows and the columns of the cell.\<close>

definition gfxset_draw_item ::
  "gfx_element \<Rightarrow> int \<Rightarrow> bitmap_rgb32 \<Rightarrow> int \<Rightarrow> int \<Rightarrow> int \<Rightarrow> 8 word \<Rightarrow> palette_device option \<Rightarrow>
     bitmap_rgb32 option" where
  "gfxset_draw_item gfx index bm dstx dsty color rot dpalette =
     (case dpalette of
        None \<Rightarrow> None
      | Some pal \<Rightarrow>
          Some (fold (\<lambda>y. fold (\<lambda>x. gfxset_draw_pixel gfx index pal color rot dstx dsty y x)
                               (map int [0..<nat (gfxset_cell_width gfx rot)]))
                     (map int [0..<nat (gfxset_cell_height gfx rot)]) bm))"

text \<open>\<open>gfxset_draw_save_item\<close> is a copy of \<open>gfxset_draw_item\<close> without the machine.\<close>

definition gfxset_draw_save_item ::
  "gfx_element \<Rightarrow> int \<Rightarrow> bitmap_rgb32 \<Rightarrow> int \<Rightarrow> int \<Rightarrow> int \<Rightarrow> 8 word \<Rightarrow> palette_device option \<Rightarrow>
     bitmap_rgb32 option" where
  "gfxset_draw_save_item gfx index bm dstx dsty color rot dpalette =
     gfxset_draw_item gfx index bm dstx dsty color rot dpalette"

subsection \<open>Graphics viewer: the bitmap of the view\<close>

text \<open>
  Modelled from the spec: \<open>bitmap.fill(0, cellbounds)\<close> is a member of the bitmap class:
  the cells with no data are replaced "with fully-transparent fill". The rectangle is
  given by its inclusive bounds.
\<close>

definition bitmap_fill0 :: "int \<Rightarrow> int \<Rightarrow> int \<Rightarrow> int \<Rightarrow> bitmap_rgb32 \<Rightarrow> bitmap_rgb32" where
  "bitmap_fill0 min_x max_x min_y max_y bm =
     bm\<lparr>bm_pix := (\<lambda>y x. if min_y \<le> y \<and> y \<le> max_y \<and> min_x \<le> x \<and> x \<le> max_x
                           \<and> 0 \<le> y \<and> y < bm_height bm \<and> 0 \<le> x \<and> x < bm_width bm
                         then 0 else bm_pix bm y x)\<rparr>"

text \<open>A \<open>for\<close> loop whose body may not return.\<close>

fun for_each :: "('a \<Rightarrow> 's \<Rightarrow> 's option) \<Rightarrow> 'a list \<Rightarrow> 's \<Rightarrow> 's option" where
  "for_each body [] s = Some s"
| "for_each body (i # is) s =
     (case body i s of None \<Rightarrow> None | Some s' \<Rightarrow> for_each body is s')"

text \<open>
  "loop over rows" of \<open>gfxset_update_bitmap\<close> and of \<open>gfxset_update_save_bitmap\<close>, which
  differ in the size of a cell (\<open>cellxpix\<close>, \<open>cellypix\<close>) only: one cell, and one row.
  \<open>gfx.elements()\<close> is unsigned, and so are the two comparisons with it.
\<close>

definition gfxset_draw_cell ::
  "ui_gfx_info \<Rightarrow> nat \<Rightarrow> gfx_element \<Rightarrow> int \<Rightarrow> int \<Rightarrow> int \<Rightarrow> int \<Rightarrow> int \<Rightarrow>
     bitmap_rgb32 \<Rightarrow> bitmap_rgb32 option" where
  "gfxset_draw_cell info gset gfx cellxpix cellypix xcells y x bm =
     (let index = info_offset info gset + y * xcells + x in
      if to_uint32 index < int (gfx_elements gfx)
      then gfxset_draw_item gfx index bm (x * cellxpix) (y * cellypix)
             (info_color info gset) (info_rotate info gset) (info_palette info gset)
      else Some (bitmap_fill0 (x * cellxpix) ((x + 1) * cellxpix - 1)
                   (y * cellypix) ((y + 1) * cellypix - 1) bm))"

definition gfxset_draw_row ::
  "ui_gfx_info \<Rightarrow> nat \<Rightarrow> gfx_element \<Rightarrow> int \<Rightarrow> int \<Rightarrow> int \<Rightarrow> int \<Rightarrow>
     bitmap_rgb32 \<Rightarrow> bitmap_rgb32 option" where
  "gfxset_draw_row info gset gfx cellxpix cellypix xcells y bm =
     (if to_uint32 (info_offset info gset + y * xcells) < int (gfx_elements gfx)
      then for_each (gfxset_draw_cell info gset gfx cellxpix cellypix xcells y)
             (map int [0..<nat xcells]) bm
      else Some (bitmap_fill0 0 (bm_width bm - 1) (y * cellypix) ((y + 1) * cellypix - 1) bm))"

definition gfxset_draw_rows ::
  "ui_gfx_info \<Rightarrow> nat \<Rightarrow> gfx_element \<Rightarrow> int \<Rightarrow> int \<Rightarrow> int \<Rightarrow> int \<Rightarrow>
     bitmap_rgb32 \<Rightarrow> bitmap_rgb32 option" where
  "gfxset_draw_rows info gset gfx cellxpix cellypix xcells ycells bm =
     for_each (gfxset_draw_row info gset gfx cellxpix cellypix xcells)
       (map int [0..<nat ycells]) bm"

text \<open>
  Modelled from the spec: the render manager belongs to the host. \<open>texture_alloc\<close>
  "allocates" a new display handle; the model counts the handles given out and the
  uploads (\<open>set_bitmap\<close>), and numbers a handle by the count when it was given out.
\<close>

record render_manager =
  rm_texture_allocs :: nat
  rm_set_bitmaps :: nat

text \<open>
  \<open>gfxset_update_bitmap\<close>, "realloc the bitmap if it is too small". \<open>allocate w h\<close> is the
  bitmap that \<open>bitmap.allocate(w, h)\<close> leaves, a member of the bitmap class.
\<close>

definition gfxset_update_bitmap_realloc ::
  "(int \<Rightarrow> int \<Rightarrow> bitmap_rgb32) \<Rightarrow> render_manager \<times> ui_gfx_state \<Rightarrow> int \<Rightarrow> int \<Rightarrow> gfx_element \<Rightarrow>
     render_manager \<times> ui_gfx_state" where
  "gfxset_update_bitmap_realloc allocate rs xcells ycells gfx =
     (case rs of (render, state) \<Rightarrow>
        let info = gfxdev state (gfxset_devindex state);
            rot = info_rotate info (gfxset_set state);
            cellxpix = 1 + gfxset_cell_width gfx rot;
            cellypix = 1 + gfxset_cell_height gfx rot
        in if \<not> bm_valid (bitmap state) \<or> texture state = None
              \<or> bm_width (bitmap state) \<noteq> cellxpix * xcells
              \<or> bm_height (bitmap state) \<noteq> cellypix * ycells
           then (render\<lparr>rm_texture_allocs := rm_texture_allocs render + 1,
                        rm_set_bitmaps := rm_set_bitmaps render + 1\<rparr>,
                 state\<lparr>bitmap := allocate (cellxpix * xcells) (cellypix * ycells),
                       texture := Some (rm_texture_allocs render),
                       bitmap_dirty := True\<rparr>)
           else (render, state))"

text \<open>\<open>gfxset_update_bitmap\<close>, "handle the redraw".\<close>

definition gfxset_update_bitmap_redraw ::
  "render_manager \<times> ui_gfx_state \<Rightarrow> int \<Rightarrow> int \<Rightarrow> gfx_element \<Rightarrow>
     (render_manager \<times> ui_gfx_state) option" where
  "gfxset_update_bitmap_redraw rs xcells ycells gfx =
     (case rs of (render, state) \<Rightarrow>
        if bitmap_dirty state then
          (let gset = gfxset_set state;
               info = gfxdev state (gfxset_devindex state);
               rot = info_rotate info gset;
               cellxpix = 1 + gfxset_cell_width gfx rot;
               cellypix = 1 + gfxset_cell_height gfx rot
           in case gfxset_draw_rows info gset gfx cellxpix cellypix xcells ycells (bitmap state) of
                None \<Rightarrow> None
              | Some bm \<Rightarrow>
                  Some (render\<lparr>rm_set_bitmaps := rm_set_bitmaps render + 1\<rparr>,
                        state\<lparr>bitmap := bm, bitmap_dirty := False\<rparr>))
        else Some (render, state))"

definition gfxset_update_bitmap ::
  "(int \<Rightarrow> int \<Rightarrow> bitmap_rgb32) \<Rightarrow> render_manager \<times> ui_gfx_state \<Rightarrow> int \<Rightarrow> int \<Rightarrow> gfx_element \<Rightarrow>
     (render_manager \<times> ui_gfx_state) option" where
  "gfxset_update_bitmap allocate rs xcells ycells gfx =
     gfxset_update_bitmap_redraw
       (gfxset_update_bitmap_realloc allocate rs xcells ycells gfx) xcells ycells gfx"

text \<open>
  \<open>gfxset_update_save_bitmap\<close>: the bitmap of the caller is reset, allocated and drawn;
  a cell has no border (\<open>cellxpix\<close> is the width of the cell).
\<close>

definition gfxset_update_save_bitmap ::
  "(int \<Rightarrow> int \<Rightarrow> bitmap_rgb32) \<Rightarrow> ui_gfx_state \<Rightarrow> int \<Rightarrow> int \<Rightarrow> gfx_element \<Rightarrow>
     bitmap_rgb32 option" where
  "gfxset_update_save_bitmap allocate state xcells ycells gfx =
     (let gset = gfxset_set state;
          info = gfxdev state (gfxset_devindex state);
          rot = info_rotate info gset;
          cellxpix = gfxset_cell_width gfx rot;
          cellypix = gfxset_cell_height gfx rot
      in gfxset_draw_rows info gset gfx cellxpix cellypix xcells ycells
           (allocate (cellxpix * xcells) (cellypix * ycells)))"

subsection \<open>Tilemap viewer: the keys\<close>

text \<open>\<open>tilemap_handle_keys\<close>, "handle tilemap selection (open bracket,close bracket)".\<close>

definition tilemap_keys_select :: "running_machine \<Rightarrow> ui_gfx_state \<Rightarrow> ui_gfx_state" where
  "tilemap_keys_select machine state =
     (let s1 = (if ui_pressed machine IPT_UI_PREV_GROUP \<and> tilemap_which state > 0
                then state\<lparr>tilemap_which := tilemap_which state - 1, bitmap_dirty := True\<rparr>
                else state)
      in if ui_pressed machine IPT_UI_NEXT_GROUP
            \<and> tilemap_which s1 < int (length (tilemaps machine)) - 1
         then s1\<lparr>tilemap_which := tilemap_which s1 + 1, bitmap_dirty := True\<rparr>
         else s1)"

text \<open>"handle zoom (minus,plus)"; the messages popped up are not part of the state.\<close>

definition tilemap_keys_zoom :: "running_machine \<Rightarrow> ui_gfx_state \<Rightarrow> ui_gfx_state" where
  "tilemap_keys_zoom machine state =
     (let s1 = (if ui_pressed machine IPT_UI_ZOOM_OUT \<and> tilemap_zoom state > 0
                then state\<lparr>tilemap_zoom := tilemap_zoom state - 1, bitmap_dirty := True\<rparr>
                else state)
      in if ui_pressed machine IPT_UI_ZOOM_IN \<and> tilemap_zoom s1 < 8
         then s1\<lparr>tilemap_zoom := tilemap_zoom s1 + 1, bitmap_dirty := True\<rparr>
         else s1)"

text \<open>"handle rotation (R)" and "return to (0,0) (HOME)"\<close>

definition tilemap_keys_rotate :: "running_machine \<Rightarrow> ui_gfx_state \<Rightarrow> ui_gfx_state" where
  "tilemap_keys_rotate machine state =
     (if ui_pressed machine IPT_UI_ROTATE
      then state\<lparr>tilemap_rotate := orientation_add_ROT90 (tilemap_rotate state),
                 bitmap_dirty := True\<rparr>
      else state)"

definition tilemap_keys_home :: "running_machine \<Rightarrow> ui_gfx_state \<Rightarrow> ui_gfx_state" where
  "tilemap_keys_home machine state =
     (if ui_pressed machine IPT_UI_HOME
      then state\<lparr>tilemap_xoffs := 0, tilemap_yoffs := 0, bitmap_dirty := True\<rparr>
      else state)"

text \<open>"handle flags (category)"\<close>

definition tilemap_keys_category :: "running_machine \<Rightarrow> ui_gfx_state \<Rightarrow> ui_gfx_state" where
  "tilemap_keys_category machine state =
     (let s1 = (if ui_pressed machine IPT_UI_PAGE_UP
                   \<and> tilemap_flags state \<noteq> TILEMAP_DRAW_ALL_CATEGORIES
                then (if tilemap_flags state > 0
                      then state\<lparr>tilemap_flags := tilemap_flags state - 1, bitmap_dirty := True\<rparr>
                      else state\<lparr>tilemap_flags := TILEMAP_DRAW_ALL_CATEGORIES,
                                 bitmap_dirty := True\<rparr>)
                else state)
      in if ui_pressed machine IPT_UI_PAGE_DOWN
            \<and> (tilemap_flags s1 < TILEMAP_DRAW_CATEGORY_MASK
                \<or> tilemap_flags s1 = TILEMAP_DRAW_ALL_CATEGORIES)
         then (if tilemap_flags s1 = TILEMAP_DRAW_ALL_CATEGORIES
               then s1\<lparr>tilemap_flags := 0, bitmap_dirty := True\<rparr>
               else s1\<lparr>tilemap_flags := tilemap_flags s1 + 1, bitmap_dirty := True\<rparr>)
         else s1)"

text \<open>
  "handle navigation (up,down,left,right), taking orientation into account":
  the step, and the four keys. \<open>xoffs\<close> and \<open>yoffs\<close> are \<open>int\<close>s, and \<open>+=\<close> and \<open>-=\<close>
  leave what the \<open>int\<close> holds.
\<close>

definition tilemap_keys_step :: "running_machine \<Rightarrow> int" where
  "tilemap_keys_step machine =
     (let step = 8;
          step = (if code_pressed machine KEYCODE_LSHIFT then 1 else step)
      in if code_pressed machine KEYCODE_LCONTROL then 64 else step)"

definition tilemap_keys_navigate :: "running_machine \<Rightarrow> ui_gfx_state \<Rightarrow> ui_gfx_state" where
  "tilemap_keys_navigate machine state =
     (let step = tilemap_keys_step machine;
          swap = (\<lambda>s. tilemap_rotate s AND ORIENTATION_SWAP_XY \<noteq> 0);
          dy = (\<lambda>s. if tilemap_rotate s AND ORIENTATION_FLIP_Y \<noteq> 0 then - step else step);
          dx = (\<lambda>s. if tilemap_rotate s AND ORIENTATION_FLIP_X \<noteq> 0 then - step else step);
          s1 = (if ui_pressed machine IPT_UI_UP then
                  (if swap state
                   then state\<lparr>tilemap_xoffs := to_int32 (tilemap_xoffs state - dy state),
                              bitmap_dirty := True\<rparr>
                   else state\<lparr>tilemap_yoffs := to_int32 (tilemap_yoffs state - dy state),
                              bitmap_dirty := True\<rparr>)
                else state);
          s2 = (if ui_pressed machine IPT_UI_DOWN then
                  (if swap s1
                   then s1\<lparr>tilemap_xoffs := to_int32 (tilemap_xoffs s1 + dy s1),
                           bitmap_dirty := True\<rparr>
                   else s1\<lparr>tilemap_yoffs := to_int32 (tilemap_yoffs s1 + dy s1),
                           bitmap_dirty := True\<rparr>)
                else s1);
          s3 = (if ui_pressed machine IPT_UI_LEFT then
                  (if swap s2
                   then s2\<lparr>tilemap_yoffs := to_int32 (tilemap_yoffs s2 - dx s2),
                           bitmap_dirty := True\<rparr>
                   else s2\<lparr>tilemap_xoffs := to_int32 (tilemap_xoffs s2 - dx s2),
                           bitmap_dirty := True\<rparr>)
                else s2)
      in if ui_pressed machine IPT_UI_RIGHT then
           (if swap s3
            then s3\<lparr>tilemap_yoffs := to_int32 (tilemap_yoffs s3 + dx s3), bitmap_dirty := True\<rparr>
            else s3\<lparr>tilemap_xoffs := to_int32 (tilemap_xoffs s3 + dx s3), bitmap_dirty := True\<rparr>)
         else s3)"

text \<open>
  "clamp within range": \<^verbatim>\<open>while (xoffs < 0) xoffs += mapwidth;\<close> and
  \<^verbatim>\<open>while (xoffs >= mapwidth) xoffs -= mapwidth;\<close>. The map size is a \<open>uint32_t\<close>:
  the sum and the difference are unsigned and stored into the \<open>int\<close>, and the comparison
  of the second loop is unsigned.
\<close>

partial_function (option) tilemap_wrap_negative :: "int \<Rightarrow> int \<Rightarrow> int option" where
  "tilemap_wrap_negative offs mapsize =
     (if offs < 0 then tilemap_wrap_negative (to_int32 (to_uint32 offs + mapsize)) mapsize
      else Some offs)"

partial_function (option) tilemap_wrap_beyond :: "int \<Rightarrow> int \<Rightarrow> int option" where
  "tilemap_wrap_beyond offs mapsize =
     (if to_uint32 offs \<ge> mapsize
      then tilemap_wrap_beyond (to_int32 (to_uint32 offs - mapsize)) mapsize
      else Some offs)"

declare tilemap_wrap_negative.simps [code]
declare tilemap_wrap_beyond.simps [code]

definition tilemap_keys_wrap :: "int \<Rightarrow> int \<Rightarrow> ui_gfx_state \<Rightarrow> ui_gfx_state option" where
  "tilemap_keys_wrap mapwidth mapheight state =
     do {
       x1 \<leftarrow> tilemap_wrap_negative (tilemap_xoffs state) mapwidth;
       x2 \<leftarrow> tilemap_wrap_beyond x1 mapwidth;
       y1 \<leftarrow> tilemap_wrap_negative (tilemap_yoffs state) mapheight;
       y2 \<leftarrow> tilemap_wrap_beyond y1 mapheight;
       Some (state\<lparr>tilemap_xoffs := x2, tilemap_yoffs := y2\<rparr>)
     }"

text \<open>\<open>tilemap_handle_keys\<close>; \<open>viswidth\<close> and \<open>visheight\<close> are not used by the source.\<close>

definition tilemap_handle_keys :: "running_machine \<Rightarrow> ui_gfx_state \<Rightarrow> ui_gfx_state option" where
  "tilemap_handle_keys machine state =
     do {
       let s1 = tilemap_keys_select machine state;
       tilemap \<leftarrow> byindex (tilemaps machine) (tilemap_which s1);
       let mapwidth = int (tmap_width tilemap);
       let mapheight = int (tmap_height tilemap);
       let s2 = tilemap_keys_zoom machine s1;
       let s3 = tilemap_keys_rotate machine s2;
       let s4 = tilemap_keys_home machine s3;
       let s5 = tilemap_keys_category machine s4;
       let s6 = tilemap_keys_navigate machine s5;
       s7 \<leftarrow> tilemap_keys_wrap mapwidth mapheight s6;
       Some (if ui_pressed machine IPT_UI_SNAPSHOT then s7\<lparr>save := True\<rparr> else s7)
     }"

text \<open>The same keys held for \<open>n\<close> frames.\<close>

fun tilemap_handle_keys_times ::
  "nat \<Rightarrow> running_machine \<Rightarrow> ui_gfx_state \<Rightarrow> ui_gfx_state option" where
  "tilemap_handle_keys_times 0 machine state = Some state"
| "tilemap_handle_keys_times (Suc n) machine state =
     (case tilemap_handle_keys machine state of
        None \<Rightarrow> None
      | Some state' \<Rightarrow> tilemap_handle_keys_times n machine state')"

subsection \<open>Tilemap viewer: the bitmap of the view\<close>

text \<open>\<open>tilemap_update_bitmap\<close>, "swap the coordinates back" and "realloc the bitmap if it
  is too small".\<close>

definition tilemap_update_bitmap_realloc ::
  "(int \<Rightarrow> int \<Rightarrow> bitmap_rgb32) \<Rightarrow> render_manager \<times> ui_gfx_state \<Rightarrow> int \<Rightarrow> int \<Rightarrow>
     render_manager \<times> ui_gfx_state" where
  "tilemap_update_bitmap_realloc allocate rs width0 height0 =
     (case rs of (render, state) \<Rightarrow>
        let swap = (tilemap_rotate state AND ORIENTATION_SWAP_XY \<noteq> 0);
            width = (if swap then height0 else width0);
            height = (if swap then width0 else height0)
        in if \<not> bm_valid (bitmap state) \<or> texture state = None
              \<or> bm_width (bitmap state) \<noteq> width \<or> bm_height (bitmap state) \<noteq> height
           then (render\<lparr>rm_texture_allocs := rm_texture_allocs render + 1,
                        rm_set_bitmaps := rm_set_bitmaps render + 1\<rparr>,
                 state\<lparr>bitmap := allocate width height,
                       texture := Some (rm_texture_allocs render),
                       bitmap_dirty := True\<rparr>)
           else (render, state))"

subsection \<open>Formatted output\<close>

text \<open>\<open>%d\<close>, \<open>%X\<close> and \<open>%04d\<close> of \<open>sprintf\<close>, for the values the viewer prints.\<close>

definition digit_char :: "nat \<Rightarrow> char" where
  "digit_char d = ''0123456789ABCDEF'' ! d"

function digits_of :: "nat \<Rightarrow> nat \<Rightarrow> string" where
  "digits_of b n =
     (if b < 2 \<or> n < b then [digit_char n] else digits_of b (n div b) @ [digit_char (n mod b)])"
  by pat_completeness auto
termination
  by (relation "measure (\<lambda>(b, n). n)") auto

declare digits_of.simps [simp del]

definition fmt_d :: "int \<Rightarrow> string" where
  "fmt_d i = (if i < 0 then CHR ''-'' # digits_of 10 (nat (- i)) else digits_of 10 (nat i))"

definition fmt_X :: "int \<Rightarrow> string" where
  "fmt_X i = digits_of 16 (nat (i mod 2 ^ 32))"

definition fmt_04d :: "int \<Rightarrow> string" where
  "fmt_04d i =
     (if i < 0 then CHR ''-'' # replicate (3 - length (digits_of 10 (nat (- i)))) CHR ''0''
                     @ digits_of 10 (nat (- i))
      else replicate (4 - length (digits_of 10 (nat i))) CHR ''0'' @ digits_of 10 (nat i))"

definition newline :: string where
  "newline = [CHR 0x0A]"


subsection \<open>Saving: what an export does to the outside\<close>

text \<open>
  An export opens files through \<open>open_next_file\<close>, writes text lines and images, and
  prints through \<open>osd_printf_error\<close>. The model records these calls in the order of the
  run: the base name, the extension and the success of each \<open>open_next_file\<close>; each line
  put to a text file; the width, the height and the number of palette entries of each
  bitmap handed to the PNG writer, and whether the writer succeeded; each line printed.

  The export functions take the file opener as a parameter \<open>onf\<close> with the host file
  system \<open>'fs\<close> threaded through it, so that \<open>open_next_file\<close> below, or a collaborator
  that fails for one file name, can be put in its place. \<open>None\<close> is an opener that does
  not return. They take the PNG writer of the host as a parameter \<open>png\<close>: the error, if
  any, with which \<open>png_write_bitmap\<close> ends on the file just opened.
\<close>

datatype export_event =
    Opened string string bool
  | Puts string
  | Png_write int int int bool
  | Printf string

type_synonym 'fs opener = "'fs \<Rightarrow> string \<Rightarrow> string \<Rightarrow> (bool \<times> 'fs) option"

type_synonym 'fs png_writer = "'fs \<Rightarrow> int option"

type_synonym 'fs export = "ui_gfx_state \<times> 'fs \<times> export_event list"

text \<open>
  \<open>gfxset_save_snapshot\<close> and \<open>gfxset_save_snapshot_ind16\<close>: the bitmap is written, and
  an error of the writer is printed.
\<close>

definition gfxset_save_snapshot ::
  "'fs png_writer \<Rightarrow> 'fs \<Rightarrow> int \<Rightarrow> int \<Rightarrow> int \<Rightarrow> export_event list" where
  "gfxset_save_snapshot png fs w h entries =
     (case png fs of
        None \<Rightarrow> [Png_write w h entries True]
      | Some error \<Rightarrow>
          [Png_write w h entries False,
           Printf (''Error generating PNG for snapshot: png_error = '' @ fmt_d error @ newline)])"

subsection \<open>Saving the graphics sets\<close>

text \<open>\<open>sprintf(filename, "gfxset%d tiles %dx%d colors %d set %X", ...)\<close>; the unsigned
  \<open>colors()\<close> and \<open>elements()\<close> are printed with \<open>%d\<close>.\<close>

definition gfxset_save_filename :: "nat \<Rightarrow> gfx_element \<Rightarrow> int \<Rightarrow> string" where
  "gfxset_save_filename gset gfx color =
     ''gfxset'' @ fmt_d (int gset) @ '' tiles '' @ fmt_d (int (gfx_width gfx)) @ ''x''
       @ fmt_d (int (gfx_height gfx)) @ '' colors '' @ fmt_d (to_int32 (int (gfx_colors gfx)))
       @ '' set '' @ fmt_X color"

definition gfxset_saved_message :: "nat \<Rightarrow> nat \<Rightarrow> gfx_element \<Rightarrow> int \<Rightarrow> string" where
  "gfxset_saved_message gset setcount gfx color =
     ''Saved gfxset '' @ fmt_d (int gset + 1) @ '' of '' @ fmt_d (int setcount)
       @ '' colours '' @ fmt_d (to_int32 (int (gfx_colors gfx))) @ '' set '' @ fmt_d color
       @ '', '' @ fmt_d (int (gfx_width gfx)) @ ''x'' @ fmt_d (int (gfx_height gfx))
       @ '' tiles '' @ fmt_d (to_int32 (int (gfx_elements gfx))) @ '' items'' @ newline"

text \<open>
  \<open>gfxset_handle_save\<close>, the body of the loop over the colors of one set. \<open>dev\<close> is the
  device index read when the function is entered, and \<open>info\<close> of the source is
  \<open>state.gfxdev[dev]\<close>.
\<close>

definition gfxset_handle_save_color ::
  "'fs opener \<Rightarrow> 'fs png_writer \<Rightarrow> (int \<Rightarrow> int \<Rightarrow> bitmap_rgb32) \<Rightarrow> running_machine \<Rightarrow> nat \<Rightarrow>
     nat \<Rightarrow> gfx_element \<Rightarrow> int \<Rightarrow> int \<Rightarrow> int \<Rightarrow> int \<Rightarrow> 'fs export \<Rightarrow> 'fs export option" where
  "gfxset_handle_save_color onf png allocate machine dev gset gfx xcells ycells num_colors color ex =
     (case ex of (state, fs, log) \<Rightarrow>
        do {
          let info = gfxdev state dev;
          let s1 = state\<lparr>gfxset_set := gset,
                         gfxdev := (gfxdev state)
                           (dev := info\<lparr>info_color := (info_color info)(gset := color)\<rparr>)\<rparr>;
          bm \<leftarrow> gfxset_update_save_bitmap allocate s1 xcells ycells gfx;
          let s2 = palette_set_device machine (s1\<lparr>palette_which := 0, palette_devindex := 0\<rparr>);
          let filename = gfxset_save_filename gset gfx color;
          r \<leftarrow> onf fs filename ''png'';
          Some (s2, snd r,
                log @ [Opened filename ''png'' (fst r)]
                    @ (if fst r
                       then gfxset_save_snapshot png (snd r) (bm_width bm) (bm_height bm) num_colors
                            @ [Printf (gfxset_saved_message gset (info_setcount (gfxdev s2 dev))
                                         gfx color)]
                       else []))
        })"

text \<open>
  The body of the loop over the sets. \<open>ycells\<close> is an unsigned quotient and \<open>maxcolors\<close>
  the unsigned \<open>colors()\<close>, both stored into an \<open>int\<close>; so is \<open>num_colors\<close>.
\<close>

definition gfxset_handle_save_set ::
  "'fs opener \<Rightarrow> 'fs png_writer \<Rightarrow> (int \<Rightarrow> int \<Rightarrow> bitmap_rgb32) \<Rightarrow> running_machine \<Rightarrow> nat \<Rightarrow>
     device_gfx_interface \<Rightarrow> nat \<Rightarrow> 'fs export \<Rightarrow> 'fs export option" where
  "gfxset_handle_save_set onf png allocate machine dev interface gset ex =
     (case ex of (state, fs, log) \<Rightarrow>
        do {
          gfx \<leftarrow> interface gset;
          let xcells = 32;
          let ycells = to_int32 (to_uint32 (int (gfx_elements gfx) + xcells - 1) div xcells);
          let maxcolors = (if to_int32 (int (gfx_colors gfx)) > 32 then 32
                           else to_int32 (int (gfx_colors gfx)));
          pal \<leftarrow> gfx_palette gfx;
          let s1 = (if pal_indirect_entries pal > 0 then state\<lparr>palette_which := 1\<rparr> else state);
          let num_colors = to_int32 (if palette_which s1 \<noteq> 0 then int (pal_indirect_entries pal)
                                     else int (pal_entries pal));
          for_each
            (gfxset_handle_save_color onf png allocate machine dev gset gfx xcells ycells num_colors)
            (map int [0..<nat maxcolors]) (s1, fs, log)
        })"

text \<open>\<open>gfxset_handle_save\<close>\<close>

definition gfxset_handle_save ::
  "'fs opener \<Rightarrow> 'fs png_writer \<Rightarrow> (int \<Rightarrow> int \<Rightarrow> bitmap_rgb32) \<Rightarrow> running_machine \<Rightarrow>
     'fs export \<Rightarrow> 'fs export option" where
  "gfxset_handle_save onf png allocate machine ex =
     (case ex of (state, fs, log) \<Rightarrow>
        do {
          let dev = gfxset_devindex state;
          interface \<leftarrow> info_interface (gfxdev state dev);
          r \<leftarrow> for_each (gfxset_handle_save_set onf png allocate machine dev interface)
                 [0..<info_setcount (gfxdev state dev)] (state, fs, log);
          Some (fst r, fst (snd r), snd (snd r) @ [Printf (''Finished saving gfxsets'' @ newline)])
        })"

subsection \<open>Saving the tilemaps\<close>






subsection \<open>Saving the palettes\<close>










subsection \<open>The name of the next file\<close>

text \<open>
  \<open>std::string\<close> as the function uses it: \<open>find(sub, pos)\<close>, \<open>find_last_of(c)\<close>,
  \<open>erase(pos, n)\<close>; \<open>None\<close> of the first two is \<open>npos\<close>, as \<open>-1\<close> in the source, and
  \<open>erase\<close> raises when \<open>pos\<close> is beyond the end.
\<close>

definition occurs_at :: "string \<Rightarrow> string \<Rightarrow> nat \<Rightarrow> bool" where
  "occurs_at str sub i = (i + length sub \<le> length str \<and> take (length sub) (drop i str) = sub)"

definition str_find :: "string \<Rightarrow> string \<Rightarrow> nat \<Rightarrow> nat option" where
  "str_find str sub pos = List.find (occurs_at str sub) [pos..<Suc (length str)]"

definition find_last_of :: "string \<Rightarrow> char \<Rightarrow> nat option" where
  "find_last_of str c = List.find (\<lambda>i. str ! i = c) (rev [0..<length str])"

definition str_erase :: "string \<Rightarrow> nat \<Rightarrow> nat \<Rightarrow> string option" where
  "str_erase str pos n = (if pos > length str then None else Some (take pos str @ drop (pos + n) str))"

text \<open>
  Modelled from the spec: \<open>strreplace\<close> belongs to the core string library, outside the
  viewer's file. The "substitution" of the naming template replaces every occurrence of
  the search string from left to right, the search going on behind the text put in.
\<close>

partial_function (option) strreplace_from :: "string \<Rightarrow> string \<Rightarrow> string \<Rightarrow> nat \<Rightarrow> string option" where
  "strreplace_from str search replace curindex =
     (case str_find str search curindex of
        None \<Rightarrow> Some str
      | Some cur \<Rightarrow>
          strreplace_from (take cur str @ replace @ drop (cur + length search) str)
            search replace (cur + length replace))"

declare strreplace_from.simps [code]

definition strreplace :: "string \<Rightarrow> string \<Rightarrow> string \<Rightarrow> string option" where
  "strreplace str search replace = strreplace_from str search replace 0"

text \<open>"strip any extension in the provided name", also of the base name of an image.\<close>

definition strip_extension :: "string \<Rightarrow> string" where
  "strip_extension str = (case find_last_of str CHR ''.'' of None \<Rightarrow> str | Some index \<Rightarrow> take index str)"

text \<open>
  \<open>open_next_file\<close>, the loop over the image devices: the body, on \<open>snapstr\<close> and
  \<open>name_found\<close>.
\<close>

definition snapshot_template_image ::
  "string \<Rightarrow> nat \<Rightarrow> string \<times> string option \<Rightarrow> string \<times> bool \<Rightarrow> (string \<times> bool) option" where
  "snapshot_template_image snapdevname pos img sf =
     (case sf of (snapstr, name_found) \<Rightarrow>
        if snapdevname = fst img then
          (case snd img of
             None \<Rightarrow> Some (snapstr, name_found)
           | Some basename \<Rightarrow>
               do {
                 let filename = strip_extension basename;
                 s1 \<leftarrow> strreplace snapstr snapdevname filename;
                 s2 \<leftarrow> str_erase s1 pos 3;
                 Some (s2, True)
               })
        else Some (snapstr, name_found))"

text \<open>
  \<open>open_next_file\<close> from "handle defaults" to "or fallback to default": the template
  before the extension is added. \<open>fatalerror\<close> does not return.
\<close>

definition snapshot_template :: "running_machine \<Rightarrow> string option" where
  "snapshot_template machine =
     (let snapname = (case snap_name machine of
                        None \<Rightarrow> ''%g/%i''
                      | Some n \<Rightarrow> if n = [] then ''%g/%i'' else n);
          snapstr = strip_extension snapname
      in case str_find snapstr ''%d_'' 0 of
           None \<Rightarrow> Some snapstr
         | Some pos \<Rightarrow>
             if str_find snapstr ''%d_'' (pos + 3) \<noteq> None then Some ''%g/%i''
             else
               (let end1 = str_find snapstr ''/'' (pos + 3);
                    end2 = str_find snapstr ''%'' (pos + 3);
                    end' = (case (end1, end2) of
                              (Some e1, Some e2) \<Rightarrow> min e1 e2
                            | (Some e1, None) \<Rightarrow> e1
                            | (None, Some e2) \<Rightarrow> e2
                            | (None, None) \<Rightarrow> length snapstr)
                in if int end' - int pos < 3 then None
                   else
                     (let snapdevname = take (end' - pos - 3) (drop (pos + 3) snapstr)
                      in case for_each (snapshot_template_image snapdevname pos)
                                (image_devices machine) (snapstr, False) of
                           None \<Rightarrow> None
                         | Some (snapstr', name_found) \<Rightarrow>
                             Some (if name_found then snapstr' else ''%g/%i''))))"

text \<open>
  "otherwise, we scan for the next available filename": \<open>readable fname\<close> says that
  \<open>file.open(fname)\<close> with \<open>OPEN_FLAG_READ\<close> succeeds.
\<close>

partial_function (option) next_free_name ::
  "(string \<Rightarrow> bool) \<Rightarrow> string \<Rightarrow> string \<Rightarrow> int \<Rightarrow> string option" where
  "next_free_name readable snapstr basename seq =
     Option.bind (strreplace snapstr ''%i'' (basename @ ''_'' @ fmt_04d seq))
       (\<lambda>fname. if readable fname then next_free_name readable snapstr basename (seq + 1)
                 else Some fname)"

declare next_free_name.simps [code]

text \<open>\<open>open_next_file\<close> up to the name of the file that is created at the end.\<close>

definition next_file_name ::
  "(string \<Rightarrow> bool) \<Rightarrow> running_machine \<Rightarrow> string \<Rightarrow> string \<Rightarrow> string option" where
  "next_file_name readable machine basename extension =
     do {
       t \<leftarrow> snapshot_template machine;
       s1 \<leftarrow> strreplace (t @ ''.'' @ extension) ''/'' (PATH_SEPARATOR machine);
       s2 \<leftarrow> strreplace s1 ''%g'' (machine_basename machine);
       if str_find s2 ''%i'' 0 = None then Some s2
       else next_free_name readable s2 basename 0
     }"

text \<open>
  \<open>open_next_file\<close>. Modelled from the spec: the file layer belongs to the host;
  \<open>readable fs fname\<close> is the success of opening \<open>fname\<close> for reading, \<open>create fs fname\<close>
  the success of the final \<open>file.open\<close> with the caller's flags and the file system
  after it.
\<close>

definition open_next_file ::
  "('fs \<Rightarrow> string \<Rightarrow> bool) \<Rightarrow> ('fs \<Rightarrow> string \<Rightarrow> bool \<times> 'fs) \<Rightarrow> running_machine \<Rightarrow> 'fs opener" where
  "open_next_file readable create machine fs basename extension =
     (case next_file_name (readable fs) machine basename extension of
        None \<Rightarrow> None
      | Some fname \<Rightarrow> Some (create fs fname))"

section \<open>Notions and examples used to state the properties\<close>

subsection \<open>Orientation\<close>

text \<open>
  The orientation that undoes \<open>rot\<close>: the same code when the axes are not swapped, and
  the code with the two flips exchanged when they are.
\<close>

definition orientation_reverse :: "8 word \<Rightarrow> 8 word" where
  "orientation_reverse rot =
     (if rot AND ORIENTATION_SWAP_XY = 0 then rot
      else ORIENTATION_SWAP_XY
           OR (if rot AND ORIENTATION_FLIP_Y \<noteq> 0 then ORIENTATION_FLIP_X else 0)
           OR (if rot AND ORIENTATION_FLIP_X \<noteq> 0 then ORIENTATION_FLIP_Y else 0))"

text \<open>The graphic as a cell shows it: its width and height exchanged when the axes are
  swapped.\<close>

definition gfxset_shown :: "gfx_element \<Rightarrow> 8 word \<Rightarrow> gfx_element" where
  "gfxset_shown gfx rot =
     (if rot AND ORIENTATION_SWAP_XY \<noteq> 0
      then gfx\<lparr>gfx_width := gfx_height gfx, gfx_height := gfx_width gfx\<rparr>
      else gfx)"

subsection \<open>Example devices\<close>

definition example_palette :: "nat \<Rightarrow> nat \<Rightarrow> palette_device" where
  "example_palette n k =
     \<lparr> pal_entries = n, pal_indirect_entries = k,
       pal_entry_list_raw = (\<lambda>i. word_of_int i), pal_indirect_color = (\<lambda>i. word_of_int i) \<rparr>"

text \<open>A graphics set of the given width, height, number of elements and number of
  colors, with the given palette of its own.\<close>

definition example_gfx :: "nat \<Rightarrow> nat \<Rightarrow> nat \<Rightarrow> nat \<Rightarrow> palette_device option \<Rightarrow> gfx_element" where
  "example_gfx w h n c p =
     \<lparr> gfx_width = w, gfx_height = h, gfx_elements = n, gfx_rowbytes = w, gfx_colors = c,
       gfx_granularity = 1, gfx_colorbase = 0, gfx_palette = p,
       gfx_get_data = (\<lambda>index offs. 0) \<rparr>"

subsection \<open>Palette viewer\<close>


text \<open>
  The palette selection is in order: the device count is the number of palette devices,
  the device index is within it, and the interface is the device of that index.
\<close>

definition palette_state_ok :: "running_machine \<Rightarrow> ui_gfx_state \<Rightarrow> bool" where
  "palette_state_ok machine state =
     (palette_devcount state = int (length (palette_devices machine))
      \<and> 0 \<le> palette_devindex state
      \<and> palette_devindex state < palette_devcount state
      \<and> palette_interface state = byindex (palette_devices machine) (palette_devindex state))"

text \<open>
  A machine with the given palette devices, graphics devices and tilemaps, no key pressed
  and no snapshot template; and the viewer's state once it has started on a machine whose
  only palette device has \<open>n\<close> entries.
\<close>

definition example_machine :: "palette_device list \<Rightarrow> device_gfx_interface list \<Rightarrow> tilemap_t list \<Rightarrow> running_machine" where
  "example_machine pals gfxs tmaps =
     \<lparr> palette_devices = pals, gfx_devices = gfxs, tilemaps = tmaps,
       ui_pressed = (\<lambda>k. False), code_pressed = (\<lambda>k. False),
       snap_name = None, machine_basename = ''game'', image_devices = [],
       PATH_SEPARATOR = ''/'' \<rparr>"


subsection \<open>The bitmap of the view\<close>

text \<open>The condition of C6: there is no valid bitmap or no texture, or the bitmap is not
  \<open>w\<close> by \<open>h\<close>.\<close>

definition bitmap_mismatch :: "ui_gfx_state \<Rightarrow> int \<Rightarrow> int \<Rightarrow> bool" where
  "bitmap_mismatch state w h =
     (\<not> bm_valid (bitmap state) \<or> texture state = None
      \<or> bm_width (bitmap state) \<noteq> w \<or> bm_height (bitmap state) \<noteq> h)"

text \<open>The allocation of a bitmap \<open>w\<close> by \<open>h\<close> gives a valid bitmap of that size.\<close>

definition allocates_as_asked :: "(int \<Rightarrow> int \<Rightarrow> bitmap_rgb32) \<Rightarrow> int \<Rightarrow> int \<Rightarrow> bool" where
  "allocates_as_asked allocate w h =
     (bm_valid (allocate w h) \<and> bm_width (allocate w h) = w \<and> bm_height (allocate w h) = h)"

text \<open>An allocator that gives a valid, cleared bitmap of the size asked for.\<close>

definition example_allocate :: "int \<Rightarrow> int \<Rightarrow> bitmap_rgb32" where
  "example_allocate w h = \<lparr> bm_valid = True, bm_width = w, bm_height = h, bm_pix = (\<lambda>y x. 0) \<rparr>"

text \<open>An allocator that gives a valid, cleared bitmap of the size asked for when it is
  asked for pixels, and leaves the bitmap invalid and empty when it is asked for none.\<close>

definition example_allocate_pixels :: "int \<Rightarrow> int \<Rightarrow> bitmap_rgb32" where
  "example_allocate_pixels w h =
     (if 0 < w \<and> 0 < h
      then \<lparr> bm_valid = True, bm_width = w, bm_height = h, bm_pix = (\<lambda>y x. 0) \<rparr>
      else \<lparr> bm_valid = False, bm_width = 0, bm_height = 0, bm_pix = (\<lambda>y x. 0) \<rparr>)"

text \<open>The size of the bitmap that \<open>gfxset_update_bitmap\<close> and \<open>tilemap_update_bitmap\<close>
  ask for.\<close>

definition gfxset_bitmap_size :: "ui_gfx_state \<Rightarrow> gfx_element \<Rightarrow> int \<Rightarrow> int \<Rightarrow> int \<times> int" where
  "gfxset_bitmap_size state gfx xcells ycells =
     (let rot = info_rotate (gfxdev state (gfxset_devindex state)) (gfxset_set state)
      in ((1 + gfxset_cell_width gfx rot) * xcells, (1 + gfxset_cell_height gfx rot) * ycells))"

definition tilemap_bitmap_size :: "ui_gfx_state \<Rightarrow> int \<Rightarrow> int \<Rightarrow> int \<times> int" where
  "tilemap_bitmap_size state width height =
     (if tilemap_rotate state AND ORIENTATION_SWAP_XY \<noteq> 0 then (height, width)
      else (width, height))"

text \<open>What a reallocation leaves: a new bitmap and a new texture, one more allocation and
  one more upload counted, and the dirty flag set.\<close>

definition reallocated ::
  "(int \<Rightarrow> int \<Rightarrow> bitmap_rgb32) \<Rightarrow> render_manager \<times> ui_gfx_state \<Rightarrow> int \<times> int \<Rightarrow>
     render_manager \<times> ui_gfx_state" where
  "reallocated allocate rs sz =
     ((fst rs)\<lparr>rm_texture_allocs := rm_texture_allocs (fst rs) + 1,
               rm_set_bitmaps := rm_set_bitmaps (fst rs) + 1\<rparr>,
      (snd rs)\<lparr>bitmap := allocate (fst sz) (snd sz),
               texture := Some (rm_texture_allocs (fst rs)), bitmap_dirty := True\<rparr>)"

subsection \<open>Tilemap viewer\<close>

text \<open>
  The displacement of the pan offsets that the four direction keys of one frame ask for,
  under the orientation \<open>rot\<close>, before the offsets are wrapped.
\<close>

definition tilemap_pan_x :: "running_machine \<Rightarrow> 8 word \<Rightarrow> int" where
  "tilemap_pan_x machine rot =
     (let step = tilemap_keys_step machine;
          swap = (rot AND ORIENTATION_SWAP_XY \<noteq> 0);
          dy = (if rot AND ORIENTATION_FLIP_Y \<noteq> 0 then - step else step);
          dx = (if rot AND ORIENTATION_FLIP_X \<noteq> 0 then - step else step)
      in (if ui_pressed machine IPT_UI_UP \<and> swap then - dy else 0)
         + (if ui_pressed machine IPT_UI_DOWN \<and> swap then dy else 0)
         + (if ui_pressed machine IPT_UI_LEFT \<and> \<not> swap then - dx else 0)
         + (if ui_pressed machine IPT_UI_RIGHT \<and> \<not> swap then dx else 0))"

definition tilemap_pan_y :: "running_machine \<Rightarrow> 8 word \<Rightarrow> int" where
  "tilemap_pan_y machine rot =
     (let step = tilemap_keys_step machine;
          swap = (rot AND ORIENTATION_SWAP_XY \<noteq> 0);
          dy = (if rot AND ORIENTATION_FLIP_Y \<noteq> 0 then - step else step);
          dx = (if rot AND ORIENTATION_FLIP_X \<noteq> 0 then - step else step)
      in (if ui_pressed machine IPT_UI_UP \<and> \<not> swap then - dy else 0)
         + (if ui_pressed machine IPT_UI_DOWN \<and> \<not> swap then dy else 0)
         + (if ui_pressed machine IPT_UI_LEFT \<and> swap then - dx else 0)
         + (if ui_pressed machine IPT_UI_RIGHT \<and> swap then dx else 0))"

text \<open>
  A value that a 32-bit \<open>int\<close> holds; an offset from which a step of 64 either way is
  one too; and the offsets of a state lie within the tilemap.
\<close>

definition is_int32 :: "int \<Rightarrow> bool" where
  "is_int32 x = (- (2 ^ 31) \<le> x \<and> x < 2 ^ 31)"

definition tilemap_pan_safe :: "int \<Rightarrow> bool" where
  "tilemap_pan_safe x = (is_int32 (x - 64) \<and> is_int32 (x + 64))"

definition tilemap_offsets_wrapped :: "tilemap_t \<Rightarrow> ui_gfx_state \<Rightarrow> bool" where
  "tilemap_offsets_wrapped tilemap state =
     (0 \<le> tilemap_xoffs state \<and> tilemap_xoffs state < int (tmap_width tilemap)
      \<and> 0 \<le> tilemap_yoffs state \<and> tilemap_yoffs state < int (tmap_height tilemap))"

text \<open>The machine with one key pressed, the modifier keys as they are.\<close>

definition with_key :: "running_machine \<Rightarrow> ui_key \<Rightarrow> running_machine" where
  "with_key machine key = machine\<lparr>ui_pressed := (\<lambda>k. k = key)\<rparr>"

text \<open>A tilemap of the given size.\<close>

definition example_tilemap :: "nat \<Rightarrow> nat \<Rightarrow> tilemap_t" where
  "example_tilemap w h = \<lparr> tmap_width = w, tmap_height = h, tmap_palette = example_palette 16 0 \<rparr>"

subsection \<open>Graphics sets\<close>

text \<open>
  The range of color values recorded for a set, \<open>current\<close> being the palette device that
  is current. For a set with a palette of its own: the set's count of colors, as the
  \<open>int\<close> that holds it. For a set that takes the palette device: the quotient of the
  entries of the device by the granularity of the set, as the \<open>int\<close> that holds it, and
  1 when that is zero.
\<close>

definition color_count_recorded :: "palette_device option \<Rightarrow> gfx_element \<Rightarrow> int \<Rightarrow> bool" where
  "color_count_recorded current gfx cc =
     (case gfx_palette gfx of
        Some own \<Rightarrow> cc = to_int32 (int (gfx_colors gfx))
      | None \<Rightarrow>
          (case current of
             None \<Rightarrow> False
           | Some p \<Rightarrow>
               gfx_granularity gfx \<noteq> 0
               \<and> cc = (if to_int32 (int (pal_entries p div gfx_granularity gfx)) = 0 then 1
                       else to_int32 (int (pal_entries p div gfx_granularity gfx)))))"

text \<open>A device entry of the viewer is counted: it points to its device, and every set
  below \<open>setcount\<close> exists and has its range of color values recorded.\<close>

definition info_counted :: "palette_device option \<Rightarrow> ui_gfx_info \<Rightarrow> bool" where
  "info_counted current info =
     (\<exists>interface. info_interface info = Some interface
        \<and> (\<forall>slot < info_setcount info.
              \<exists>gfx. interface slot = Some gfx
                \<and> color_count_recorded current gfx (info_color_count info slot)))"

text \<open>A graphics decoder device with the given sets.\<close>

definition example_gfx_device :: "gfx_element list \<Rightarrow> device_gfx_interface" where
  "example_gfx_device sets = (\<lambda>slot. if slot < length sets then Some (sets ! slot) else None)"

subsection \<open>Exports\<close>

text \<open>
  What a log of an export shows: the files it tried to open, those it opened, the lines
  it printed and the bitmaps it had written.
\<close>

definition attempts :: "export_event list \<Rightarrow> (string \<times> string) list" where
  "attempts log = concat (map (\<lambda>e. case e of Opened b x ok \<Rightarrow> [(b, x)] | _ \<Rightarrow> []) log)"

definition opened_ok :: "export_event list \<Rightarrow> (string \<times> string) list" where
  "opened_ok log =
     concat (map (\<lambda>e. case e of Opened b x ok \<Rightarrow> (if ok then [(b, x)] else []) | _ \<Rightarrow> []) log)"

definition printed :: "export_event list \<Rightarrow> string list" where
  "printed log = concat (map (\<lambda>e. case e of Printf l \<Rightarrow> [l] | _ \<Rightarrow> []) log)"

definition written :: "export_event list \<Rightarrow> (int \<times> int \<times> int) list" where
  "written log = concat (map (\<lambda>e. case e of Png_write w h n ok \<Rightarrow> [(w, h, n)] | _ \<Rightarrow> []) log)"

text \<open>The bitmaps that the PNG writer failed to write.\<close>

definition write_errors :: "export_event list \<Rightarrow> (int \<times> int \<times> int) list" where
  "write_errors log =
     concat (map (\<lambda>e. case e of Png_write w h n ok \<Rightarrow> (if ok then [] else [(w, h, n)]) | _ \<Rightarrow> [])
               log)"

text \<open>The instances of an export of the graphics sets: every color below 32 of every set
  of the device that is current, in order, each with the name of its file. The count of
  colors of a set is the \<open>int\<close> that holds \<open>colors()\<close>.\<close>

definition gfxset_save_plan :: "ui_gfx_state \<Rightarrow> (string \<times> string) list" where
  "gfxset_save_plan state =
     (let info = gfxdev state (gfxset_devindex state)
      in case info_interface info of
           None \<Rightarrow> []
         | Some interface \<Rightarrow>
             concat (map (\<lambda>gset. case interface gset of
                                   None \<Rightarrow> []
                                 | Some gfx \<Rightarrow>
                                     map (\<lambda>color. (gfxset_save_filename gset gfx (int color), ''png''))
                                       [0..<nat (min (to_int32 (int (gfx_colors gfx))) 32)])
                       [0..<info_setcount info]))"



text \<open>The opener returns, whatever it is asked.\<close>

definition opener_returns :: "'fs opener \<Rightarrow> bool" where
  "opener_returns onf = (\<forall>fs b x. onf fs b x \<noteq> None)"

text \<open>The current graphics device is counted, and each of its sets has a palette of its
  own and a palette to draw with.\<close>

definition gfxset_save_ready :: "ui_gfx_state \<Rightarrow> bool" where
  "gfxset_save_ready state =
     (let info = gfxdev state (gfxset_devindex state)
      in case info_interface info of
           None \<Rightarrow> False
         | Some interface \<Rightarrow>
             (\<forall>gset \<in> set [0..<info_setcount info].
                (case interface gset of
                   None \<Rightarrow> False
                 | Some gfx \<Rightarrow> \<not> Option.is_none (gfx_palette gfx))
                \<and> \<not> Option.is_none (info_palette info gset)))"


text \<open>
  What no export touches: the bitmap of the view with its texture and dirty flag, the
  tilemap selection, the graphics device selected, the columns, offsets and rotations of
  the sets, and the columns and offset of the palette view.
\<close>

definition export_keeps :: "ui_gfx_state \<Rightarrow> ui_gfx_state \<Rightarrow> bool" where
  "export_keeps state state' =
     (bitmap state' = bitmap state \<and> texture state' = texture state
      \<and> bitmap_dirty state' = bitmap_dirty state
      \<and> tilemap_which state' = tilemap_which state
      \<and> tilemap_xoffs state' = tilemap_xoffs state
      \<and> tilemap_yoffs state' = tilemap_yoffs state
      \<and> tilemap_zoom state' = tilemap_zoom state
      \<and> tilemap_rotate state' = tilemap_rotate state
      \<and> tilemap_flags state' = tilemap_flags state
      \<and> gfxset_devindex state' = gfxset_devindex state
      \<and> gfxset_devcount state' = gfxset_devcount state
      \<and> palette_devcount state' = palette_devcount state
      \<and> palette_columns state' = palette_columns state
      \<and> palette_offset state' = palette_offset state
      \<and> mode state' = mode state \<and> save state' = save state
      \<and> (\<lambda>d. info_interface (gfxdev state' d)) = (\<lambda>d. info_interface (gfxdev state d))
      \<and> (\<lambda>d. info_setcount (gfxdev state' d)) = (\<lambda>d. info_setcount (gfxdev state d))
      \<and> (\<lambda>d. info_rotate (gfxdev state' d)) = (\<lambda>d. info_rotate (gfxdev state d))
      \<and> (\<lambda>d. info_columns (gfxdev state' d)) = (\<lambda>d. info_columns (gfxdev state d))
      \<and> (\<lambda>d. info_offset (gfxdev state' d)) = (\<lambda>d. info_offset (gfxdev state d))
      \<and> (\<lambda>d. info_palette (gfxdev state' d)) = (\<lambda>d. info_palette (gfxdev state d))
      \<and> (\<lambda>d. info_color_count (gfxdev state' d)) = (\<lambda>d. info_color_count (gfxdev state d)))"


definition example_opener :: "unit opener" where
  "example_opener fs b x = Some (True, fs)"

text \<open>A PNG writer that succeeds, and one that fails with the error 2.\<close>

definition example_png :: "unit png_writer" where
  "example_png fs = None"

definition example_png_failing :: "unit png_writer" where
  "example_png_failing fs = Some 2"

text \<open>The viewer's state once it has counted the devices of a machine; the state of
  \<open>ui_gfx_init\<close> if the count does not return.\<close>

definition example_started :: "running_machine \<Rightarrow> ui_gfx_state" where
  "example_started machine =
     (case ui_gfx_count_devices machine (ui_gfx_init 0) of
        None \<Rightarrow> ui_gfx_init 0
      | Some state \<Rightarrow> state)"

text \<open>Two bitmaps are of the same size, both valid or both not.\<close>

definition same_size :: "bitmap_rgb32 \<Rightarrow> bitmap_rgb32 \<Rightarrow> bool" where
  "same_size a b = (bm_valid b = bm_valid a \<and> bm_width b = bm_width a \<and> bm_height b = bm_height a)"

text \<open>The number of files of the extension \<open>x\<close> that a log shows as opened.\<close>

definition count_ok :: "string \<Rightarrow> export_event list \<Rightarrow> nat" where
  "count_ok x log = length (filter (\<lambda>p. snd p = x) (opened_ok log))"

text \<open>
  From the log \<open>log\<close> to the log \<open>log'\<close>, one bitmap is handed to the writer for each image
  file opened, one line is printed for each image file opened and one for each bitmap
  that the writer failed to write, and nothing else is printed or written.
\<close>

definition one_per_image :: "export_event list \<Rightarrow> export_event list \<Rightarrow> bool" where
  "one_per_image log log' =
     (length (printed log') + count_ok ''png'' log + length (write_errors log)
        = length (printed log) + count_ok ''png'' log' + length (write_errors log')
      \<and> length (written log') + count_ok ''png'' log = length (written log) + count_ok ''png'' log')"


text \<open>
  A machine of one palette device and two graphics devices of one set each, the first
  of two colors; and a machine of two palette devices, the second with indirect entries,
  one graphics device of one set and two tilemaps.
\<close>

definition example_two_devices :: running_machine where
  "example_two_devices =
     example_machine [example_palette 16 0]
       [example_gfx_device [example_gfx 8 8 4 2 (Some (example_palette 16 0))],
        example_gfx_device [example_gfx 16 16 4 1 (Some (example_palette 16 0))]]
       []"


section \<open>Properties\<close>

subsection \<open>Arithmetic of the C quotient\<close>

lemma sdiv_nonneg_eq_div: "0 \<le> a \<Longrightarrow> 0 < b \<Longrightarrow> a sdiv b = a div (b::int)"
  by (simp add: signed_divide_int_def sgn_if)

lemma int_div_mult_le: "0 < b \<Longrightarrow> (a div b) * b \<le> (a::int)"
  using div_mult_mod_eq [of a b] pos_mod_sign [of b a] by linarith

subsection \<open>The column fit of the graphics viewer\<close>

lemma shrink_columns_le:
  "gfxset_shrink_columns W S x p = (x', p') \<Longrightarrow> x' \<le> x"
proof (induction W S x p rule: gfxset_shrink_columns.induct)
  case (1 W S x p)
  then show ?case
    by (subst (asm) (2) gfxset_shrink_columns.simps) (auto simp: Let_def split: if_splits)
qed

lemma shrink_columns_zero:
  "gfxset_shrink_columns W S x 0 = (x', p') \<Longrightarrow> p' = 0 \<Longrightarrow> x' \<le> 1"
proof (induction W S x "0::int" rule: gfxset_shrink_columns.induct)
  case (1 W S x)
  then show ?case
    by (subst (asm) (2) gfxset_shrink_columns.simps) (auto simp: Let_def split: if_splits)
qed

lemma shrink_columns_nonzero:
  "gfxset_shrink_columns W S x 0 = (x', p') \<Longrightarrow> p' \<noteq> 0 \<Longrightarrow>
     1 < x' \<and> p' = (W sdiv x') sdiv S"
proof (induction W S x "0::int" rule: gfxset_shrink_columns.induct)
  case (1 W S x)
  then show ?case
    by (subst (asm) (2) gfxset_shrink_columns.simps) (auto simp: Let_def split: if_splits)
qed

lemma scale_fits:
  assumes "0 \<le> W" "1 \<le> S" "1 < x" "p = (W sdiv x) sdiv S"
  shows "0 \<le> p" and "x * p * S \<le> (W::int)"
proof -
  have q: "0 \<le> W div x" using assms by (simp add: pos_imp_zdiv_nonneg_iff)
  have p: "p = (W div x) div S" using assms q by (simp add: sdiv_nonneg_eq_div)
  show "0 \<le> p" unfolding p using q assms(2) by (simp add: pos_imp_zdiv_nonneg_iff)
  have "p * S \<le> W div x" unfolding p using assms(2) by (intro int_div_mult_le) simp
  then have "(p * S) * x \<le> (W div x) * x" using assms(3) by (intro mult_right_mono) simp_all
  also have "\<dots> \<le> W" using assms(3) by (intro int_div_mult_le) simp
  finally show "x * p * S \<le> W" by (simp add: mult.commute mult.left_commute)
qed

lemma gfxset_fit_12: "gfxset_fit 400 33 16 = (12, 1)"
  by (simp add: gfxset_fit_def gfxset_shrink_columns.simps signed_divide_int_def)

text \<open>
  C5, as the claim states it, fails. The fixture \<open>W = 400\<close>, \<open>C = 16\<close>, \<open>S = 33\<close> gives
  12 columns at scale 1, not 8 (and 11 columns when 33 is the width of the graphic, the
  cell being one pixel wider); and a viewport narrower than one cell (\<open>W = 10\<close>) ends
  with one column at scale 1, which is wider than the viewport.
\<close>

theorem gfxset_fit_counterexample:
  "gfxset_fit 400 33 16 \<noteq> (8, 1) \<and> gfxset_fit 400 33 16 = (12, 1)
   \<and> gfxset_fit 400 34 16 = (11, 1)
   \<and> gfxset_fit 10 33 16 = (1, 1)
   \<and> fst (gfxset_fit 10 33 16) * snd (gfxset_fit 10 33 16) * 33 > 10"
  by (simp add: gfxset_fit_def gfxset_shrink_columns.simps signed_divide_int_def)

text \<open>
  C5, amended: for every viewport width \<open>W\<close>, requested column count \<open>C\<close> and cell width
  \<open>S\<close>, the loop ends with at most \<open>C\<close> columns and a scale of at least 1; when the
  viewport is at least one cell wide (\<open>1 \<le> S \<le> W\<close>) the columns fit,
  \<open>finalColumns * pixelScale * S \<le> W\<close>; the fixture \<open>W = 400\<close>, \<open>C = 16\<close>, \<open>S = 33\<close>
  yields 12 columns at scale 1.
\<close>

theorem gfxset_fit_bounds:
  "fst (gfxset_fit W S C) \<le> C
   \<and> 1 \<le> snd (gfxset_fit W S C)
   \<and> (0 \<le> W \<and> 1 \<le> S \<and> S \<le> W \<longrightarrow> fst (gfxset_fit W S C) * snd (gfxset_fit W S C) * S \<le> W)
   \<and> gfxset_fit 400 33 16 = (12, 1)"
proof -
  obtain x p where r: "gfxset_shrink_columns W S C 0 = (x, p)"
    by (cases "gfxset_shrink_columns W S C 0")
  then have fit: "gfxset_fit W S C = (x, max 1 p)"
    by (simp add: gfxset_fit_def)
  have le: "x \<le> C" using r by (rule shrink_columns_le)
  have fits: "x * max 1 p * S \<le> W" if h: "0 \<le> W" "1 \<le> S" "S \<le> W"
  proof (cases "p = 0")
    case True
    then have "x \<le> 1" using r shrink_columns_zero by blast
    then have "x * S \<le> 1 * S" using h(2) by (intro mult_right_mono) simp_all
    then have "x * S \<le> W" using h(3) by simp
    then show ?thesis using True by simp
  next
    case False
    then have xp: "1 < x" "p = (W sdiv x) sdiv S" using r shrink_columns_nonzero by blast+
    from scale_fits [OF h(1) h(2) xp] False have "1 \<le> p" "x * p * S \<le> W" by simp_all
    then show ?thesis by (simp add: max_def)
  qed
  show ?thesis using le fits by (simp add: fit gfxset_fit_12)
qed

text \<open>C5, witness: the fixture of the claim.\<close>

theorem gfxset_fit_bounds_witness:
  "(0::int) \<le> 400 \<and> (1::int) \<le> 33 \<and> (33::int) \<le> 400
   \<and> fst (gfxset_fit 400 33 16) \<le> 16
   \<and> 1 \<le> snd (gfxset_fit 400 33 16)
   \<and> fst (gfxset_fit 400 33 16) * snd (gfxset_fit 400 33 16) * 33 \<le> 400"
  using gfxset_fit_bounds [of 400 33 16] by simp

subsection \<open>The orientation transform\<close>

lemma orientation_reverse_bits:
  "(orientation_reverse rot AND ORIENTATION_SWAP_XY = 0) = (rot AND ORIENTATION_SWAP_XY = 0)"
  "rot AND ORIENTATION_SWAP_XY \<noteq> 0 \<Longrightarrow>
     (orientation_reverse rot AND ORIENTATION_FLIP_X = 0) = (rot AND ORIENTATION_FLIP_Y = 0)"
  "rot AND ORIENTATION_SWAP_XY \<noteq> 0 \<Longrightarrow>
     (orientation_reverse rot AND ORIENTATION_FLIP_Y = 0) = (rot AND ORIENTATION_FLIP_X = 0)"
  by (simp_all add: orientation_reverse_def ORIENTATION_SWAP_XY_def ORIENTATION_FLIP_X_def
        ORIENTATION_FLIP_Y_def)

text \<open>
  C1, as the claim states it, fails: a quarter turn is not its own inverse. With swap-axes
  and flip-horizontal (code 5) on a graphic 2 wide and 3 high, the cell pixel \<open>(0, 0)\<close>
  comes from the source pixel \<open>(0, 2)\<close>, and the transform of \<open>(0, 2)\<close> with the same
  code is \<open>(2, 2)\<close>. On a square graphic 3 by 3, where every coordinate stays in range,
  the codes 5 and 6 applied twice take \<open>(0, 0)\<close> to \<open>(2, 2)\<close>; and swap-axes with both
  flips (code 7) applied twice on the graphic 2 by 3 takes \<open>(1, 1)\<close> to \<open>(0, 2)\<close>.
\<close>

theorem gfxset_effective_xy_counterexample:
  "gfxset_effective_xy (example_gfx 2 3 1 1 None) 5 (0, 0) = (0, 2)
   \<and> gfxset_effective_xy (example_gfx 2 3 1 1 None) 5
        (gfxset_effective_xy (example_gfx 2 3 1 1 None) 5 (0, 0)) \<noteq> (0, 0)
   \<and> gfxset_effective_xy (example_gfx 3 3 1 1 None) 5
        (gfxset_effective_xy (example_gfx 3 3 1 1 None) 5 (0, 0)) = (2, 2)
   \<and> gfxset_effective_xy (example_gfx 3 3 1 1 None) 6
        (gfxset_effective_xy (example_gfx 3 3 1 1 None) 6 (0, 0)) = (2, 2)
   \<and> gfxset_effective_xy (example_gfx 2 3 1 1 None) 7
        (gfxset_effective_xy (example_gfx 2 3 1 1 None) 7 (1, 1)) = (0, 2)"
  by (simp add: gfxset_effective_xy_def example_gfx_def ORIENTATION_SWAP_XY_def
        ORIENTATION_FLIP_X_def ORIENTATION_FLIP_Y_def)

text \<open>
  C1, amended: for every orientation code and every cell size, square or not, the
  transform maps each in-range pixel of the cell to an in-range pixel of the source, and
  mapping back with the reversed orientation (the flips exchanged when the axes are
  swapped) over the graphic as the cell shows it yields the original coordinate. With the
  same code the round trip is the identity when the code does not combine swap-axes with a
  flip, and on square graphics when it combines swap-axes with both flips.
\<close>

theorem gfxset_effective_xy_round_trip:
  assumes "0 \<le> x" "x < gfxset_cell_width gfx rot" "0 \<le> y" "y < gfxset_cell_height gfx rot"
  shows "0 \<le> fst (gfxset_effective_xy gfx rot (x, y))
         \<and> fst (gfxset_effective_xy gfx rot (x, y)) < int (gfx_width gfx)
         \<and> 0 \<le> snd (gfxset_effective_xy gfx rot (x, y))
         \<and> snd (gfxset_effective_xy gfx rot (x, y)) < int (gfx_height gfx)
         \<and> gfxset_effective_xy (gfxset_shown gfx rot) (orientation_reverse rot)
              (gfxset_effective_xy gfx rot (x, y)) = (x, y)
         \<and> (rot AND ORIENTATION_SWAP_XY = 0
              \<or> (rot AND ORIENTATION_FLIP_X = 0 \<and> rot AND ORIENTATION_FLIP_Y = 0)
              \<or> (rot AND ORIENTATION_FLIP_X \<noteq> 0 \<and> rot AND ORIENTATION_FLIP_Y \<noteq> 0
                  \<and> gfx_width gfx = gfx_height gfx)
             \<longrightarrow> gfxset_effective_xy gfx rot (gfxset_effective_xy gfx rot (x, y)) = (x, y))"
proof (cases "rot AND ORIENTATION_SWAP_XY = 0")
  case True
  then show ?thesis
    using assms
    by (auto simp: gfxset_effective_xy_def gfxset_cell_width_def gfxset_cell_height_def
          gfxset_shown_def orientation_reverse_def Let_def)
next
  case False
  note rev = orientation_reverse_bits(1) [of rot] orientation_reverse_bits(2,3) [OF False]
  show ?thesis
    using assms False rev
    by (auto simp: gfxset_effective_xy_def gfxset_cell_width_def gfxset_cell_height_def
          gfxset_shown_def Let_def)
qed

text \<open>C1, witness: a quarter turn (code 5) of a graphic 2 wide and 3 high, at the cell
  pixel \<open>(2, 1)\<close>; the reversed orientation is code 6.\<close>

theorem gfxset_effective_xy_round_trip_witness:
  "(0::int) \<le> 2 \<and> 2 < gfxset_cell_width (example_gfx 2 3 1 1 None) 5
   \<and> (0::int) \<le> 1 \<and> 1 < gfxset_cell_height (example_gfx 2 3 1 1 None) 5
   \<and> orientation_reverse 5 = 6
   \<and> gfxset_effective_xy (example_gfx 2 3 1 1 None) 5 (2, 1) = (1, 0)
   \<and> gfxset_effective_xy (gfxset_shown (example_gfx 2 3 1 1 None) 5) (orientation_reverse 5)
        (gfxset_effective_xy (example_gfx 2 3 1 1 None) 5 (2, 1)) = (2, 1)"
proof -
  have w: "2 < gfxset_cell_width (example_gfx 2 3 1 1 None) 5"
    and h: "1 < gfxset_cell_height (example_gfx 2 3 1 1 None) 5"
    by (simp_all add: gfxset_cell_width_def gfxset_cell_height_def example_gfx_def
          ORIENTATION_SWAP_XY_def)
  have r: "orientation_reverse 5 = 6"
    by (simp add: orientation_reverse_def ORIENTATION_SWAP_XY_def ORIENTATION_FLIP_X_def
          ORIENTATION_FLIP_Y_def)
  have e: "gfxset_effective_xy (example_gfx 2 3 1 1 None) 5 (2, 1) = (1, 0)"
    by (simp add: gfxset_effective_xy_def example_gfx_def ORIENTATION_SWAP_XY_def
          ORIENTATION_FLIP_X_def ORIENTATION_FLIP_Y_def)
  from gfxset_effective_xy_round_trip [of 2 "example_gfx 2 3 1 1 None" 5 1, OF _ w _ h]
  have "gfxset_effective_xy (gfxset_shown (example_gfx 2 3 1 1 None) 5) (orientation_reverse 5)
          (gfxset_effective_xy (example_gfx 2 3 1 1 None) 5 (2, 1)) = (2, 1)"
    by simp
  with w h r e show ?thesis by simp
qed

subsection \<open>The scroll offset of the palette viewer\<close>
















lemma palette_state_ok_keys [simp]:
  "palette_state_ok (machine\<lparr>ui_pressed := keys\<rparr>) state = palette_state_ok machine state"
  by (simp add: palette_state_ok_def)






subsection \<open>The bitmap of the view is reallocated on a change of size only\<close>

lemma gfxset_realloc_unfold:
  "gfxset_update_bitmap_realloc allocate (render, state) xcells ycells gfx =
     (if bitmap_mismatch state (fst (gfxset_bitmap_size state gfx xcells ycells))
           (snd (gfxset_bitmap_size state gfx xcells ycells))
      then reallocated allocate (render, state) (gfxset_bitmap_size state gfx xcells ycells)
      else (render, state))"
  by (simp add: gfxset_update_bitmap_realloc_def gfxset_bitmap_size_def bitmap_mismatch_def
        reallocated_def Let_def)

lemma tilemap_realloc_unfold:
  "tilemap_update_bitmap_realloc allocate (render, state) width height =
     (if bitmap_mismatch state (fst (tilemap_bitmap_size state width height))
           (snd (tilemap_bitmap_size state width height))
      then reallocated allocate (render, state) (tilemap_bitmap_size state width height)
      else (render, state))"
  by (simp add: tilemap_update_bitmap_realloc_def tilemap_bitmap_size_def bitmap_mismatch_def
        reallocated_def Let_def)

lemma reallocated_match:
  "allocates_as_asked allocate w h \<Longrightarrow>
     \<not> bitmap_mismatch (snd (reallocated allocate rs (w, h))) w h"
  by (simp add: reallocated_def bitmap_mismatch_def allocates_as_asked_def)

lemma reallocated_gfxset_size:
  "gfxset_bitmap_size (snd (reallocated allocate rs sz)) gfx xcells ycells
     = gfxset_bitmap_size (snd rs) gfx xcells ycells"
  by (simp add: reallocated_def gfxset_bitmap_size_def)

lemma reallocated_tilemap_size:
  "tilemap_bitmap_size (snd (reallocated allocate rs sz)) width height
     = tilemap_bitmap_size (snd rs) width height"
  by (simp add: reallocated_def tilemap_bitmap_size_def)

lemma gfxset_realloc_twice:
  assumes "allocates_as_asked allocate (fst (gfxset_bitmap_size state gfx xcells ycells))
             (snd (gfxset_bitmap_size state gfx xcells ycells))"
  shows "gfxset_update_bitmap_realloc allocate
           (gfxset_update_bitmap_realloc allocate (render, state) xcells ycells gfx)
           xcells ycells gfx
         = gfxset_update_bitmap_realloc allocate (render, state) xcells ycells gfx"
proof (cases "bitmap_mismatch state (fst (gfxset_bitmap_size state gfx xcells ycells))
                 (snd (gfxset_bitmap_size state gfx xcells ycells))")
  case True
  define sz where "sz = gfxset_bitmap_size state gfx xcells ycells"
  define rs where "rs = reallocated allocate (render, state) sz"
  have first: "gfxset_update_bitmap_realloc allocate (render, state) xcells ycells gfx = rs"
    using True by (simp add: gfxset_realloc_unfold rs_def sz_def)
  have same: "gfxset_bitmap_size (snd rs) gfx xcells ycells = sz"
    by (simp add: rs_def reallocated_gfxset_size sz_def)
  have "\<not> bitmap_mismatch (snd rs) (fst sz) (snd sz)"
    using reallocated_match [of allocate "fst sz" "snd sz" "(render, state)"] assms
    by (simp add: rs_def sz_def)
  then have "gfxset_update_bitmap_realloc allocate rs xcells ycells gfx = rs"
    using gfxset_realloc_unfold [of allocate "fst rs" "snd rs" xcells ycells gfx]
    by (simp add: same)
  then show ?thesis by (simp add: first)
next
  case False
  then show ?thesis by (simp add: gfxset_realloc_unfold)
qed

lemma tilemap_realloc_twice:
  assumes "allocates_as_asked allocate (fst (tilemap_bitmap_size state width height))
             (snd (tilemap_bitmap_size state width height))"
  shows "tilemap_update_bitmap_realloc allocate
           (tilemap_update_bitmap_realloc allocate (render, state) width height) width height
         = tilemap_update_bitmap_realloc allocate (render, state) width height"
proof (cases "bitmap_mismatch state (fst (tilemap_bitmap_size state width height))
                 (snd (tilemap_bitmap_size state width height))")
  case True
  define sz where "sz = tilemap_bitmap_size state width height"
  define rs where "rs = reallocated allocate (render, state) sz"
  have first: "tilemap_update_bitmap_realloc allocate (render, state) width height = rs"
    using True by (simp add: tilemap_realloc_unfold rs_def sz_def)
  have same: "tilemap_bitmap_size (snd rs) width height = sz"
    by (simp add: rs_def reallocated_tilemap_size sz_def)
  have "\<not> bitmap_mismatch (snd rs) (fst sz) (snd sz)"
    using reallocated_match [of allocate "fst sz" "snd sz" "(render, state)"] assms
    by (simp add: rs_def sz_def)
  then have "tilemap_update_bitmap_realloc allocate rs width height = rs"
    using tilemap_realloc_unfold [of allocate "fst rs" "snd rs" width height]
    by (simp add: same)
  then show ?thesis by (simp add: first)
next
  case False
  then show ?thesis by (simp add: tilemap_realloc_unfold)
qed

text \<open>
  C6, as the claim states it, fails when the allocation does not leave a valid bitmap of
  the size asked for. The graphics view of a graphic 8 by 8 in 16 columns and no row (a
  cell box lower than a cell) asks for a bitmap 144 by 0; with an allocator that leaves
  an empty request invalid, \<open>gfxset_update_bitmap\<close> called twice with these dimensions
  allocates a texture at the first call and another at the second, and uploads the
  bitmap twice at each call.
\<close>

theorem update_bitmap_realloc_counterexample:
  "map_option (\<lambda>rs. (rm_texture_allocs (fst rs), rm_set_bitmaps (fst rs), bitmap_dirty (snd rs)))
     (gfxset_update_bitmap example_allocate_pixels
        (\<lparr>rm_texture_allocs = 0, rm_set_bitmaps = 0\<rparr>, ui_gfx_init 0) 16 0
        (example_gfx 8 8 64 1 None))
   = Some (1, 2, False)
   \<and> map_option (\<lambda>rs. (rm_texture_allocs (fst rs), rm_set_bitmaps (fst rs), bitmap_dirty (snd rs)))
     (gfxset_update_bitmap example_allocate_pixels
        (\<lparr>rm_texture_allocs = 0, rm_set_bitmaps = 0\<rparr>, ui_gfx_init 0) 16 0
        (example_gfx 8 8 64 1 None)
      \<bind> (\<lambda>rs. gfxset_update_bitmap example_allocate_pixels rs 16 0
                    (example_gfx 8 8 64 1 None)))
   = Some (2, 4, False)
   \<and> gfxset_bitmap_size (ui_gfx_init 0) (example_gfx 8 8 64 1 None) 16 0 = (144, 0)"
  by (simp add: gfxset_update_bitmap_def gfxset_update_bitmap_realloc_def
        gfxset_update_bitmap_redraw_def gfxset_draw_rows_def example_allocate_pixels_def
        ui_gfx_init_def example_gfx_def gfxset_cell_width_def gfxset_cell_height_def
        gfxset_bitmap_size_def ORIENTATION_SWAP_XY_def Let_def)

text \<open>
  C6, amended: the block "realloc the bitmap if it is too small" of \<open>gfxset_update_bitmap\<close>
  and of \<open>tilemap_update_bitmap\<close> allocates a bitmap and a texture, and forces the dirty
  flag, if and only if there is no valid bitmap, no texture, or the size asked for differs
  from the size of the bitmap; otherwise it leaves the render manager and the state as
  they are. When the allocation gives a valid bitmap of the size asked for, the block run
  again with the same arguments allocates nothing and changes nothing, the dirty flag
  included.
\<close>

theorem update_bitmap_realloc_iff:
  assumes "gsize = gfxset_bitmap_size state gfx xcells ycells"
    and "tsize = tilemap_bitmap_size state width height"
  shows
    "gfxset_update_bitmap_realloc allocate (render, state) xcells ycells gfx
       = (if bitmap_mismatch state (fst gsize) (snd gsize)
          then reallocated allocate (render, state) gsize else (render, state))
     \<and> tilemap_update_bitmap_realloc allocate (render, state) width height
       = (if bitmap_mismatch state (fst tsize) (snd tsize)
          then reallocated allocate (render, state) tsize else (render, state))
     \<and> reallocated allocate (render, state) gsize \<noteq> (render, state)
     \<and> bitmap_dirty (snd (reallocated allocate (render, state) gsize))
     \<and> (allocates_as_asked allocate (fst gsize) (snd gsize) \<longrightarrow>
          gfxset_update_bitmap_realloc allocate
            (gfxset_update_bitmap_realloc allocate (render, state) xcells ycells gfx)
            xcells ycells gfx
          = gfxset_update_bitmap_realloc allocate (render, state) xcells ycells gfx)
     \<and> (allocates_as_asked allocate (fst tsize) (snd tsize) \<longrightarrow>
          tilemap_update_bitmap_realloc allocate
            (tilemap_update_bitmap_realloc allocate (render, state) width height) width height
          = tilemap_update_bitmap_realloc allocate (render, state) width height)"
proof -
  have a: "gfxset_update_bitmap_realloc allocate (render, state) xcells ycells gfx
       = (if bitmap_mismatch state (fst gsize) (snd gsize)
          then reallocated allocate (render, state) gsize else (render, state))"
    unfolding assms by (rule gfxset_realloc_unfold)
  have b: "tilemap_update_bitmap_realloc allocate (render, state) width height
       = (if bitmap_mismatch state (fst tsize) (snd tsize)
          then reallocated allocate (render, state) tsize else (render, state))"
    unfolding assms by (rule tilemap_realloc_unfold)
  have "rm_texture_allocs (fst (reallocated allocate (render, state) gsize))
          \<noteq> rm_texture_allocs render"
    by (simp add: reallocated_def)
  then have c: "reallocated allocate (render, state) gsize \<noteq> (render, state)"
    by (metis fst_conv)
  have d: "bitmap_dirty (snd (reallocated allocate (render, state) gsize))"
    by (simp add: reallocated_def)
  have e: "allocates_as_asked allocate (fst gsize) (snd gsize) \<longrightarrow>
          gfxset_update_bitmap_realloc allocate
            (gfxset_update_bitmap_realloc allocate (render, state) xcells ycells gfx)
            xcells ycells gfx
          = gfxset_update_bitmap_realloc allocate (render, state) xcells ycells gfx"
    unfolding assms using gfxset_realloc_twice by blast
  have f: "allocates_as_asked allocate (fst tsize) (snd tsize) \<longrightarrow>
          tilemap_update_bitmap_realloc allocate
            (tilemap_update_bitmap_realloc allocate (render, state) width height) width height
          = tilemap_update_bitmap_realloc allocate (render, state) width height"
    unfolding assms using tilemap_realloc_twice by blast
  from a b c d e f show ?thesis by blast
qed

text \<open>C6, witness: the graphics view of a graphic 8 by 8 in 16 columns and 4 rows, and a
  tilemap view 256 by 128, both from the state of a viewer that has no bitmap yet.\<close>

theorem update_bitmap_realloc_iff_witness:
  "gfxset_bitmap_size (ui_gfx_init 0) (example_gfx 8 8 64 1 None) 16 4 = (144, 36)
   \<and> tilemap_bitmap_size (ui_gfx_init 0) 256 128 = (256, 128)
   \<and> bitmap_mismatch (ui_gfx_init 0) 144 36
   \<and> allocates_as_asked example_allocate 144 36
   \<and> allocates_as_asked example_allocate 256 128
   \<and> gfxset_update_bitmap_realloc example_allocate
        (\<lparr>rm_texture_allocs = 0, rm_set_bitmaps = 0\<rparr>, ui_gfx_init 0) 16 4
        (example_gfx 8 8 64 1 None)
      = reallocated example_allocate
          (\<lparr>rm_texture_allocs = 0, rm_set_bitmaps = 0\<rparr>, ui_gfx_init 0) (144, 36)
   \<and> gfxset_update_bitmap_realloc example_allocate
        (gfxset_update_bitmap_realloc example_allocate
          (\<lparr>rm_texture_allocs = 0, rm_set_bitmaps = 0\<rparr>, ui_gfx_init 0) 16 4
          (example_gfx 8 8 64 1 None))
        16 4 (example_gfx 8 8 64 1 None)
      = gfxset_update_bitmap_realloc example_allocate
          (\<lparr>rm_texture_allocs = 0, rm_set_bitmaps = 0\<rparr>, ui_gfx_init 0) 16 4
          (example_gfx 8 8 64 1 None)
   \<and> tilemap_update_bitmap_realloc example_allocate
        (tilemap_update_bitmap_realloc example_allocate
          (\<lparr>rm_texture_allocs = 0, rm_set_bitmaps = 0\<rparr>, ui_gfx_init 0) 256 128)
        256 128
      = tilemap_update_bitmap_realloc example_allocate
          (\<lparr>rm_texture_allocs = 0, rm_set_bitmaps = 0\<rparr>, ui_gfx_init 0) 256 128"
proof -
  have g: "gfxset_bitmap_size (ui_gfx_init 0) (example_gfx 8 8 64 1 None) 16 4 = (144, 36)"
    by (simp add: gfxset_bitmap_size_def ui_gfx_init_def example_gfx_def
          gfxset_cell_width_def gfxset_cell_height_def ORIENTATION_SWAP_XY_def)
  have t: "tilemap_bitmap_size (ui_gfx_init 0) 256 128 = (256, 128)"
    by (simp add: tilemap_bitmap_size_def ui_gfx_init_def ORIENTATION_SWAP_XY_def)
  have m: "bitmap_mismatch (ui_gfx_init 0) 144 36"
    by (simp add: bitmap_mismatch_def ui_gfx_init_def)
  have a: "allocates_as_asked example_allocate 144 36"
    "allocates_as_asked example_allocate 256 128"
    by (simp_all add: allocates_as_asked_def example_allocate_def)
  note th = update_bitmap_realloc_iff [OF g [symmetric] t [symmetric], of example_allocate
      "\<lparr>rm_texture_allocs = 0, rm_set_bitmaps = 0\<rparr>"]
  have first: "gfxset_update_bitmap_realloc example_allocate
        (\<lparr>rm_texture_allocs = 0, rm_set_bitmaps = 0\<rparr>, ui_gfx_init 0) 16 4
        (example_gfx 8 8 64 1 None)
      = reallocated example_allocate
          (\<lparr>rm_texture_allocs = 0, rm_set_bitmaps = 0\<rparr>, ui_gfx_init 0) (144, 36)"
    using th [THEN conjunct1] m by simp
  have again: "gfxset_update_bitmap_realloc example_allocate
        (gfxset_update_bitmap_realloc example_allocate
          (\<lparr>rm_texture_allocs = 0, rm_set_bitmaps = 0\<rparr>, ui_gfx_init 0) 16 4
          (example_gfx 8 8 64 1 None))
        16 4 (example_gfx 8 8 64 1 None)
      = gfxset_update_bitmap_realloc example_allocate
          (\<lparr>rm_texture_allocs = 0, rm_set_bitmaps = 0\<rparr>, ui_gfx_init 0) 16 4
          (example_gfx 8 8 64 1 None)"
    using th [THEN conjunct2, THEN conjunct2, THEN conjunct2, THEN conjunct2, THEN conjunct1]
      a(1) by simp
  have again_t: "tilemap_update_bitmap_realloc example_allocate
        (tilemap_update_bitmap_realloc example_allocate
          (\<lparr>rm_texture_allocs = 0, rm_set_bitmaps = 0\<rparr>, ui_gfx_init 0) 256 128)
        256 128
      = tilemap_update_bitmap_realloc example_allocate
          (\<lparr>rm_texture_allocs = 0, rm_set_bitmaps = 0\<rparr>, ui_gfx_init 0) 256 128"
    using th [THEN conjunct2, THEN conjunct2, THEN conjunct2, THEN conjunct2, THEN conjunct2]
      a(2) by simp
  from g t m a first again again_t show ?thesis by blast
qed

subsection \<open>Panning a tilemap\<close>

lemma to_int32_id: "- (2 ^ 31) \<le> x \<Longrightarrow> x < 2 ^ 31 \<Longrightarrow> to_int32 x = x"
  by (simp add: to_int32_def)

lemma to_int32_is_int32: "is_int32 x \<Longrightarrow> to_int32 x = x"
  by (simp add: is_int32_def to_int32_id)

lemma to_int32_range: "- (2 ^ 31) \<le> to_int32 x" "to_int32 x < 2 ^ 31"
proof -
  have "0 \<le> (x + 2 ^ 31) mod (2 ^ 32 :: int)" "(x + 2 ^ 31) mod (2 ^ 32 :: int) < 2 ^ 32"
    by simp_all
  then show "- (2 ^ 31) \<le> to_int32 x" "to_int32 x < 2 ^ 31"
    by (simp_all add: to_int32_def)
qed

lemma is_int32_to_int32 [simp]: "is_int32 (to_int32 x)"
  using to_int32_range [of x] by (simp add: is_int32_def)

lemma to_int32_to_uint32_add: "to_int32 (to_uint32 x + y) = to_int32 (x + y)"
proof -
  have "(x mod 2 ^ 32 + (y + 2 ^ 31)) mod (2 ^ 32 :: int) = (x + (y + 2 ^ 31)) mod 2 ^ 32"
    by (rule mod_add_left_eq)
  then show ?thesis by (simp add: to_int32_def to_uint32_def add.assoc)
qed

lemma to_int32_to_uint32_diff: "to_int32 (to_uint32 x - y) = to_int32 (x - y)"
  using to_int32_to_uint32_add [of x "- y"] by simp

lemma to_uint32_id: "0 \<le> x \<Longrightarrow> x < 2 ^ 31 \<Longrightarrow> to_uint32 x = x"
  by (simp add: to_uint32_def)

lemma tilemap_wrap_negative_pos:
  assumes "0 < m" "m \<le> 2 ^ 31" "is_int32 offs"
  shows "tilemap_wrap_negative offs m = Some (if offs < 0 then offs mod m else offs)"
  using assms(3)
proof (induction "nat (- offs)" arbitrary: offs rule: less_induct)
  case less
  show ?case
  proof (cases "offs < 0")
    case True
    have r: "is_int32 (offs + m)" using True assms(1,2) less.prems by (simp add: is_int32_def)
    have w: "to_int32 (to_uint32 offs + m) = offs + m"
      using r by (simp add: to_int32_to_uint32_add to_int32_is_int32)
    have "nat (- (offs + m)) < nat (- offs)" using True assms by simp
    from less(1) [OF this r]
    have ih: "tilemap_wrap_negative (offs + m) m
                = Some (if offs + m < 0 then (offs + m) mod m else offs + m)" .
    have "offs mod m = offs + m" if "\<not> offs + m < 0"
    proof -
      have "(offs + m) mod m = offs + m" using that True by (intro mod_pos_pos_trivial) simp_all
      then show ?thesis by simp
    qed
    then show ?thesis
      using True ih by (subst tilemap_wrap_negative.simps) (simp add: w)
  next
    case False
    then show ?thesis by (subst tilemap_wrap_negative.simps) simp
  qed
qed

lemma tilemap_wrap_beyond_pos:
  assumes "0 < m" "0 \<le> offs" "offs < 2 ^ 31"
  shows "tilemap_wrap_beyond offs m = Some (offs mod m)"
  using assms(2,3)
proof (induction "nat offs" arbitrary: offs rule: less_induct)
  case less
  have u: "to_uint32 offs = offs" using less.prems by (rule to_uint32_id)
  show ?case
  proof (cases "offs \<ge> m")
    case True
    have r: "0 \<le> offs - m" "offs - m < 2 ^ 31" using True assms(1) less.prems by simp_all
    have w: "to_int32 (offs - m) = offs - m"
      using r by (simp add: to_int32_id)
    have "nat (offs - m) < nat offs" using True assms(1) by simp
    from less(1) [OF this r]
    have ih: "tilemap_wrap_beyond (offs - m) m = Some ((offs - m) mod m)" .
    show ?thesis
      using True ih by (subst tilemap_wrap_beyond.simps) (simp add: u w)
  next
    case False
    then have "offs mod m = offs" using less.prems by (intro mod_pos_pos_trivial) simp_all
    then show ?thesis using False by (subst tilemap_wrap_beyond.simps) (simp add: u)
  qed
qed

lemma tilemap_wrap_both:
  assumes "0 < m" "m \<le> 2 ^ 31" "is_int32 offs"
  shows "Option.bind (tilemap_wrap_negative offs m) (\<lambda>x. tilemap_wrap_beyond x m)
           = Some (offs mod m)"
proof (cases "offs < 0")
  case True
  have "0 \<le> offs mod m" "offs mod m < m" using assms(1) by simp_all
  then have "tilemap_wrap_beyond (offs mod m) m = Some (offs mod m)"
    using tilemap_wrap_beyond_pos [OF assms(1), of "offs mod m"] assms(2) by simp
  then show ?thesis using True by (simp add: tilemap_wrap_negative_pos [OF assms])
next
  case False
  then have "0 \<le> offs" "offs < 2 ^ 31" using assms(3) by (simp_all add: is_int32_def)
  then show ?thesis
    using False
    by (simp add: tilemap_wrap_negative_pos [OF assms] tilemap_wrap_beyond_pos [OF assms(1)])
qed

lemma tilemap_keys_wrap_pos:
  assumes "0 < w" "w \<le> 2 ^ 31" "0 < h" "h \<le> 2 ^ 31"
    and "is_int32 (tilemap_xoffs s)" "is_int32 (tilemap_yoffs s)"
  shows "tilemap_keys_wrap w h s
           = Some (s\<lparr>tilemap_xoffs := tilemap_xoffs s mod w, tilemap_yoffs := tilemap_yoffs s mod h\<rparr>)"
proof -
  have x: "tilemap_wrap_negative (tilemap_xoffs s) w \<bind> (\<lambda>x. tilemap_wrap_beyond x w)
             = Some (tilemap_xoffs s mod w)"
    by (rule tilemap_wrap_both [OF assms(1,2,5)])
  have y: "tilemap_wrap_negative (tilemap_yoffs s) h \<bind> (\<lambda>x. tilemap_wrap_beyond x h)
             = Some (tilemap_yoffs s mod h)"
    by (rule tilemap_wrap_both [OF assms(3,4,6)])
  obtain x1 where x1: "tilemap_wrap_negative (tilemap_xoffs s) w = Some x1"
      "tilemap_wrap_beyond x1 w = Some (tilemap_xoffs s mod w)"
    using x by (auto simp: bind_eq_Some_conv)
  obtain y1 where y1: "tilemap_wrap_negative (tilemap_yoffs s) h = Some y1"
      "tilemap_wrap_beyond y1 h = Some (tilemap_yoffs s mod h)"
    using y by (auto simp: bind_eq_Some_conv)
  show ?thesis by (simp add: tilemap_keys_wrap_def x1 y1)
qed

lemma tilemap_keys_navigate_one_key:
  assumes "is_int32 (tilemap_xoffs s)" "is_int32 (tilemap_yoffs s)"
    and "ui_pressed m = (\<lambda>k. k = key)"
    and "key = IPT_UI_UP \<or> key = IPT_UI_DOWN \<or> key = IPT_UI_LEFT \<or> key = IPT_UI_RIGHT"
  shows "tilemap_xoffs (tilemap_keys_navigate m s)
           = to_int32 (tilemap_xoffs s + tilemap_pan_x m (tilemap_rotate s))
         \<and> tilemap_yoffs (tilemap_keys_navigate m s)
           = to_int32 (tilemap_yoffs s + tilemap_pan_y m (tilemap_rotate s))
         \<and> tilemap_rotate (tilemap_keys_navigate m s) = tilemap_rotate s
         \<and> tilemap_which (tilemap_keys_navigate m s) = tilemap_which s"
proof -
  note i = to_int32_is_int32 [OF assms(1)] to_int32_is_int32 [OF assms(2)]
  from assms(4) consider "key = IPT_UI_UP" | "key = IPT_UI_DOWN" | "key = IPT_UI_LEFT"
    | "key = IPT_UI_RIGHT"
    by blast
  then show ?thesis
  proof cases
    case 1
    then show ?thesis
      by (simp add: tilemap_keys_navigate_def tilemap_pan_x_def tilemap_pan_y_def Let_def
            assms(3) i)
  next
    case 2
    then show ?thesis
      by (simp add: tilemap_keys_navigate_def tilemap_pan_x_def tilemap_pan_y_def Let_def
            assms(3) i)
  next
    case 3
    then show ?thesis
      by (simp add: tilemap_keys_navigate_def tilemap_pan_x_def tilemap_pan_y_def Let_def
            assms(3) i)
  next
    case 4
    then show ?thesis
      by (simp add: tilemap_keys_navigate_def tilemap_pan_x_def tilemap_pan_y_def Let_def
            assms(3) i)
  qed
qed

lemma tilemap_keys_navigate_with_key:
  assumes "key \<in> {IPT_UI_UP, IPT_UI_DOWN, IPT_UI_LEFT, IPT_UI_RIGHT}"
    and "is_int32 (tilemap_xoffs s)" "is_int32 (tilemap_yoffs s)"
  shows "tilemap_xoffs (tilemap_keys_navigate (with_key machine key) s)
           = to_int32 (tilemap_xoffs s + tilemap_pan_x (with_key machine key) (tilemap_rotate s))"
    and "tilemap_yoffs (tilemap_keys_navigate (with_key machine key) s)
           = to_int32 (tilemap_yoffs s + tilemap_pan_y (with_key machine key) (tilemap_rotate s))"
    and "tilemap_rotate (tilemap_keys_navigate (with_key machine key) s) = tilemap_rotate s"
    and "tilemap_which (tilemap_keys_navigate (with_key machine key) s) = tilemap_which s"
proof -
  have p: "ui_pressed (with_key machine key) = (\<lambda>k. k = key)" by (simp add: with_key_def)
  have k: "key = IPT_UI_UP \<or> key = IPT_UI_DOWN \<or> key = IPT_UI_LEFT \<or> key = IPT_UI_RIGHT"
    using assms(1) by simp
  note n = tilemap_keys_navigate_one_key [OF assms(2,3) p k]
  show "tilemap_xoffs (tilemap_keys_navigate (with_key machine key) s)
           = to_int32 (tilemap_xoffs s + tilemap_pan_x (with_key machine key) (tilemap_rotate s))"
    and "tilemap_yoffs (tilemap_keys_navigate (with_key machine key) s)
           = to_int32 (tilemap_yoffs s + tilemap_pan_y (with_key machine key) (tilemap_rotate s))"
    and "tilemap_rotate (tilemap_keys_navigate (with_key machine key) s) = tilemap_rotate s"
    and "tilemap_which (tilemap_keys_navigate (with_key machine key) s) = tilemap_which s"
    using n by simp_all
qed

lemma tilemap_handle_keys_with_key:
  assumes t: "byindex (tilemaps machine) (tilemap_which s) = Some t"
    and pos: "0 < tmap_width t" "int (tmap_width t) \<le> 2 ^ 31"
      "0 < tmap_height t" "int (tmap_height t) \<le> 2 ^ 31"
    and key: "key \<in> {IPT_UI_UP, IPT_UI_DOWN, IPT_UI_LEFT, IPT_UI_RIGHT}"
    and r: "is_int32 (tilemap_xoffs s)" "is_int32 (tilemap_yoffs s)"
  shows "\<exists>s'. tilemap_handle_keys (with_key machine key) s = Some s'
           \<and> tilemap_xoffs s'
               = to_int32 (tilemap_xoffs s + tilemap_pan_x (with_key machine key) (tilemap_rotate s))
                   mod int (tmap_width t)
           \<and> tilemap_yoffs s'
               = to_int32 (tilemap_yoffs s + tilemap_pan_y (with_key machine key) (tilemap_rotate s))
                   mod int (tmap_height t)
           \<and> tilemap_rotate s' = tilemap_rotate s
           \<and> tilemap_which s' = tilemap_which s"
proof -
  let ?m = "with_key machine key"
  have np: "\<not> ui_pressed ?m IPT_UI_PREV_GROUP" "\<not> ui_pressed ?m IPT_UI_NEXT_GROUP"
    "\<not> ui_pressed ?m IPT_UI_ZOOM_OUT" "\<not> ui_pressed ?m IPT_UI_ZOOM_IN"
    "\<not> ui_pressed ?m IPT_UI_ROTATE" "\<not> ui_pressed ?m IPT_UI_HOME"
    "\<not> ui_pressed ?m IPT_UI_PAGE_UP" "\<not> ui_pressed ?m IPT_UI_PAGE_DOWN"
    "\<not> ui_pressed ?m IPT_UI_SNAPSHOT"
    using key by (auto simp: with_key_def)
  have tm: "tilemaps ?m = tilemaps machine" by (simp add: with_key_def)
  have id: "tilemap_keys_select ?m s = s" "tilemap_keys_zoom ?m s = s"
    "tilemap_keys_rotate ?m s = s" "tilemap_keys_home ?m s = s"
    "tilemap_keys_category ?m s = s"
    using np
    by (simp_all add: tilemap_keys_select_def tilemap_keys_zoom_def tilemap_keys_rotate_def
          tilemap_keys_home_def tilemap_keys_category_def Let_def)
  note nav = tilemap_keys_navigate_with_key [OF key r, of machine]
  have w: "0 < int (tmap_width t)" "0 < int (tmap_height t)" using pos by simp_all
  have ri: "is_int32 (tilemap_xoffs (tilemap_keys_navigate ?m s))"
    "is_int32 (tilemap_yoffs (tilemap_keys_navigate ?m s))"
    by (simp_all add: nav)
  have "tilemap_handle_keys ?m s
          = Some ((tilemap_keys_navigate ?m s)
                    \<lparr>tilemap_xoffs := tilemap_xoffs (tilemap_keys_navigate ?m s) mod int (tmap_width t),
                     tilemap_yoffs := tilemap_yoffs (tilemap_keys_navigate ?m s) mod int (tmap_height t)\<rparr>)"
    by (simp add: tilemap_handle_keys_def id tm t np
          tilemap_keys_wrap_pos [OF w(1) pos(2) w(2) pos(4) ri])
  then show ?thesis by (simp add: nav)
qed

lemma tilemap_pan_bound:
  assumes "key \<in> {IPT_UI_UP, IPT_UI_DOWN, IPT_UI_LEFT, IPT_UI_RIGHT}"
  shows "- 64 \<le> tilemap_pan_x (with_key machine key) rot"
    "tilemap_pan_x (with_key machine key) rot \<le> 64"
    "- 64 \<le> tilemap_pan_y (with_key machine key) rot"
    "tilemap_pan_y (with_key machine key) rot \<le> 64"
  using assms
  by (auto simp: tilemap_pan_x_def tilemap_pan_y_def with_key_def tilemap_keys_step_def Let_def)

lemma tilemap_pan_safe_step:
  assumes "tilemap_pan_safe x" "- 64 \<le> d" "d \<le> 64"
  shows "to_int32 (x + d) = x + d" "is_int32 x"
  using assms by (simp_all add: tilemap_pan_safe_def is_int32_def to_int32_id)

lemma tilemap_pan_safe_wrapped:
  assumes "0 \<le> x" "x < w" "w \<le> 2 ^ 31 - 64"
  shows "tilemap_pan_safe x"
  using assms by (simp add: tilemap_pan_safe_def is_int32_def)

lemma tilemap_handle_keys_with_key_safe:
  assumes t: "byindex (tilemaps machine) (tilemap_which s) = Some t"
    and pos: "0 < tmap_width t" "int (tmap_width t) \<le> 2 ^ 31 - 64"
      "0 < tmap_height t" "int (tmap_height t) \<le> 2 ^ 31 - 64"
    and key: "key \<in> {IPT_UI_UP, IPT_UI_DOWN, IPT_UI_LEFT, IPT_UI_RIGHT}"
    and safe: "tilemap_pan_safe (tilemap_xoffs s)" "tilemap_pan_safe (tilemap_yoffs s)"
  shows "\<exists>s'. tilemap_handle_keys (with_key machine key) s = Some s'
           \<and> tilemap_xoffs s' = (tilemap_xoffs s + tilemap_pan_x (with_key machine key) (tilemap_rotate s))
                                   mod int (tmap_width t)
           \<and> tilemap_yoffs s' = (tilemap_yoffs s + tilemap_pan_y (with_key machine key) (tilemap_rotate s))
                                   mod int (tmap_height t)
           \<and> tilemap_rotate s' = tilemap_rotate s
           \<and> tilemap_which s' = tilemap_which s
           \<and> tilemap_offsets_wrapped t s'
           \<and> tilemap_pan_safe (tilemap_xoffs s') \<and> tilemap_pan_safe (tilemap_yoffs s')"
proof -
  note b = tilemap_pan_bound [OF key, of machine "tilemap_rotate s"]
  note x = tilemap_pan_safe_step [OF safe(1) b(1,2)]
  note y = tilemap_pan_safe_step [OF safe(2) b(3,4)]
  have le: "int (tmap_width t) \<le> 2 ^ 31" "int (tmap_height t) \<le> 2 ^ 31"
    using pos(2,4) by simp_all
  from tilemap_handle_keys_with_key [OF t pos(1) le(1) pos(3) le(2) key x(2) y(2)]
  obtain s' where s': "tilemap_handle_keys (with_key machine key) s = Some s'"
      "tilemap_xoffs s' = (tilemap_xoffs s + tilemap_pan_x (with_key machine key) (tilemap_rotate s))
                                   mod int (tmap_width t)"
      "tilemap_yoffs s' = (tilemap_yoffs s + tilemap_pan_y (with_key machine key) (tilemap_rotate s))
                                   mod int (tmap_height t)"
      "tilemap_rotate s' = tilemap_rotate s" "tilemap_which s' = tilemap_which s"
    unfolding x(1) y(1) by blast
  have wr: "0 \<le> tilemap_xoffs s'" "tilemap_xoffs s' < int (tmap_width t)"
    "0 \<le> tilemap_yoffs s'" "tilemap_yoffs s' < int (tmap_height t)"
    using s'(2,3) pos(1,3) by simp_all
  have "tilemap_pan_safe (tilemap_xoffs s')" "tilemap_pan_safe (tilemap_yoffs s')"
    using tilemap_pan_safe_wrapped [OF wr(1,2) pos(2)] tilemap_pan_safe_wrapped [OF wr(3,4) pos(4)]
    by simp_all
  then show ?thesis using s' wr by (simp add: tilemap_offsets_wrapped_def)
qed

lemma tilemap_handle_keys_times_with_key:
  assumes t: "byindex (tilemaps machine) (tilemap_which s) = Some t"
    and pos: "0 < tmap_width t" "int (tmap_width t) \<le> 2 ^ 31 - 64"
      "0 < tmap_height t" "int (tmap_height t) \<le> 2 ^ 31 - 64"
    and key: "key \<in> {IPT_UI_UP, IPT_UI_DOWN, IPT_UI_LEFT, IPT_UI_RIGHT}"
    and safe: "tilemap_pan_safe (tilemap_xoffs s)" "tilemap_pan_safe (tilemap_yoffs s)"
  shows "\<exists>s'. tilemap_handle_keys_times n (with_key machine key) s = Some s'
           \<and> tilemap_xoffs s' mod int (tmap_width t)
               = (tilemap_xoffs s + int n * tilemap_pan_x (with_key machine key) (tilemap_rotate s))
                   mod int (tmap_width t)
           \<and> tilemap_yoffs s' mod int (tmap_height t)
               = (tilemap_yoffs s + int n * tilemap_pan_y (with_key machine key) (tilemap_rotate s))
                   mod int (tmap_height t)
           \<and> (0 < n \<longrightarrow> tilemap_offsets_wrapped t s')
           \<and> tilemap_pan_safe (tilemap_xoffs s') \<and> tilemap_pan_safe (tilemap_yoffs s')
           \<and> tilemap_rotate s' = tilemap_rotate s
           \<and> tilemap_which s' = tilemap_which s"
  using t safe
proof (induction n arbitrary: s)
  case 0
  then show ?case by simp
next
  case (Suc n)
  let ?m = "with_key machine key"
  let ?px = "tilemap_pan_x ?m (tilemap_rotate s)"
  let ?py = "tilemap_pan_y ?m (tilemap_rotate s)"
  let ?w = "int (tmap_width t)"
  let ?h = "int (tmap_height t)"
  from tilemap_handle_keys_with_key_safe [OF Suc.prems(1) pos key Suc.prems(2,3)]
  obtain s1 where s1: "tilemap_handle_keys ?m s = Some s1"
      "tilemap_xoffs s1 = (tilemap_xoffs s + ?px) mod ?w"
      "tilemap_yoffs s1 = (tilemap_yoffs s + ?py) mod ?h"
      "tilemap_rotate s1 = tilemap_rotate s" "tilemap_which s1 = tilemap_which s"
      "tilemap_offsets_wrapped t s1"
      "tilemap_pan_safe (tilemap_xoffs s1)" "tilemap_pan_safe (tilemap_yoffs s1)"
    by blast
  have t1: "byindex (tilemaps machine) (tilemap_which s1) = Some t"
    using Suc.prems(1) s1(5) by simp
  from Suc.IH [OF t1 s1(7,8)]
  obtain s' where s': "tilemap_handle_keys_times n ?m s1 = Some s'"
      "tilemap_xoffs s' mod ?w = (tilemap_xoffs s1 + int n * ?px) mod ?w"
      "tilemap_yoffs s' mod ?h = (tilemap_yoffs s1 + int n * ?py) mod ?h"
      "0 < n \<longrightarrow> tilemap_offsets_wrapped t s'"
      "tilemap_pan_safe (tilemap_xoffs s')" "tilemap_pan_safe (tilemap_yoffs s')"
      "tilemap_rotate s' = tilemap_rotate s" "tilemap_which s' = tilemap_which s"
    by (auto simp: s1(4,5))
  have x: "tilemap_xoffs s' mod ?w = (tilemap_xoffs s + int (Suc n) * ?px) mod ?w"
  proof -
    have "((tilemap_xoffs s + ?px) mod ?w + int n * ?px) mod ?w
            = ((tilemap_xoffs s + ?px) + int n * ?px) mod ?w"
      by (rule mod_add_left_eq)
    then show ?thesis by (simp add: s'(2) s1(2) algebra_simps)
  qed
  have y: "tilemap_yoffs s' mod ?h = (tilemap_yoffs s + int (Suc n) * ?py) mod ?h"
  proof -
    have "((tilemap_yoffs s + ?py) mod ?h + int n * ?py) mod ?h
            = ((tilemap_yoffs s + ?py) + int n * ?py) mod ?h"
      by (rule mod_add_left_eq)
    then show ?thesis by (simp add: s'(3) s1(3) algebra_simps)
  qed
  have r: "tilemap_offsets_wrapped t s'"
  proof (cases "0 < n")
    case True
    then show ?thesis using s'(4) by simp
  next
    case False
    then have "s' = s1" using s'(1) by simp
    then show ?thesis using s1(6) by simp
  qed
  show ?case
    using s1(1) s'(1) x y r s'(5,6,7,8) by simp
qed

lemma tilemap_pan_opposite:
  "tilemap_pan_x (with_key machine IPT_UI_UP) rot = - tilemap_pan_x (with_key machine IPT_UI_DOWN) rot"
  "tilemap_pan_y (with_key machine IPT_UI_UP) rot = - tilemap_pan_y (with_key machine IPT_UI_DOWN) rot"
  "tilemap_pan_x (with_key machine IPT_UI_LEFT) rot = - tilemap_pan_x (with_key machine IPT_UI_RIGHT) rot"
  "tilemap_pan_y (with_key machine IPT_UI_LEFT) rot = - tilemap_pan_y (with_key machine IPT_UI_RIGHT) rot"
  by (simp_all add: tilemap_pan_x_def tilemap_pan_y_def with_key_def tilemap_keys_step_def Let_def)

lemma tilemap_keys_step_values: "tilemap_keys_step machine \<in> {1, 8, 64}"
  by (simp add: tilemap_keys_step_def Let_def)

lemma tilemap_round_trip:
  assumes t: "byindex (tilemaps machine) (tilemap_which s) = Some t"
    and pos: "0 < tmap_width t" "int (tmap_width t) \<le> 2 ^ 31 - 64"
      "0 < tmap_height t" "int (tmap_height t) \<le> 2 ^ 31 - 64"
    and keys: "forth \<in> {IPT_UI_UP, IPT_UI_DOWN, IPT_UI_LEFT, IPT_UI_RIGHT}"
      "back \<in> {IPT_UI_UP, IPT_UI_DOWN, IPT_UI_LEFT, IPT_UI_RIGHT}"
    and safe: "tilemap_pan_safe (tilemap_xoffs s)" "tilemap_pan_safe (tilemap_yoffs s)"
    and opp: "tilemap_pan_x (with_key machine back) (tilemap_rotate s)
                = - tilemap_pan_x (with_key machine forth) (tilemap_rotate s)"
      "tilemap_pan_y (with_key machine back) (tilemap_rotate s)
                = - tilemap_pan_y (with_key machine forth) (tilemap_rotate s)"
  shows "\<exists>s1 s2. tilemap_handle_keys_times n (with_key machine forth) s = Some s1
           \<and> tilemap_handle_keys_times n (with_key machine back) s1 = Some s2
           \<and> tilemap_xoffs s2 mod int (tmap_width t) = tilemap_xoffs s mod int (tmap_width t)
           \<and> tilemap_yoffs s2 mod int (tmap_height t) = tilemap_yoffs s mod int (tmap_height t)
           \<and> (0 < n \<longrightarrow> tilemap_xoffs s2 = tilemap_xoffs s mod int (tmap_width t)
                        \<and> tilemap_yoffs s2 = tilemap_yoffs s mod int (tmap_height t))
           \<and> (\<forall>k. 0 < k \<longrightarrow>
                 (\<exists>s'. tilemap_handle_keys_times k (with_key machine forth) s = Some s'
                        \<and> tilemap_offsets_wrapped t s')
                 \<and> (\<exists>s'. tilemap_handle_keys_times k (with_key machine back) s1 = Some s'
                        \<and> tilemap_offsets_wrapped t s'))"
proof -
  let ?w = "int (tmap_width t)"
  let ?h = "int (tmap_height t)"
  let ?px = "tilemap_pan_x (with_key machine forth) (tilemap_rotate s)"
  let ?py = "tilemap_pan_y (with_key machine forth) (tilemap_rotate s)"
  from tilemap_handle_keys_times_with_key [OF t pos keys(1) safe, of n]
  obtain s1 where s1: "tilemap_handle_keys_times n (with_key machine forth) s = Some s1"
      "tilemap_xoffs s1 mod ?w = (tilemap_xoffs s + int n * ?px) mod ?w"
      "tilemap_yoffs s1 mod ?h = (tilemap_yoffs s + int n * ?py) mod ?h"
      "tilemap_rotate s1 = tilemap_rotate s" "tilemap_which s1 = tilemap_which s"
      "tilemap_pan_safe (tilemap_xoffs s1)" "tilemap_pan_safe (tilemap_yoffs s1)"
    by blast
  have t1: "byindex (tilemaps machine) (tilemap_which s1) = Some t"
    using t s1(5) by simp
  from tilemap_handle_keys_times_with_key [OF t1 pos keys(2) s1(6,7), of n]
  obtain s2 where s2: "tilemap_handle_keys_times n (with_key machine back) s1 = Some s2"
      "tilemap_xoffs s2 mod ?w = (tilemap_xoffs s1 + int n * (- ?px)) mod ?w"
      "tilemap_yoffs s2 mod ?h = (tilemap_yoffs s1 + int n * (- ?py)) mod ?h"
      "0 < n \<longrightarrow> tilemap_offsets_wrapped t s2"
    by (auto simp: s1(4) opp)
  have x: "tilemap_xoffs s2 mod ?w = tilemap_xoffs s mod ?w"
  proof -
    have "(tilemap_xoffs s1 + int n * (- ?px)) mod ?w
            = (tilemap_xoffs s1 mod ?w + int n * (- ?px)) mod ?w"
      by (rule mod_add_left_eq [symmetric])
    also have "\<dots> = ((tilemap_xoffs s + int n * ?px) + int n * (- ?px)) mod ?w"
      by (simp only: s1(2) mod_add_left_eq)
    also have "\<dots> = tilemap_xoffs s mod ?w" by simp
    finally show ?thesis using s2(2) by simp
  qed
  have y: "tilemap_yoffs s2 mod ?h = tilemap_yoffs s mod ?h"
  proof -
    have "(tilemap_yoffs s1 + int n * (- ?py)) mod ?h
            = (tilemap_yoffs s1 mod ?h + int n * (- ?py)) mod ?h"
      by (rule mod_add_left_eq [symmetric])
    also have "\<dots> = ((tilemap_yoffs s + int n * ?py) + int n * (- ?py)) mod ?h"
      by (simp only: s1(3) mod_add_left_eq)
    also have "\<dots> = tilemap_yoffs s mod ?h" by simp
    finally show ?thesis using s2(3) by simp
  qed
  have z: "tilemap_xoffs s2 = tilemap_xoffs s mod ?w \<and> tilemap_yoffs s2 = tilemap_yoffs s mod ?h"
    if "0 < n"
  proof -
    have "tilemap_xoffs s2 mod ?w = tilemap_xoffs s2" "tilemap_yoffs s2 mod ?h = tilemap_yoffs s2"
      using s2(4) that by (simp_all add: tilemap_offsets_wrapped_def mod_pos_pos_trivial)
    then show ?thesis using x y by simp
  qed
  have e: "(\<exists>s'. tilemap_handle_keys_times k (with_key machine forth) s = Some s'
                        \<and> tilemap_offsets_wrapped t s')
           \<and> (\<exists>s'. tilemap_handle_keys_times k (with_key machine back) s1 = Some s'
                        \<and> tilemap_offsets_wrapped t s')" if "0 < k" for k
    using tilemap_handle_keys_times_with_key [OF t pos keys(1) safe, of k]
      tilemap_handle_keys_times_with_key [OF t1 pos keys(2) s1(6,7), of k] that
    by blast
  show ?thesis using s1(1) s2(1) x y z e by blast
qed

text \<open>
  C7, as the claim states it, fails for a starting offset from which a step leaves the
  range of the \<open>int\<close> that holds it. On a tilemap 100 by 60, from the offset \<open>2^31 - 1\<close>
  with the step 64 (left control held), Right then Left ends at the offset 51, where the
  original offset is 47 modulo 100: the sum wraps to \<open>- 2147483585\<close>, which is 15 modulo
  100.
\<close>

theorem tilemap_pan_counterexample:
  "\<exists>s1 s2.
     tilemap_handle_keys_times 1
       (with_key ((example_machine [] [] [example_tilemap 100 60])
                     \<lparr>code_pressed := (\<lambda>k. k = KEYCODE_LCONTROL)\<rparr>) IPT_UI_RIGHT)
       ((ui_gfx_init 0)\<lparr>tilemap_xoffs := 2147483647\<rparr>) = Some s1
     \<and> tilemap_handle_keys_times 1
       (with_key ((example_machine [] [] [example_tilemap 100 60])
                     \<lparr>code_pressed := (\<lambda>k. k = KEYCODE_LCONTROL)\<rparr>) IPT_UI_LEFT) s1 = Some s2
     \<and> tilemap_xoffs s1 = 15 \<and> tilemap_xoffs s2 = 51
     \<and> tilemap_xoffs ((ui_gfx_init 0)\<lparr>tilemap_xoffs := 2147483647\<rparr>) mod 100 = 47"
proof -
  let ?m = "(example_machine [] [] [example_tilemap 100 60])
              \<lparr>code_pressed := (\<lambda>k. k = KEYCODE_LCONTROL)\<rparr>"
  let ?s = "(ui_gfx_init 0)\<lparr>tilemap_xoffs := 2147483647\<rparr>"
  let ?t = "example_tilemap 100 60"
  have keys: "IPT_UI_RIGHT \<in> {IPT_UI_UP, IPT_UI_DOWN, IPT_UI_LEFT, IPT_UI_RIGHT}"
    "IPT_UI_LEFT \<in> {IPT_UI_UP, IPT_UI_DOWN, IPT_UI_LEFT, IPT_UI_RIGHT}"
    by simp_all
  have pos: "0 < tmap_width ?t" "int (tmap_width ?t) \<le> 2 ^ 31"
    "0 < tmap_height ?t" "int (tmap_height ?t) \<le> 2 ^ 31"
    by (simp_all add: example_tilemap_def)
  have w: "int (tmap_width ?t) = 100" by (simp add: example_tilemap_def)
  have t: "byindex (tilemaps ?m) (tilemap_which ?s) = Some ?t"
    by (simp add: byindex_def example_machine_def ui_gfx_init_def)
  have r: "is_int32 (tilemap_xoffs ?s)" "is_int32 (tilemap_yoffs ?s)"
    by (simp_all add: is_int32_def ui_gfx_init_def)
  have rot: "tilemap_rotate ?s = 0" by (simp add: ui_gfx_init_def)
  have pr: "tilemap_pan_x (with_key ?m IPT_UI_RIGHT) 0 = 64"
    "tilemap_pan_x (with_key ?m IPT_UI_LEFT) 0 = - 64"
    by (simp_all add: tilemap_pan_x_def with_key_def tilemap_keys_step_def example_machine_def
          ORIENTATION_SWAP_XY_def ORIENTATION_FLIP_X_def ORIENTATION_FLIP_Y_def Let_def)
  from tilemap_handle_keys_with_key [OF t pos keys(1) r]
  obtain s1 where s1: "tilemap_handle_keys (with_key ?m IPT_UI_RIGHT) ?s = Some s1"
      "tilemap_xoffs s1 = to_int32 (tilemap_xoffs ?s + 64) mod 100"
      "tilemap_yoffs s1 = to_int32 (tilemap_yoffs ?s
          + tilemap_pan_y (with_key ?m IPT_UI_RIGHT) (tilemap_rotate ?s)) mod int (tmap_height ?t)"
      "tilemap_rotate s1 = 0" "tilemap_which s1 = tilemap_which ?s"
    unfolding rot pr w by blast
  have x1: "tilemap_xoffs s1 = 15" unfolding s1(2) by (simp add: to_int32_def)
  have t1: "byindex (tilemaps ?m) (tilemap_which s1) = Some ?t" using t s1(5) by simp
  have r1: "is_int32 (tilemap_xoffs s1)" "is_int32 (tilemap_yoffs s1)"
  proof -
    show "is_int32 (tilemap_xoffs s1)" by (simp add: x1 is_int32_def)
    have "0 \<le> tilemap_yoffs s1" "tilemap_yoffs s1 < int (tmap_height ?t)"
      using pos(3) unfolding s1(3) by simp_all
    then show "is_int32 (tilemap_yoffs s1)" using pos(4) by (simp add: is_int32_def)
  qed
  from tilemap_handle_keys_with_key [OF t1 pos keys(2) r1]
  obtain s2 where s2: "tilemap_handle_keys (with_key ?m IPT_UI_LEFT) s1 = Some s2"
      "tilemap_xoffs s2 = to_int32 (tilemap_xoffs s1 + - 64) mod 100"
    unfolding s1(4) pr w by blast
  have x2: "tilemap_xoffs s2 = 51" unfolding s2(2) x1 by (simp add: to_int32_def)
  have "tilemap_handle_keys_times 1 (with_key ?m IPT_UI_RIGHT) ?s = Some s1"
    "tilemap_handle_keys_times 1 (with_key ?m IPT_UI_LEFT) s1 = Some s2"
    using s1(1) s2(1) by simp_all
  moreover have "tilemap_xoffs ?s mod 100 = 47" by simp
  ultimately show ?thesis using x1 x2 by blast
qed

text \<open>
  C7, amended: on a tilemap whose width and height are positive and at most \<open>2^31 - 64\<close>,
  from starting pan offsets that a step of 64 either way leaves within the range of an
  \<open>int\<close> (as the offsets within the map are), for any rotation code, any pan step (1, 8 or
  64, by the modifier keys held) and any number \<open>n\<close> of repetitions: the Down key for \<open>n\<close>
  frames followed by the Up key for \<open>n\<close> frames (or Right followed by Left) returns, and
  leaves \<open>xoffs\<close> and \<open>yoffs\<close> equal to their original values modulo the map width and
  height; after every frame of these keys, and after a frame of any of the four direction
  keys, the offsets are within \<open>[0, map width)\<close> and \<open>[0, map height)\<close>.
\<close>

theorem tilemap_pan_round_trip:
  assumes "byindex (tilemaps machine) (tilemap_which state) = Some tilemap"
    and "0 < tmap_width tilemap" "int (tmap_width tilemap) \<le> 2 ^ 31 - 64"
    and "0 < tmap_height tilemap" "int (tmap_height tilemap) \<le> 2 ^ 31 - 64"
    and "tilemap_pan_safe (tilemap_xoffs state)" "tilemap_pan_safe (tilemap_yoffs state)"
    and "(forth, back) = (IPT_UI_DOWN, IPT_UI_UP) \<or> (forth, back) = (IPT_UI_RIGHT, IPT_UI_LEFT)"
  shows "tilemap_keys_step machine \<in> {1, 8, 64}
     \<and> (\<exists>s1 s2. tilemap_handle_keys_times n (with_key machine forth) state = Some s1
           \<and> tilemap_handle_keys_times n (with_key machine back) s1 = Some s2
           \<and> tilemap_xoffs s2 mod int (tmap_width tilemap)
               = tilemap_xoffs state mod int (tmap_width tilemap)
           \<and> tilemap_yoffs s2 mod int (tmap_height tilemap)
               = tilemap_yoffs state mod int (tmap_height tilemap)
           \<and> (0 < n \<longrightarrow> tilemap_xoffs s2 = tilemap_xoffs state mod int (tmap_width tilemap)
                        \<and> tilemap_yoffs s2 = tilemap_yoffs state mod int (tmap_height tilemap))
           \<and> (\<forall>k. 0 < k \<longrightarrow>
                 (\<exists>s'. tilemap_handle_keys_times k (with_key machine forth) state = Some s'
                        \<and> tilemap_offsets_wrapped tilemap s')
                 \<and> (\<exists>s'. tilemap_handle_keys_times k (with_key machine back) s1 = Some s'
                        \<and> tilemap_offsets_wrapped tilemap s')))
     \<and> (\<forall>key \<in> {IPT_UI_UP, IPT_UI_DOWN, IPT_UI_LEFT, IPT_UI_RIGHT}.
           \<exists>s'. tilemap_handle_keys (with_key machine key) state = Some s'
                \<and> tilemap_offsets_wrapped tilemap s')"
proof -
  have keys: "forth \<in> {IPT_UI_UP, IPT_UI_DOWN, IPT_UI_LEFT, IPT_UI_RIGHT}"
    "back \<in> {IPT_UI_UP, IPT_UI_DOWN, IPT_UI_LEFT, IPT_UI_RIGHT}"
    using assms(8) by auto
  have opp: "tilemap_pan_x (with_key machine back) (tilemap_rotate state)
                = - tilemap_pan_x (with_key machine forth) (tilemap_rotate state)"
      "tilemap_pan_y (with_key machine back) (tilemap_rotate state)
                = - tilemap_pan_y (with_key machine forth) (tilemap_rotate state)"
    using assms(8) by (auto simp: tilemap_pan_opposite)
  note a = tilemap_round_trip [OF assms(1,2,3,4,5) keys assms(6,7) opp, of n]
  have b: "\<exists>s'. tilemap_handle_keys (with_key machine key) state = Some s'
                \<and> tilemap_offsets_wrapped tilemap s'"
    if "key \<in> {IPT_UI_UP, IPT_UI_DOWN, IPT_UI_LEFT, IPT_UI_RIGHT}" for key
    using tilemap_handle_keys_with_key_safe [OF assms(1,2,3,4,5) that assms(6,7)] by blast
  show ?thesis using a b tilemap_keys_step_values [of machine] by blast
qed

text \<open>C7, witness: a tilemap 256 by 128 shown turned by a quarter (code 5), the left
  control key held (step 64), from the offsets \<open>(200, 100)\<close>: Down for 3 frames, then Up
  for 3 frames.\<close>

theorem tilemap_pan_round_trip_witness:
  "byindex (tilemaps ((example_machine [] [] [example_tilemap 256 128])
                        \<lparr>code_pressed := (\<lambda>k. k = KEYCODE_LCONTROL)\<rparr>))
     (tilemap_which ((ui_gfx_init 5)\<lparr>tilemap_xoffs := 200, tilemap_yoffs := 100\<rparr>))
     = Some (example_tilemap 256 128)
   \<and> 0 < tmap_width (example_tilemap 256 128) \<and> 0 < tmap_height (example_tilemap 256 128)
   \<and> tilemap_pan_safe (tilemap_xoffs ((ui_gfx_init 5)\<lparr>tilemap_xoffs := 200, tilemap_yoffs := 100\<rparr>))
   \<and> tilemap_pan_safe (tilemap_yoffs ((ui_gfx_init 5)\<lparr>tilemap_xoffs := 200, tilemap_yoffs := 100\<rparr>))
   \<and> tilemap_keys_step ((example_machine [] [] [example_tilemap 256 128])
                        \<lparr>code_pressed := (\<lambda>k. k = KEYCODE_LCONTROL)\<rparr>) = 64
   \<and> (\<exists>s1 s2.
        tilemap_handle_keys_times 3
          (with_key ((example_machine [] [] [example_tilemap 256 128])
                        \<lparr>code_pressed := (\<lambda>k. k = KEYCODE_LCONTROL)\<rparr>) IPT_UI_DOWN)
          ((ui_gfx_init 5)\<lparr>tilemap_xoffs := 200, tilemap_yoffs := 100\<rparr>) = Some s1
        \<and> tilemap_handle_keys_times 3
          (with_key ((example_machine [] [] [example_tilemap 256 128])
                        \<lparr>code_pressed := (\<lambda>k. k = KEYCODE_LCONTROL)\<rparr>) IPT_UI_UP) s1 = Some s2
        \<and> tilemap_xoffs s2 = 200 \<and> tilemap_yoffs s2 = 100)"
proof -
  let ?m = "(example_machine [] [] [example_tilemap 256 128])
              \<lparr>code_pressed := (\<lambda>k. k = KEYCODE_LCONTROL)\<rparr>"
  let ?s = "(ui_gfx_init 5)\<lparr>tilemap_xoffs := 200, tilemap_yoffs := 100\<rparr>"
  have t: "byindex (tilemaps ?m) (tilemap_which ?s) = Some (example_tilemap 256 128)"
    by (simp add: byindex_def example_machine_def ui_gfx_init_def)
  have pos: "0 < tmap_width (example_tilemap 256 128)"
    "int (tmap_width (example_tilemap 256 128)) \<le> 2 ^ 31 - 64"
    "0 < tmap_height (example_tilemap 256 128)"
    "int (tmap_height (example_tilemap 256 128)) \<le> 2 ^ 31 - 64"
    by (simp_all add: example_tilemap_def)
  have safe: "tilemap_pan_safe (tilemap_xoffs ?s)" "tilemap_pan_safe (tilemap_yoffs ?s)"
    by (simp_all add: tilemap_pan_safe_def is_int32_def)
  have k: "(IPT_UI_DOWN, IPT_UI_UP) = (IPT_UI_DOWN, IPT_UI_UP)
             \<or> (IPT_UI_DOWN, IPT_UI_UP) = (IPT_UI_RIGHT, IPT_UI_LEFT)"
    by simp
  have st: "tilemap_keys_step ?m = 64"
    by (simp add: tilemap_keys_step_def example_machine_def)
  have w: "int (tmap_width (example_tilemap 256 128)) = 256"
    "int (tmap_height (example_tilemap 256 128)) = 128"
    "tilemap_xoffs ?s = 200" "tilemap_yoffs ?s = 100"
    by (simp_all add: example_tilemap_def)
  note th = tilemap_pan_round_trip [OF t pos safe k, of 3]
  have "\<exists>s1 s2. tilemap_handle_keys_times 3 (with_key ?m IPT_UI_DOWN) ?s = Some s1
           \<and> tilemap_handle_keys_times 3 (with_key ?m IPT_UI_UP) s1 = Some s2
           \<and> tilemap_xoffs s2 = 200 \<and> tilemap_yoffs s2 = 100"
    using th [THEN conjunct2, THEN conjunct1] unfolding w
    by (elim exE conjE, intro exI conjI) (assumption, assumption, simp_all)
  with t pos(1,3) safe st show ?thesis by (intro conjI)
qed

subsection \<open>The range of color values of a set\<close>

lemma count_devices_slot_Some:
  assumes "count_devices_slot interface state slot info = Some info'"
  shows "\<exists>gfx. interface slot = Some gfx
           \<and> color_count_recorded (palette_interface state) gfx (info_color_count info' slot)"
    and "info_interface info' = info_interface info"
    and "info_setcount info' = info_setcount info"
    and "j \<noteq> slot \<Longrightarrow> info_color_count info' j = info_color_count info j"
  using assms
  by (auto simp: count_devices_slot_def color_count_recorded_def Let_def
        split: option.splits if_splits)

lemma count_devices_slots_Some:
  assumes "count_devices_slots interface state slots info = Some info'"
  shows "info_interface info' = info_interface info \<and> info_setcount info' = info_setcount info
         \<and> (\<forall>j. j \<notin> set slots \<longrightarrow> info_color_count info' j = info_color_count info j)"
  using assms
proof (induction slots arbitrary: info)
  case Nil
  then show ?case by simp
next
  case (Cons slot slots)
  then obtain info1 where s: "count_devices_slot interface state slot info = Some info1"
      "count_devices_slots interface state slots info1 = Some info'"
    by (auto split: option.splits)
  from Cons.IH [OF s(2)] count_devices_slot_Some(2,3,4) [OF s(1)]
  show ?case by auto
qed

lemma count_devices_slots_recorded:
  assumes "count_devices_slots interface state slots info = Some info'" "distinct slots"
    "slot \<in> set slots"
  shows "\<exists>gfx. interface slot = Some gfx
           \<and> color_count_recorded (palette_interface state) gfx (info_color_count info' slot)"
  using assms
proof (induction slots arbitrary: info)
  case Nil
  then show ?case by simp
next
  case (Cons a slots)
  then obtain info1 where s: "count_devices_slot interface state a info = Some info1"
      "count_devices_slots interface state slots info1 = Some info'"
    by (auto split: option.splits)
  show ?case
  proof (cases "slot = a")
    case True
    then have "slot \<notin> set slots" using Cons.prems(2) by simp
    then have "info_color_count info' slot = info_color_count info1 slot"
      using count_devices_slots_Some [OF s(2)] by simp
    then show ?thesis using count_devices_slot_Some(1) [OF s(1)] True by simp
  next
    case False
    then have "slot \<in> set slots" using Cons.prems(3) by simp
    moreover have "distinct slots" using Cons.prems(2) by simp
    ultimately show ?thesis using Cons.IH [OF s(2)] by blast
  qed
qed

lemma count_devices_loop_counted:
  assumes "count_devices_loop interfaces state = Some state'"
    and "\<forall>d < gfxset_devcount state. info_counted (palette_interface state) (gfxdev state d)"
  shows "palette_interface state' = palette_interface state
         \<and> (\<forall>d < gfxset_devcount state'. info_counted (palette_interface state) (gfxdev state' d))"
  using assms
proof (induction interfaces arbitrary: state)
  case Nil
  then show ?case by simp
next
  case (Cons interface rest)
  define count where "count = count_gfx_sets interface 0"
  show ?case
  proof (cases "count > 0")
    case False
    then have "count_devices_loop rest state = Some state'"
      using Cons.prems(1) by (simp add: count_def Let_def)
    from Cons.IH [OF this Cons.prems(2)] show ?thesis .
  next
    case True
    define d where "d = gfxset_devcount state"
    define info where
      "info = (gfxdev state d)\<lparr>info_interface := Some interface, info_setcount := count\<rparr>"
    obtain info' where i: "count_devices_slots interface state [0..<count] info = Some info'"
      using Cons.prems(1) True
      by (auto simp: count_def [symmetric] d_def [symmetric] info_def [symmetric] Let_def
            split: option.splits)
    define s1 where "s1 = state\<lparr>gfxdev := (gfxdev state)(d := info'), gfxset_devcount := d + 1\<rparr>"
    have r: "(if d + 1 = MAX_GFX_DECODERS then Some s1 else count_devices_loop rest s1) = Some state'"
      using Cons.prems(1) True i
      by (auto simp: count_def [symmetric] d_def [symmetric] info_def [symmetric] Let_def
            s1_def split: if_splits)
    have p1: "palette_interface s1 = palette_interface state" by (simp add: s1_def)
    have f: "info_interface info' = Some interface" "info_setcount info' = count"
      using count_devices_slots_Some [OF i] by (simp_all add: info_def)
    have "\<exists>gfx. interface slot = Some gfx
            \<and> color_count_recorded (palette_interface state) gfx (info_color_count info' slot)"
      if "slot < count" for slot
      using count_devices_slots_recorded [OF i, of slot] that by simp
    then have c: "info_counted (palette_interface state) info'"
      using f by (auto simp: info_counted_def)
    have inv: "\<forall>e < gfxset_devcount s1. info_counted (palette_interface s1) (gfxdev s1 e)"
      using Cons.prems(2) c by (auto simp: s1_def d_def less_Suc_eq)
    show ?thesis
    proof (cases "d + 1 = MAX_GFX_DECODERS")
      case True
      then have "state' = s1" using r by simp
      then show ?thesis using inv p1 by simp
    next
      case False
      then have "count_devices_loop rest s1 = Some state'" using r by simp
      from Cons.IH [OF this inv] show ?thesis by (simp add: p1)
    qed
  qed
qed

lemma ui_gfx_count_devices_counted:
  assumes "ui_gfx_count_devices machine state = Some state'" "dev < gfxset_devcount state'"
  shows "info_counted (palette_interface state') (gfxdev state' dev)"
proof -
  define s3 where
    "s3 = (let s1 = state\<lparr>palette_devcount := int (length (palette_devices machine))\<rparr>;
               s2 = (if palette_devcount s1 > 0 then palette_set_device machine s1 else s1)
           in s2\<lparr>gfxset_devcount := 0\<rparr>)"
  obtain s4 where s4: "count_devices_loop (gfx_devices machine) s3 = Some s4"
      "state' = s4\<lparr>started := True\<rparr>"
    using assms(1) by (auto simp: ui_gfx_count_devices_def s3_def Let_def split: option.splits)
  have "\<forall>d < gfxset_devcount s3. info_counted (palette_interface s3) (gfxdev s3 d)"
    by (simp add: s3_def Let_def)
  from count_devices_loop_counted [OF s4(1) this] assms(2) s4(2) show ?thesis by simp
qed

lemma color_count_recorded_at_least_1:
  assumes "color_count_recorded (Some p) gfx cc" "gfx_palette gfx = None"
    "pal_entries p div gfx_granularity gfx < 2 ^ 31"
  shows "1 \<le> cc"
proof -
  let ?q = "int (pal_entries p div gfx_granularity gfx)"
  have "?q < 2 ^ 31" using assms(3) by (simp flip: of_nat_less_iff)
  then have "to_int32 ?q = ?q" by (intro to_int32_id) simp_all
  then show ?thesis using assms(1,2) by (auto simp: color_count_recorded_def split: if_splits)
qed

lemma gfxset_set_color_current [simp]:
  "gfxset_current_color (gfxset_set_color s c) = c"
  "gfxset_current_color_count (gfxset_set_color s c) = gfxset_current_color_count s"
  by (simp_all add: gfxset_set_color_def gfxset_current_color_def
        gfxset_current_color_count_def Let_def)

lemma gfxset_keys_color_clamped:
  "0 \<le> gfxset_current_color (gfxset_keys_color machine s)"
  "gfxset_current_color_count (gfxset_keys_color machine s) = gfxset_current_color_count s"
  "1 \<le> gfxset_current_color_count s \<Longrightarrow>
     gfxset_current_color (gfxset_keys_color machine s) < gfxset_current_color_count s"
  by (simp_all add: gfxset_keys_color_def Let_def)

text \<open>
  C10, as the claim states it, fails for a set that has a palette of its own: its range of
  color values is copied from the set (\<open>gfx->colors()\<close>) and is not forced to 1. A set
  with an embedded palette and no colors is recorded with a range of 0, and the color
  clamp then leaves the color 0, which is not below the range.
\<close>

theorem color_count_counterexample:
  "map_option (\<lambda>s. (gfxset_devcount s, info_setcount (gfxdev s 0), info_color_count (gfxdev s 0) 0))
     (ui_gfx_count_devices
        (example_machine [example_palette 16 0]
           [example_gfx_device [example_gfx 8 8 4 0 (Some (example_palette 16 0))]] [])
        (ui_gfx_init 0))
   = Some (1, 1, 0)
   \<and> map_option (\<lambda>s. (gfxset_current_color (gfxset_keys_color (example_machine [] [] []) s),
                      gfxset_current_color_count (gfxset_keys_color (example_machine [] [] []) s)))
     (ui_gfx_count_devices
        (example_machine [example_palette 16 0]
           [example_gfx_device [example_gfx 8 8 4 0 (Some (example_palette 16 0))]] [])
        (ui_gfx_init 0))
   = Some (0, 0)"
  by (simp add: ui_gfx_count_devices_def example_machine_def example_gfx_device_def
        example_gfx_def example_palette_def ui_gfx_init_def palette_set_device_def byindex_def
        count_gfx_sets.simps MAX_GFX_ELEMENTS_def MAX_GFX_DECODERS_def count_devices_slot_def
        gfxset_keys_color_def gfxset_set_color_def gfxset_current_color_def
        gfxset_current_color_count_def Let_def upt_rec to_int32_def)

text \<open>
  C10, amended: for every graphics set enumerated at session start, the set exists and
  its range of color values is recorded as follows. When the set has no embedded palette:
  the quotient of the entries of the current palette device by the granularity of the
  set, as the \<open>int\<close> that holds it, forced to 1 when it is zero; it is at least 1
  whenever the quotient is below \<open>2^31\<close>. When the set has an embedded palette: the set's
  own color count, as the \<open>int\<close> that holds it, not forced to 1. The selected-color clamp
  always produces a non-negative index, and an index below the color count whenever the
  color count is at least 1.
\<close>

theorem color_count_recorded_at_start:
  assumes "ui_gfx_count_devices machine state = Some state'"
    and "dev < gfxset_devcount state'" and "slot < info_setcount (gfxdev state' dev)"
  shows "(\<exists>interface gfx. info_interface (gfxdev state' dev) = Some interface
            \<and> interface slot = Some gfx
            \<and> color_count_recorded (palette_interface state') gfx
                 (info_color_count (gfxdev state' dev) slot)
            \<and> (gfx_palette gfx = None \<longrightarrow>
                 (\<exists>p. palette_interface state' = Some p
                    \<and> (pal_entries p div gfx_granularity gfx < 2 ^ 31
                         \<longrightarrow> 1 \<le> info_color_count (gfxdev state' dev) slot))))
         \<and> 0 \<le> gfxset_current_color (gfxset_keys_color keys s)
         \<and> gfxset_current_color_count (gfxset_keys_color keys s) = gfxset_current_color_count s
         \<and> (1 \<le> gfxset_current_color_count s
              \<longrightarrow> gfxset_current_color (gfxset_keys_color keys s) < gfxset_current_color_count s)"
proof -
  from ui_gfx_count_devices_counted [OF assms(1,2)] assms(3)
  obtain interface gfx where g: "info_interface (gfxdev state' dev) = Some interface"
      "interface slot = Some gfx"
      "color_count_recorded (palette_interface state') gfx
         (info_color_count (gfxdev state' dev) slot)"
    by (auto simp: info_counted_def)
  have "\<exists>p. palette_interface state' = Some p
          \<and> (pal_entries p div gfx_granularity gfx < 2 ^ 31
                \<longrightarrow> 1 \<le> info_color_count (gfxdev state' dev) slot)"
    if n: "gfx_palette gfx = None"
  proof -
    from g(3) n obtain p where p: "palette_interface state' = Some p"
      by (cases "palette_interface state'") (simp_all add: color_count_recorded_def)
    show ?thesis
      using color_count_recorded_at_least_1 [OF g(3) [unfolded p] n] p by blast
  qed
  then have "gfx_palette gfx = None \<longrightarrow>
                 (\<exists>p. palette_interface state' = Some p
                    \<and> (pal_entries p div gfx_granularity gfx < 2 ^ 31
                         \<longrightarrow> 1 \<le> info_color_count (gfxdev state' dev) slot))"
    by (rule impI)
  with g have "\<exists>interface gfx. info_interface (gfxdev state' dev) = Some interface
            \<and> interface slot = Some gfx
            \<and> color_count_recorded (palette_interface state') gfx
                 (info_color_count (gfxdev state' dev) slot)
            \<and> (gfx_palette gfx = None \<longrightarrow>
                 (\<exists>p. palette_interface state' = Some p
                    \<and> (pal_entries p div gfx_granularity gfx < 2 ^ 31
                         \<longrightarrow> 1 \<le> info_color_count (gfxdev state' dev) slot)))"
    by (intro exI conjI)
  then show ?thesis
    using gfxset_keys_color_clamped [where machine = keys and s = s] by simp
qed

text \<open>C10, witness: a set with no palette of its own and a granularity of 32, on a
  palette device of 16 entries: the quotient is zero and the recorded count is 1.\<close>

theorem color_count_recorded_at_start_witness:
  "\<exists>state'.
     ui_gfx_count_devices
       (example_machine [example_palette 16 0]
          [example_gfx_device [(example_gfx 8 8 4 2 None)\<lparr>gfx_granularity := 32\<rparr>]] [])
       (ui_gfx_init 0) = Some state'
     \<and> 0 < gfxset_devcount state' \<and> 0 < info_setcount (gfxdev state' 0)
     \<and> info_color_count (gfxdev state' 0) 0 = 1
     \<and> (\<exists>interface gfx. info_interface (gfxdev state' 0) = Some interface
            \<and> interface 0 = Some gfx
            \<and> color_count_recorded (palette_interface state') gfx
                 (info_color_count (gfxdev state' 0) 0))"
proof -
  let ?m = "example_machine [example_palette 16 0]
              [example_gfx_device [(example_gfx 8 8 4 2 None)\<lparr>gfx_granularity := 32\<rparr>]] []"
  have "\<exists>state'. ui_gfx_count_devices ?m (ui_gfx_init 0) = Some state'
          \<and> 0 < gfxset_devcount state' \<and> 0 < info_setcount (gfxdev state' 0)
          \<and> info_color_count (gfxdev state' 0) 0 = 1"
    by (simp add: ui_gfx_count_devices_def example_machine_def example_gfx_device_def
          example_gfx_def example_palette_def ui_gfx_init_def palette_set_device_def byindex_def
          count_gfx_sets.simps MAX_GFX_ELEMENTS_def MAX_GFX_DECODERS_def count_devices_slot_def
          Let_def upt_rec to_int32_def)
  then obtain state' where s: "ui_gfx_count_devices ?m (ui_gfx_init 0) = Some state'"
      "0 < gfxset_devcount state'" "0 < info_setcount (gfxdev state' 0)"
      "info_color_count (gfxdev state' 0) 0 = 1"
    by blast
  from color_count_recorded_at_start [OF s(1,2,3)] s show ?thesis by blast
qed

subsection \<open>The naming template with more than one device token\<close>

lemma str_find_Some:
  assumes "str_find str sub pos = Some i"
  shows "pos \<le> i" and "occurs_at str sub i"
    and "\<And>j. pos \<le> j \<Longrightarrow> j < i \<Longrightarrow> \<not> occurs_at str sub j"
proof -
  from assms obtain k where k: "k < length [pos..<Suc (length str)]"
      "occurs_at str sub ([pos..<Suc (length str)] ! k)" "i = [pos..<Suc (length str)] ! k"
      "\<forall>l < k. \<not> occurs_at str sub ([pos..<Suc (length str)] ! l)"
    unfolding str_find_def find_Some_iff by blast
  have ik: "i = pos + k" using k(1,3) by (simp del: upt_Suc)
  show "pos \<le> i" using ik by simp
  show "occurs_at str sub i" using k(2,3) by simp
  show "\<not> occurs_at str sub j" if "pos \<le> j" "j < i" for j
  proof -
    have "j - pos < k" using that ik by simp
    moreover have "[pos..<Suc (length str)] ! (j - pos) = j"
      using that ik k(1) by (simp del: upt_Suc)
    ultimately show ?thesis using k(4) by metis
  qed
qed

lemma str_find_not_None:
  assumes "occurs_at str sub j" "pos \<le> j"
  shows "str_find str sub pos \<noteq> None"
proof -
  have "j \<le> length str" using assms(1) by (simp add: occurs_at_def)
  then have "j \<in> set [pos..<Suc (length str)]" using assms(2) by (simp del: upt_Suc)
  then show ?thesis unfolding str_find_def find_None_iff using assms(1) by blast
qed

lemma token_chars:
  assumes "occurs_at str ''%d_'' i"
  shows "str ! i = CHR ''%''" "str ! (i + 1) = CHR ''d''" "str ! (i + 2) = CHR ''_''"
proof -
  have len: "i + 3 \<le> length str" and eq: "take 3 (drop i str) = ''%d_''"
    using assms by (simp_all add: occurs_at_def numeral_3_eq_3)
  have "take 3 (drop i str) ! 0 = str ! i" "take 3 (drop i str) ! 1 = str ! (i + 1)"
    "take 3 (drop i str) ! 2 = str ! (i + 2)"
    using len by simp_all
  then show "str ! i = CHR ''%''" "str ! (i + 1) = CHR ''d''" "str ! (i + 2) = CHR ''_''"
    unfolding eq by simp_all
qed

lemma tokens_apart:
  assumes "occurs_at str ''%d_'' i" "occurs_at str ''%d_'' j" "i < j"
  shows "i + 3 \<le> j"
proof (rule ccontr)
  assume "\<not> i + 3 \<le> j"
  then consider "j = i + 1" | "j = i + 2" using assms(3) by linarith
  then show False
  proof cases
    case 1
    then show ?thesis using token_chars(2) [OF assms(1)] token_chars(1) [OF assms(2)] by simp
  next
    case 2
    then show ?thesis using token_chars(3) [OF assms(1)] token_chars(1) [OF assms(2)] by simp
  qed
qed

lemma two_tokens_found:
  assumes "occurs_at str ''%d_'' i" "occurs_at str ''%d_'' j" "i \<noteq> j"
  shows "\<exists>pos. str_find str ''%d_'' 0 = Some pos \<and> str_find str ''%d_'' (pos + 3) \<noteq> None"
proof -
  obtain a b where ab: "occurs_at str ''%d_'' a" "occurs_at str ''%d_'' b" "a < b"
    using assms by (metis linorder_neqE_nat)
  obtain pos where pos: "str_find str ''%d_'' 0 = Some pos"
    using str_find_not_None [OF ab(1), of 0] by auto
  have "pos \<le> a"
    using str_find_Some(3) [OF pos, of a] ab(1) by (meson le0 not_le_imp_less)
  then have "pos < b" using ab(3) by simp
  then have "pos + 3 \<le> b" using tokens_apart [OF str_find_Some(2) [OF pos] ab(2)] by simp
  then have "str_find str ''%d_'' (pos + 3) \<noteq> None"
    using str_find_not_None [OF ab(2)] by simp
  with pos show ?thesis by blast
qed

lemma default_template_plain:
  "strip_extension ''%g/%i'' = ''%g/%i''" "str_find ''%g/%i'' ''%d_'' 0 = None"
  by code_simp+

lemma snapshot_template_default:
  "snapshot_template (machine\<lparr>snap_name := None\<rparr>) = Some ''%g/%i''"
  by (simp add: snapshot_template_def default_template_plain)

lemma next_file_name_template:
  assumes "snapshot_template m1 = snapshot_template m2"
    "PATH_SEPARATOR m1 = PATH_SEPARATOR m2" "machine_basename m1 = machine_basename m2"
  shows "next_file_name readable m1 basename extension
           = next_file_name readable m2 basename extension"
  by (simp add: next_file_name_def assms)

text \<open>
  C9, as the claim states it, fails: the extension is stripped first, at the last dot of
  the whole template. The template \<open>x.%d_a%d_b\<close> holds two device tokens, both behind
  its only dot; the template used is \<open>x\<close>, which is not the default, and every file of
  the export is named \<open>x.png\<close>.
\<close>

theorem snapshot_template_counterexample:
  "occurs_at ''x.%d_a%d_b'' ''%d_'' 2 \<and> occurs_at ''x.%d_a%d_b'' ''%d_'' 6
   \<and> snapshot_template ((example_machine [] [] [])\<lparr>snap_name := Some ''x.%d_a%d_b''\<rparr>) = Some ''x''
   \<and> snapshot_template ((example_machine [] [] [])\<lparr>snap_name := Some ''x.%d_a%d_b''\<rparr>)
        \<noteq> Some ''%g/%i''
   \<and> next_file_name (\<lambda>f. False) ((example_machine [] [] [])\<lparr>snap_name := Some ''x.%d_a%d_b''\<rparr>)
        ''gfxset0'' ''png'' = Some ''x.png''"
  by code_simp

text \<open>
  C9, amended: when the configured snapshot template, once its extension (everything from
  its last dot) is stripped, contains more than one device token \<open>%d_\<close>, the filename
  builder does not fail in resolving the template: it discards the template and falls
  back to the default \<open>%g/%i\<close> (game name and base name with an auto-incrementing index),
  so that \<open>open_next_file\<close> behaves, for every export instance, as with no template
  configured.
\<close>

theorem snapshot_template_falls_back:
  assumes "snap_name machine = Some t"
    and "occurs_at (strip_extension t) ''%d_'' i" "occurs_at (strip_extension t) ''%d_'' j"
    and "i \<noteq> j"
  shows "snapshot_template machine = Some ''%g/%i''
         \<and> next_file_name readable machine basename extension
             = next_file_name readable (machine\<lparr>snap_name := None\<rparr>) basename extension
         \<and> open_next_file readable' create machine fs basename extension
             = open_next_file readable' create (machine\<lparr>snap_name := None\<rparr>) fs basename extension"
proof -
  have ne: "t \<noteq> []"
  proof
    assume "t = []"
    then have "strip_extension t = []" by (simp add: strip_extension_def find_last_of_def)
    then show False using assms(2) by (simp add: occurs_at_def)
  qed
  from two_tokens_found [OF assms(2,3,4)]
  obtain pos where pos: "str_find (strip_extension t) ''%d_'' 0 = Some pos"
      "str_find (strip_extension t) ''%d_'' (pos + 3) \<noteq> None"
    by blast
  have a: "snapshot_template machine = Some ''%g/%i''"
    using pos ne by (simp add: snapshot_template_def assms(1) Let_def)
  then have same: "snapshot_template machine = snapshot_template (machine\<lparr>snap_name := None\<rparr>)"
    by (simp add: snapshot_template_default)
  have b: "next_file_name r machine basename extension
             = next_file_name r (machine\<lparr>snap_name := None\<rparr>) basename extension" for r
    by (rule next_file_name_template [OF same]) simp_all
  show ?thesis using a b by (simp add: open_next_file_def)
qed

text \<open>C9, witness: the template \<open>%g/%d_cart/%d_flop/%i\<close> on the game \<open>game\<close>, where
  the file numbered 0000 exists: the file opened is \<open>game/gfxset0_0001.png\<close>.\<close>

theorem snapshot_template_falls_back_witness:
  "snap_name ((example_machine [] [] [])\<lparr>snap_name := Some ''%g/%d_cart/%d_flop/%i''\<rparr>)
     = Some ''%g/%d_cart/%d_flop/%i''
   \<and> occurs_at (strip_extension ''%g/%d_cart/%d_flop/%i'') ''%d_'' 3
   \<and> occurs_at (strip_extension ''%g/%d_cart/%d_flop/%i'') ''%d_'' 11
   \<and> (3::nat) \<noteq> 11
   \<and> snapshot_template ((example_machine [] [] [])\<lparr>snap_name := Some ''%g/%d_cart/%d_flop/%i''\<rparr>)
       = Some ''%g/%i''
   \<and> next_file_name (\<lambda>f. f = ''game/gfxset0_0000.png'')
        ((example_machine [] [] [])\<lparr>snap_name := Some ''%g/%d_cart/%d_flop/%i''\<rparr>)
        ''gfxset0'' ''png'' = Some ''game/gfxset0_0001.png''"
proof -
  let ?m = "(example_machine [] [] [])\<lparr>snap_name := Some ''%g/%d_cart/%d_flop/%i''\<rparr>"
  have s: "snap_name ?m = Some ''%g/%d_cart/%d_flop/%i''" by simp
  have o: "occurs_at (strip_extension ''%g/%d_cart/%d_flop/%i'') ''%d_'' 3"
    "occurs_at (strip_extension ''%g/%d_cart/%d_flop/%i'') ''%d_'' 11"
    by code_simp+
  have n: "(3::nat) \<noteq> 11" by simp
  note th = snapshot_template_falls_back [OF s o n, of "\<lambda>f. f = ''game/gfxset0_0000.png''"
      "''gfxset0''" "''png''"]
  have d: "next_file_name (\<lambda>f. f = ''game/gfxset0_0000.png'')
             ((example_machine [] [] [])\<lparr>snap_name := None\<rparr>)
             ''gfxset0'' ''png'' = Some ''game/gfxset0_0001.png''"
    by code_simp
  note a = th [THEN conjunct1] and b = th [THEN conjunct2, THEN conjunct1]
  from a b d s o n show ?thesis by simp
qed

subsection \<open>Loops and logs\<close>

lemma for_each_invariant:
  assumes "for_each body xs a = Some b" "P a"
    and "\<And>x c d. x \<in> set xs \<Longrightarrow> P c \<Longrightarrow> body x c = Some d \<Longrightarrow> P d"
  shows "P b"
  using assms
proof (induction xs arbitrary: a)
  case Nil
  then show ?case by simp
next
  case (Cons x xs)
  then obtain c where c: "body x a = Some c" "for_each body xs c = Some b"
    by (auto split: option.splits)
  have "P c" using Cons.prems(2,3) c(1) by (meson list.set_intros(1))
  then show ?case using Cons.IH [OF c(2)] Cons.prems(3) by (meson list.set_intros(2))
qed

lemma for_each_returns:
  assumes "P a"
    and "\<And>x c. x \<in> set xs \<Longrightarrow> P c \<Longrightarrow> \<exists>d. body x c = Some d \<and> P d"
  shows "\<exists>b. for_each body xs a = Some b \<and> P b"
  using assms
proof (induction xs arbitrary: a)
  case Nil
  then show ?case by simp
next
  case (Cons x xs)
  then obtain c where c: "body x a = Some c" "P c" by (meson list.set_intros(1))
  from Cons.IH [OF c(2)] Cons.prems(2) obtain b where "for_each body xs c = Some b" "P b"
    by (meson list.set_intros(2))
  then show ?case using c(1) by simp
qed

lemma for_each_accumulates:
  assumes "for_each body xs a = Some b" "P a"
    and "\<And>x c d. x \<in> set xs \<Longrightarrow> P c \<Longrightarrow> body x c = Some d \<Longrightarrow> P d \<and> g d = g c @ plan x"
  shows "P b \<and> g b = g a @ concat (map plan xs)"
  using assms
proof (induction xs arbitrary: a)
  case Nil
  then show ?case by simp
next
  case (Cons x xs)
  then obtain c where c: "body x a = Some c" "for_each body xs c = Some b"
    by (auto split: option.splits)
  have pc: "P c \<and> g c = g a @ plan x"
    using Cons.prems(2,3) c(1) by (meson list.set_intros(1))
  have "P b \<and> g b = g c @ concat (map plan xs)"
  proof (rule Cons.IH [OF c(2)])
    show "P c" using pc by simp
    show "P d \<and> g d = g e @ plan y" if "y \<in> set xs" "P e" "body y e = Some d" for y e d
      using Cons.prems(3) [of y e d] that by simp
  qed
  then show ?case using pc by simp
qed

lemma attempts_simps [simp]:
  "attempts [] = []" "attempts (a @ b) = attempts a @ attempts b"
  "attempts (Opened n x ok # l) = (n, x) # attempts l"
  "attempts (Puts t # l) = attempts l" "attempts (Png_write w h k ok # l) = attempts l"
  "attempts (Printf t # l) = attempts l"
  by (simp_all add: attempts_def)

lemma opened_ok_simps [simp]:
  "opened_ok [] = []" "opened_ok (a @ b) = opened_ok a @ opened_ok b"
  "opened_ok (Opened n x ok # l) = (if ok then [(n, x)] else []) @ opened_ok l"
  "opened_ok (Puts t # l) = opened_ok l" "opened_ok (Png_write w h k ok # l) = opened_ok l"
  "opened_ok (Printf t # l) = opened_ok l"
  by (simp_all add: opened_ok_def)

lemma printed_simps [simp]:
  "printed [] = []" "printed (a @ b) = printed a @ printed b"
  "printed (Opened n x ok # l) = printed l"
  "printed (Puts t # l) = printed l" "printed (Png_write w h k ok # l) = printed l"
  "printed (Printf t # l) = t # printed l"
  by (simp_all add: printed_def)

lemma written_simps [simp]:
  "written [] = []" "written (a @ b) = written a @ written b"
  "written (Opened n x ok # l) = written l"
  "written (Puts t # l) = written l" "written (Png_write w h k ok # l) = (w, h, k) # written l"
  "written (Printf t # l) = written l"
  by (simp_all add: written_def)

lemma write_errors_simps [simp]:
  "write_errors [] = []" "write_errors (a @ b) = write_errors a @ write_errors b"
  "write_errors (Opened n x ok # l) = write_errors l"
  "write_errors (Puts t # l) = write_errors l"
  "write_errors (Png_write w h k ok # l) = (if ok then [] else [(w, h, k)]) @ write_errors l"
  "write_errors (Printf t # l) = write_errors l"
  by (simp_all add: write_errors_def)

lemma write_errors_map_Puts [simp]: "write_errors (map Puts ls) = []"
  by (induction ls) simp_all

lemma printed_map_Puts [simp]: "printed (map Puts ls) = []"
  by (induction ls) simp_all

lemma attempts_map_Puts [simp]: "attempts (map Puts ls) = []"
  by (induction ls) simp_all

lemma opened_ok_map_Puts [simp]: "opened_ok (map Puts ls) = []"
  by (induction ls) simp_all

lemma written_map_Puts [simp]: "written (map Puts ls) = []"
  by (induction ls) simp_all

subsection \<open>Drawing keeps the size of the bitmap\<close>

lemma same_size_refl [simp]: "same_size a a"
  by (simp add: same_size_def)

lemma same_size_trans: "same_size a b \<Longrightarrow> same_size b c \<Longrightarrow> same_size a c"
  by (simp add: same_size_def)

lemma gfxset_draw_pixel_size:
  "same_size bm (gfxset_draw_pixel gfx index pal color rot dstx dsty y x bm)"
  by (simp add: gfxset_draw_pixel_def same_size_def Let_def split: prod.splits)

lemma fold_same_size:
  assumes "\<And>x b. same_size b (f x b)"
  shows "same_size a (fold f xs a)"
proof (induction xs arbitrary: a)
  case Nil
  then show ?case by simp
next
  case (Cons x xs)
  have "same_size a (f x a)" by (rule assms)
  moreover have "same_size (f x a) (fold f xs (f x a))" by (rule Cons.IH)
  ultimately show ?case using same_size_trans by simp
qed

lemma gfxset_draw_item_size:
  assumes "gfxset_draw_item gfx index bm dstx dsty color rot dpalette = Some bm'"
  shows "same_size bm bm'"
proof -
  obtain pal where pal: "dpalette = Some pal"
    using assms by (cases dpalette) (simp_all add: gfxset_draw_item_def)
  have row: "same_size b (fold (\<lambda>x. gfxset_draw_pixel gfx index pal color rot dstx dsty y x) xs b)"
    for y xs b
    by (rule fold_same_size) (rule gfxset_draw_pixel_size)
  have "same_size bm (fold (\<lambda>y. fold (\<lambda>x. gfxset_draw_pixel gfx index pal color rot dstx dsty y x)
                               (map int [0..<nat (gfxset_cell_width gfx rot)]))
                     (map int [0..<nat (gfxset_cell_height gfx rot)]) bm)"
    by (rule fold_same_size) (rule row)
  then show ?thesis using assms by (simp add: gfxset_draw_item_def pal)
qed

lemma gfxset_draw_item_returns:
  "dpalette \<noteq> None \<Longrightarrow> \<exists>bm'. gfxset_draw_item gfx index bm dstx dsty color rot dpalette = Some bm'"
  by (cases dpalette) (simp_all add: gfxset_draw_item_def)

lemma bitmap_fill0_size: "same_size bm (bitmap_fill0 a b c d bm)"
  by (simp add: bitmap_fill0_def same_size_def)

lemma gfxset_draw_cell_size:
  assumes "gfxset_draw_cell info gset gfx cellxpix cellypix xcells y x bm = Some bm'"
  shows "same_size bm bm'"
  using assms gfxset_draw_item_size bitmap_fill0_size
  by (auto simp: gfxset_draw_cell_def Let_def split: if_splits)

lemma gfxset_draw_cell_returns:
  "info_palette info gset \<noteq> None \<Longrightarrow>
     \<exists>bm'. gfxset_draw_cell info gset gfx cellxpix cellypix xcells y x bm = Some bm'"
  using gfxset_draw_item_returns by (simp add: gfxset_draw_cell_def Let_def)

lemma gfxset_draw_row_size:
  assumes "gfxset_draw_row info gset gfx cellxpix cellypix xcells y bm = Some bm'"
  shows "same_size bm bm'"
proof (cases "to_uint32 (info_offset info gset + y * xcells) < int (gfx_elements gfx)")
  case True
  then have "for_each (gfxset_draw_cell info gset gfx cellxpix cellypix xcells y)
               (map int [0..<nat xcells]) bm = Some bm'"
    using assms by (simp add: gfxset_draw_row_def)
  then show ?thesis
    by (rule for_each_invariant [where P = "same_size bm"])
       (auto intro: same_size_trans gfxset_draw_cell_size)
next
  case False
  then show ?thesis using assms bitmap_fill0_size by (auto simp: gfxset_draw_row_def)
qed

lemma gfxset_draw_row_returns:
  assumes "info_palette info gset \<noteq> None"
  shows "\<exists>bm'. gfxset_draw_row info gset gfx cellxpix cellypix xcells y bm = Some bm'"
proof (cases "to_uint32 (info_offset info gset + y * xcells) < int (gfx_elements gfx)")
  case True
  have "\<exists>b. for_each (gfxset_draw_cell info gset gfx cellxpix cellypix xcells y)
               (map int [0..<nat xcells]) bm = Some b \<and> True"
    by (rule for_each_returns) (use gfxset_draw_cell_returns [OF assms] in auto)
  then show ?thesis using True by (simp add: gfxset_draw_row_def)
next
  case False
  then show ?thesis by (simp add: gfxset_draw_row_def)
qed

lemma gfxset_draw_rows_size:
  assumes "gfxset_draw_rows info gset gfx cellxpix cellypix xcells ycells bm = Some bm'"
  shows "same_size bm bm'"
  using assms unfolding gfxset_draw_rows_def
  by (rule for_each_invariant [where P = "same_size bm"])
     (auto intro: same_size_trans gfxset_draw_row_size)

lemma gfxset_draw_rows_returns:
  assumes "info_palette info gset \<noteq> None"
  shows "\<exists>bm'. gfxset_draw_rows info gset gfx cellxpix cellypix xcells ycells bm = Some bm'"
proof -
  have "\<exists>b. for_each (gfxset_draw_row info gset gfx cellxpix cellypix xcells)
               (map int [0..<nat ycells]) bm = Some b \<and> True"
    by (rule for_each_returns) (use gfxset_draw_row_returns [OF assms] in auto)
  then show ?thesis by (simp add: gfxset_draw_rows_def)
qed

lemma gfxset_update_save_bitmap_returns:
  assumes "info_palette (gfxdev state (gfxset_devindex state)) (gfxset_set state) \<noteq> None"
  shows "\<exists>bm. gfxset_update_save_bitmap allocate state xcells ycells gfx = Some bm"
  using gfxset_draw_rows_returns [OF assms] by (simp add: gfxset_update_save_bitmap_def Let_def)

lemma gfxset_update_save_bitmap_size:
  assumes "gfxset_update_save_bitmap allocate state xcells ycells gfx = Some bm"
  shows "same_size
           (allocate
              (gfxset_cell_width gfx
                 (info_rotate (gfxdev state (gfxset_devindex state)) (gfxset_set state)) * xcells)
              (gfxset_cell_height gfx
                 (info_rotate (gfxdev state (gfxset_devindex state)) (gfxset_set state)) * ycells))
           bm"
  using assms gfxset_draw_rows_size by (auto simp: gfxset_update_save_bitmap_def Let_def)

subsection \<open>The export of the graphics sets\<close>

lemma export_keeps_refl [simp]: "export_keeps s s"
  by (simp add: export_keeps_def)

lemma export_keeps_trans: "export_keeps a b \<Longrightarrow> export_keeps b c \<Longrightarrow> export_keeps a c"
  by (simp add: export_keeps_def)

lemma export_keeps_palette_set_device:
  "export_keeps s (palette_set_device machine s)"
  by (simp add: export_keeps_def palette_set_device_def)

lemma export_keeps_palette_fields:
  "export_keeps s (s\<lparr>palette_which := w\<rparr>)" "export_keeps s (s\<lparr>palette_devindex := i\<rparr>)"
  by (simp_all add: export_keeps_def)

lemma export_keeps_color:
  "export_keeps s
     (s\<lparr>gfxset_set := gset,
        gfxdev := (gfxdev s)(dev := (gfxdev s dev)\<lparr>info_color := c\<rparr>)\<rparr>)"
  by (simp add: export_keeps_def fun_eq_iff)

lemma count_ok_simps [simp]:
  "count_ok x [] = 0" "count_ok x (a @ b) = count_ok x a + count_ok x b"
  "count_ok x (Opened n y ok # l) = (if ok \<and> y = x then 1 else 0) + count_ok x l"
  "count_ok x (Puts t # l) = count_ok x l" "count_ok x (Png_write w h k ok # l) = count_ok x l"
  "count_ok x (Printf t # l) = count_ok x l"
  by (simp_all add: count_ok_def)

lemma gfxset_save_snapshot_log [simp]:
  "attempts (gfxset_save_snapshot png fs w h n) = []"
  "opened_ok (gfxset_save_snapshot png fs w h n) = []"
  "count_ok x (gfxset_save_snapshot png fs w h n) = 0"
  "length (written (gfxset_save_snapshot png fs w h n)) = 1"
  "length (printed (gfxset_save_snapshot png fs w h n))
     = length (write_errors (gfxset_save_snapshot png fs w h n))"
  by (simp_all add: gfxset_save_snapshot_def split: option.splits)

lemma one_per_image_refl [simp]: "one_per_image log log"
  by (simp add: one_per_image_def)

lemma one_per_image_trans:
  "one_per_image a b \<Longrightarrow> one_per_image b c \<Longrightarrow> one_per_image a c"
  by (auto simp: one_per_image_def)

lemma gfxset_handle_save_color_Some:
  assumes "gfxset_handle_save_color onf png allocate machine dev gset gfx xcells ycells nc color
             (s, fs, log) = Some (s', fs', log')"
  shows "export_keeps s s'"
    and "attempts log' = attempts log @ [(gfxset_save_filename gset gfx color, ''png'')]"
    and "one_per_image log log'"
proof -
  define s1 where "s1 = s\<lparr>gfxset_set := gset,
      gfxdev := (gfxdev s)(dev := (gfxdev s dev)\<lparr>info_color := (info_color (gfxdev s dev))(gset := color)\<rparr>)\<rparr>"
  define s2 where "s2 = palette_set_device machine (s1\<lparr>palette_which := 0, palette_devindex := 0\<rparr>)"
  from assms obtain bm ok fs1 where
    r0: "gfxset_update_save_bitmap allocate s1 xcells ycells gfx = Some bm"
      "onf fs (gfxset_save_filename gset gfx color) ''png'' = Some (ok, fs1)"
    unfolding gfxset_handle_save_color_def s1_def
    by (auto simp: bind_eq_Some_conv Let_def)
  from assms r0 have r: "s' = s2"
      "log' = log @ [Opened (gfxset_save_filename gset gfx color) ''png'' ok]
                  @ (if ok
                     then gfxset_save_snapshot png fs1 (bm_width bm) (bm_height bm) nc
                          @ [Printf (gfxset_saved_message gset (info_setcount (gfxdev s2 dev))
                                       gfx color)]
                     else [])"
    unfolding gfxset_handle_save_color_def s2_def s1_def
    by (auto simp: Let_def)
  have "export_keeps s s1" unfolding s1_def by (rule export_keeps_color)
  moreover have "export_keeps s1 s2"
    by (simp add: s2_def export_keeps_def palette_set_device_def)
  ultimately show "export_keeps s s'" unfolding r(1) by (rule export_keeps_trans)
  show "attempts log' = attempts log @ [(gfxset_save_filename gset gfx color, ''png'')]"
    by (simp add: r(2))
  show "one_per_image log log'"
    by (simp add: r(2) one_per_image_def)
qed

lemma gfxset_handle_save_color_returns:
  assumes "opener_returns onf" "info_palette (gfxdev s dev) gset \<noteq> None" "dev = gfxset_devindex s"
  shows "\<exists>r. gfxset_handle_save_color onf png allocate machine dev gset gfx xcells ycells nc color
               (s, fs, log) = Some r"
proof -
  define s1 where "s1 = s\<lparr>gfxset_set := gset,
      gfxdev := (gfxdev s)(dev := (gfxdev s dev)\<lparr>info_color := (info_color (gfxdev s dev))(gset := color)\<rparr>)\<rparr>"
  have "info_palette (gfxdev s1 (gfxset_devindex s1)) (gfxset_set s1) \<noteq> None"
    using assms(2,3) by (simp add: s1_def)
  from gfxset_update_save_bitmap_returns [OF this]
  obtain bm where bm: "gfxset_update_save_bitmap allocate s1 xcells ycells gfx = Some bm"
    by blast
  have "onf fs (gfxset_save_filename gset gfx color) ''png'' \<noteq> None"
    using assms(1) by (simp add: opener_returns_def)
  then obtain ok fs1 where r: "onf fs (gfxset_save_filename gset gfx color) ''png'' = Some (ok, fs1)"
    by (cases "onf fs (gfxset_save_filename gset gfx color) ''png''") auto
  show ?thesis
    unfolding gfxset_handle_save_color_def s1_def [symmetric]
    by (simp add: bm r Let_def s1_def [symmetric])
qed

lemma concat_map_singleton_list: "concat (map (\<lambda>x. [f x]) xs) = map f xs"
  by (induction xs) simp_all

lemma max_colors_nat:
  "nat (if 32 < c then 32 else c) = nat (min c 32)"
  by simp

lemma gfxset_handle_save_colors_Some:
  assumes "for_each (gfxset_handle_save_color onf png allocate machine dev gset gfx xc yc nc)
             (map int ns) (s, fs, log) = Some (s', fs', log')"
  shows "export_keeps s s' \<and> one_per_image log log'
         \<and> attempts log' = attempts log
              @ map (\<lambda>color. (gfxset_save_filename gset gfx (int color), ''png'')) ns"
  using assms
proof (induction ns arbitrary: s fs log)
  case Nil
  then show ?case by simp
next
  case (Cons n ns)
  from Cons.prems obtain mid where
    mid: "gfxset_handle_save_color onf png allocate machine dev gset gfx xc yc nc (int n) (s, fs, log)
            = Some mid"
      "for_each (gfxset_handle_save_color onf png allocate machine dev gset gfx xc yc nc)
             (map int ns) mid = Some (s', fs', log')"
    by (cases "gfxset_handle_save_color onf png allocate machine dev gset gfx xc yc nc (int n)
                 (s, fs, log)") simp_all
  obtain ms mf ml where m: "mid = (ms, mf, ml)" by (rule prod_cases3)
  note a = gfxset_handle_save_color_Some [OF mid(1) [unfolded m]]
  note b = Cons.IH [OF mid(2) [unfolded m]]
  have "export_keeps s s'" using a(1) b export_keeps_trans by blast
  moreover have "one_per_image log log'" using a(3) b one_per_image_trans by blast
  moreover have "attempts log' = attempts log
     @ map (\<lambda>color. (gfxset_save_filename gset gfx (int color), ''png'')) (n # ns)"
    using a(2) b by simp
  ultimately show ?case by simp
qed

lemma gfxset_handle_save_set_unfold:
  assumes "gfxset_handle_save_set onf png allocate machine dev interface gset (s, fs, log)
             = Some (s', fs', log')"
  shows "\<exists>gfx s1 yc nc. interface gset = Some gfx \<and> export_keeps s s1
           \<and> for_each (gfxset_handle_save_color onf png allocate machine dev gset gfx 32 yc nc)
                (map int [0..<nat (min (to_int32 (int (gfx_colors gfx))) 32)]) (s1, fs, log) = Some (s', fs', log')"
proof -
  from assms obtain gfx pal where g: "interface gset = Some gfx" "gfx_palette gfx = Some pal"
    by (auto simp: gfxset_handle_save_set_def bind_eq_Some_conv)
  show ?thesis
  proof (cases "pal_indirect_entries pal > 0")
    case True
    then have "for_each (gfxset_handle_save_color onf png allocate machine dev gset gfx 32
                 (to_int32 (to_uint32 (int (gfx_elements gfx) + 32 - 1) div 32))
                 (to_int32 (int (pal_indirect_entries pal))))
                (map int [0..<nat (min (to_int32 (int (gfx_colors gfx))) 32)]) (s\<lparr>palette_which := 1\<rparr>, fs, log)
               = Some (s', fs', log')"
      using assms g by (simp add: gfxset_handle_save_set_def Let_def max_colors_nat)
    then show ?thesis using g(1) export_keeps_palette_fields(1) by blast
  next
    case False
    then have "for_each (gfxset_handle_save_color onf png allocate machine dev gset gfx 32
                 (to_int32 (to_uint32 (int (gfx_elements gfx) + 32 - 1) div 32))
                 (to_int32 (if palette_which s \<noteq> 0 then int (pal_indirect_entries pal)
                            else int (pal_entries pal))))
                (map int [0..<nat (min (to_int32 (int (gfx_colors gfx))) 32)]) (s, fs, log)
               = Some (s', fs', log')"
      using assms g by (simp add: gfxset_handle_save_set_def Let_def max_colors_nat)
    then show ?thesis using g(1) export_keeps_refl by blast
  qed
qed

lemma gfxset_handle_save_set_Some:
  assumes "gfxset_handle_save_set onf png allocate machine dev interface gset (s, fs, log)
             = Some (s', fs', log')"
  shows "export_keeps s s'"
    and "attempts log' = attempts log
           @ (case interface gset of
                None \<Rightarrow> []
              | Some gfx \<Rightarrow> map (\<lambda>color. (gfxset_save_filename gset gfx (int color), ''png''))
                              [0..<nat (min (to_int32 (int (gfx_colors gfx))) 32)])"
    and "one_per_image log log'"
proof -
  from gfxset_handle_save_set_unfold [OF assms] obtain gfx s1 yc nc where
    g: "interface gset = Some gfx" "export_keeps s s1"
      "for_each (gfxset_handle_save_color onf png allocate machine dev gset gfx 32 yc nc)
                (map int [0..<nat (min (to_int32 (int (gfx_colors gfx))) 32)]) (s1, fs, log) = Some (s', fs', log')"
    by blast
  note r = gfxset_handle_save_colors_Some [OF g(3)]
  show "export_keeps s s'" using g(2) r export_keeps_trans by blast
  show "one_per_image log log'" using r by simp
  show "attempts log' = attempts log
           @ (case interface gset of
                None \<Rightarrow> []
              | Some gfx \<Rightarrow> map (\<lambda>color. (gfxset_save_filename gset gfx (int color), ''png''))
                              [0..<nat (min (to_int32 (int (gfx_colors gfx))) 32)])"
    using r by (simp add: g(1))
qed

lemma export_keeps_fields:
  assumes "export_keeps s s'"
  shows "gfxset_devindex s' = gfxset_devindex s"
    and "info_palette (gfxdev s' d) = info_palette (gfxdev s d)"
    and "info_interface (gfxdev s' d) = info_interface (gfxdev s d)"
    and "info_setcount (gfxdev s' d) = info_setcount (gfxdev s d)"
  using assms by (auto simp: export_keeps_def dest: fun_cong)

lemma gfxset_handle_save_sets_Some:
  assumes "for_each (gfxset_handle_save_set onf png allocate machine dev interface) ns (s, fs, log)
             = Some (s', fs', log')"
  shows "export_keeps s s' \<and> one_per_image log log'
         \<and> attempts log' = attempts log
              @ concat (map (\<lambda>gset. case interface gset of
                                   None \<Rightarrow> []
                                 | Some gfx \<Rightarrow>
                                     map (\<lambda>color. (gfxset_save_filename gset gfx (int color), ''png''))
                                       [0..<nat (min (to_int32 (int (gfx_colors gfx))) 32)]) ns)"
  using assms
proof (induction ns arbitrary: s fs log)
  case Nil
  then show ?case by simp
next
  case (Cons n ns)
  from Cons.prems obtain mid where
    mid: "gfxset_handle_save_set onf png allocate machine dev interface n (s, fs, log) = Some mid"
      "for_each (gfxset_handle_save_set onf png allocate machine dev interface) ns mid
         = Some (s', fs', log')"
    by (cases "gfxset_handle_save_set onf png allocate machine dev interface n (s, fs, log)")
      simp_all
  obtain ms mf ml where m: "mid = (ms, mf, ml)" by (rule prod_cases3)
  note a = gfxset_handle_save_set_Some [OF mid(1) [unfolded m]]
  note b = Cons.IH [OF mid(2) [unfolded m]]
  have "export_keeps s s'" using a(1) b export_keeps_trans by blast
  moreover have "one_per_image log log'" using a(3) b one_per_image_trans by blast
  moreover have "attempts log' = attempts log
     @ concat (map (\<lambda>gset. case interface gset of
                                   None \<Rightarrow> []
                                 | Some gfx \<Rightarrow>
                                     map (\<lambda>color. (gfxset_save_filename gset gfx (int color), ''png''))
                                       [0..<nat (min (to_int32 (int (gfx_colors gfx))) 32)]) (n # ns))"
    using a(2) b by simp
  ultimately show ?case by simp
qed

lemma gfxset_handle_save_unfold:
  assumes "gfxset_handle_save onf png allocate machine (s, fs, log) = Some (s', fs', log')"
  shows "\<exists>interface l. info_interface (gfxdev s (gfxset_devindex s)) = Some interface
           \<and> for_each (gfxset_handle_save_set onf png allocate machine (gfxset_devindex s) interface)
                [0..<info_setcount (gfxdev s (gfxset_devindex s))] (s, fs, log) = Some (s', fs', l)
           \<and> log' = l @ [Printf (''Finished saving gfxsets'' @ newline)]"
proof -
  from assms obtain interface r where
    r: "info_interface (gfxdev s (gfxset_devindex s)) = Some interface"
      "for_each (gfxset_handle_save_set onf png allocate machine (gfxset_devindex s) interface)
                [0..<info_setcount (gfxdev s (gfxset_devindex s))] (s, fs, log) = Some r"
    by (auto simp: gfxset_handle_save_def Let_def bind_eq_Some_conv)
  obtain rs rf rl where p: "r = (rs, rf, rl)" by (rule prod_cases3)
  from assms r p have "s' = rs" "fs' = rf"
      "log' = rl @ [Printf (''Finished saving gfxsets'' @ newline)]"
    by (simp_all add: gfxset_handle_save_def Let_def)
  then show ?thesis using r p by simp
qed

lemma gfxset_handle_save_Some:
  assumes "gfxset_handle_save onf png allocate machine (s, fs, log) = Some (s', fs', log')"
  shows "export_keeps s s'"
    and "attempts log' = attempts log @ gfxset_save_plan s"
    and "length (printed log') + count_ok ''png'' log + length (write_errors log)
           = length (printed log) + count_ok ''png'' log' + length (write_errors log') + 1"
    and "length (written log') + count_ok ''png'' log
           = length (written log) + count_ok ''png'' log'"
proof -
  from gfxset_handle_save_unfold [OF assms] obtain interface l where
    r: "info_interface (gfxdev s (gfxset_devindex s)) = Some interface"
      "for_each (gfxset_handle_save_set onf png allocate machine (gfxset_devindex s) interface)
                [0..<info_setcount (gfxdev s (gfxset_devindex s))] (s, fs, log) = Some (s', fs', l)"
      "log' = l @ [Printf (''Finished saving gfxsets'' @ newline)]"
    by blast
  note a = gfxset_handle_save_sets_Some [OF r(2)]
  show "export_keeps s s'" using a by simp
  show "attempts log' = attempts log @ gfxset_save_plan s"
    using a by (simp add: r(1,3) gfxset_save_plan_def Let_def)
  have o: "one_per_image log l" using a by simp
  show "length (printed log') + count_ok ''png'' log + length (write_errors log)
           = length (printed log) + count_ok ''png'' log' + length (write_errors log') + 1"
    using o by (simp add: r(3) one_per_image_def)
  show "length (written log') + count_ok ''png'' log
           = length (written log) + count_ok ''png'' log'"
    using o by (simp add: r(3) one_per_image_def)
qed

lemma gfxset_handle_save_colors_returns:
  assumes "opener_returns onf" "info_palette (gfxdev s dev) gset \<noteq> None"
    "dev = gfxset_devindex s"
  shows "\<exists>r. for_each (gfxset_handle_save_color onf png allocate machine dev gset gfx xc yc nc)
               (map int ns) (s, fs, log) = Some r"
  using assms(2,3)
proof (induction ns arbitrary: s fs log)
  case Nil
  then show ?case by simp
next
  case (Cons n ns)
  from gfxset_handle_save_color_returns [OF assms(1) Cons.prems]
  obtain mid where
    mid: "gfxset_handle_save_color onf png allocate machine dev gset gfx xc yc nc (int n) (s, fs, log)
            = Some mid"
    by blast
  obtain ms mf ml where m: "mid = (ms, mf, ml)" by (rule prod_cases3)
  note k = export_keeps_fields [OF gfxset_handle_save_color_Some(1) [OF mid [unfolded m]]]
  have "info_palette (gfxdev ms dev) gset \<noteq> None" "dev = gfxset_devindex ms"
    using Cons.prems by (simp_all add: k)
  from Cons.IH [OF this] show ?case by (simp add: mid m)
qed

lemma gfxset_handle_save_set_returns:
  assumes "opener_returns onf" "interface gset = Some gfx" "gfx_palette gfx = Some pal"
    "info_palette (gfxdev s dev) gset \<noteq> None" "dev = gfxset_devindex s"
  shows "\<exists>r. gfxset_handle_save_set onf png allocate machine dev interface gset (s, fs, log) = Some r"
proof (cases "pal_indirect_entries pal > 0")
  case True
  have "info_palette (gfxdev (s\<lparr>palette_which := 1\<rparr>) dev) gset \<noteq> None"
    "dev = gfxset_devindex (s\<lparr>palette_which := 1\<rparr>)"
    using assms(4,5) by simp_all
  from gfxset_handle_save_colors_returns [OF assms(1) this]
  show ?thesis using True assms(2,3)
    by (simp add: gfxset_handle_save_set_def Let_def max_colors_nat)
next
  case False
  from gfxset_handle_save_colors_returns [OF assms(1,4,5)]
  show ?thesis using False assms(2,3)
    by (simp add: gfxset_handle_save_set_def Let_def max_colors_nat)
qed

lemma gfxset_handle_save_sets_returns:
  assumes "opener_returns onf"
    and "\<forall>gset \<in> set ns. \<exists>gfx. interface gset = Some gfx \<and> gfx_palette gfx \<noteq> None
             \<and> info_palette (gfxdev s dev) gset \<noteq> None"
    and "dev = gfxset_devindex s"
  shows "\<exists>r. for_each (gfxset_handle_save_set onf png allocate machine dev interface) ns (s, fs, log)
               = Some r"
  using assms(2,3)
proof (induction ns arbitrary: s fs log)
  case Nil
  then show ?case by simp
next
  case (Cons n ns)
  from Cons.prems(1) obtain gfx pal where
    g: "interface n = Some gfx" "gfx_palette gfx = Some pal"
      "info_palette (gfxdev s dev) n \<noteq> None"
    by auto
  from gfxset_handle_save_set_returns [where interface = interface and gset = n, OF assms(1) g Cons.prems(2)]
  obtain mid where
    mid: "gfxset_handle_save_set onf png allocate machine dev interface n (s, fs, log) = Some mid"
    by blast
  obtain ms mf ml where m: "mid = (ms, mf, ml)" by (rule prod_cases3)
  note k = export_keeps_fields [OF gfxset_handle_save_set_Some(1) [OF mid [unfolded m]]]
  have "\<forall>gset \<in> set ns. \<exists>gfx. interface gset = Some gfx \<and> gfx_palette gfx \<noteq> None
             \<and> info_palette (gfxdev ms dev) gset \<noteq> None"
    "dev = gfxset_devindex ms"
    using Cons.prems by (simp_all add: k)
  from Cons.IH [OF this] show ?case by (simp add: mid m)
qed

lemma gfxset_handle_save_returns:
  assumes "opener_returns onf" "gfxset_save_ready s"
  shows "\<exists>r. gfxset_handle_save onf png allocate machine (s, fs, log) = Some r"
proof -
  let ?info = "gfxdev s (gfxset_devindex s)"
  from assms(2) obtain interface where
    j: "info_interface ?info = Some interface"
      "\<forall>gset \<in> set [0..<info_setcount ?info].
          (case interface gset of
             None \<Rightarrow> False
           | Some gfx \<Rightarrow> \<not> Option.is_none (gfx_palette gfx))
          \<and> \<not> Option.is_none (info_palette ?info gset)"
    by (cases "info_interface ?info") (simp_all add: gfxset_save_ready_def Let_def)
  have "\<exists>gfx. interface gset = Some gfx \<and> gfx_palette gfx \<noteq> None
             \<and> info_palette ?info gset \<noteq> None"
    if "gset \<in> set [0..<info_setcount ?info]" for gset
  proof -
    from j(2) that have c: "case interface gset of
             None \<Rightarrow> False
           | Some gfx \<Rightarrow> \<not> Option.is_none (gfx_palette gfx)"
      and d: "\<not> Option.is_none (info_palette ?info gset)"
      by blast+
    from c obtain gfx where "interface gset = Some gfx" "\<not> Option.is_none (gfx_palette gfx)"
      by (cases "interface gset") simp_all
    then show ?thesis using d by (simp add: Option.is_none_def)
  qed
  then have i: "info_interface ?info = Some interface"
      "\<forall>gset \<in> set [0..<info_setcount ?info].
          \<exists>gfx. interface gset = Some gfx \<and> gfx_palette gfx \<noteq> None
             \<and> info_palette ?info gset \<noteq> None"
    using j(1) by blast+
  from gfxset_handle_save_sets_returns [OF assms(1) i(2) refl]
  obtain r where "for_each (gfxset_handle_save_set onf png allocate machine (gfxset_devindex s) interface)
      [0..<info_setcount (gfxdev s (gfxset_devindex s))] (s, fs, log) = Some r"
    by blast
  then show ?thesis by (simp add: gfxset_handle_save_def Let_def i(1))
qed

subsection \<open>The export of the tilemaps\<close>







subsection \<open>The export of the palettes\<close>


lemma count_ok_map_Puts [simp]: "count_ok x (map Puts ls) = 0"
  by (simp add: count_ok_def)










subsection \<open>The examples of exports\<close>

lemma opener_returns_example_opener: "opener_returns example_opener"
  by (simp add: opener_returns_def example_opener_def)


lemma gfxset_save_ready_two_devices: "gfxset_save_ready (example_started example_two_devices)"
  by code_simp



text \<open>
  C2, at a machine of two graphics devices of one set each, the first device current:
  the export returns, and asks for the two files of the two colors of the first device's
  set and for no file of the second device's set.
\<close>

theorem gfxset_export_of_current_device:
  "gfxset_devcount (example_started example_two_devices) = 2
   \<and> gfxset_devindex (example_started example_two_devices) = 0
   \<and> (\<exists>s' log'. gfxset_handle_save example_opener example_png example_allocate
                     example_two_devices (example_started example_two_devices, (), [])
                   = Some (s', (), log')
            \<and> attempts log' = [(''gfxset0 tiles 8x8 colors 2 set 0'', ''png''),
                               (''gfxset0 tiles 8x8 colors 2 set 1'', ''png'')])"
proof -
  have c: "gfxset_devcount (example_started example_two_devices) = 2"
    "gfxset_devindex (example_started example_two_devices) = 0"
    by code_simp+
  have p: "gfxset_save_plan (example_started example_two_devices)
             = [(''gfxset0 tiles 8x8 colors 2 set 0'', ''png''),
                (''gfxset0 tiles 8x8 colors 2 set 1'', ''png'')]"
    by code_simp
  from gfxset_handle_save_returns [OF opener_returns_example_opener gfxset_save_ready_two_devices]
  obtain r where r: "gfxset_handle_save example_opener example_png example_allocate
                     example_two_devices (example_started example_two_devices, (), []) = Some r"
    by blast
  obtain s' fs' log' where m: "r = (s', fs', log')" by (rule prod_cases3)
  have "attempts log' = attempts [] @ gfxset_save_plan (example_started example_two_devices)"
    by (rule gfxset_handle_save_Some(2) [OF r [unfolded m]])
  then have "attempts log' = [(''gfxset0 tiles 8x8 colors 2 set 0'', ''png''),
                               (''gfxset0 tiles 8x8 colors 2 set 1'', ''png'')]"
    by (simp add: p)
  moreover have "gfxset_handle_save example_opener example_png example_allocate
                     example_two_devices (example_started example_two_devices, (), [])
                   = Some (s', (), log')"
    using r m by simp
  ultimately show ?thesis using c by blast
qed







end
